(* ===== verification/Prelude.thy ===== *)
theory Prelude
  imports Main "HOL-Library.List_Lexorder" "HOL-Library.Char_ord"
begin

text \<open>
  Shared vocabulary of the development: the Python data the code uses (strings, results of
  fallible code), the string operations of \<^verbatim>\<open>str\<close> the sources call, and database tables as
  lists of rows with a primary key, behind the interface \<^verbatim>\<open>keyed_table\<close>.

  Python's \<^verbatim>\<open>str\<close> is modelled by HOL's \<^verbatim>\<open>string\<close>, a list of characters with code points
  U+0000 to U+00FF; \<^verbatim>\<open>bytes\<close> is the same type read as bytes. Python's unbounded integers are
  \<^verbatim>\<open>int\<close>. A raised exception is the left value of a sum.
\<close>

section \<open>Types and collections of facts\<close>

type_synonym bytes = "char list"

text \<open>Sequencing of calls that may raise: the first exception ends the sequence.\<close>

definition and_then :: "'e + 'a \<Rightarrow> ('a \<Rightarrow> 'e + 'b) \<Rightarrow> 'e + 'b" where
  "and_then x f = (case x of Inl e \<Rightarrow> Inl e | Inr v \<Rightarrow> f v)"

text \<open>The rules that take a successful or a failed sequence apart.\<close>

named_theorems sequence_simps \<open>outcomes of a sequence of fallible calls\<close>

lemma and_then_Inr [sequence_simps]: "and_then x f = Inr w \<longleftrightarrow> (\<exists>v. x = Inr v \<and> f v = Inr w)"
  by (simp add: and_then_def split: sum.split)

lemma and_then_Inl [sequence_simps]:
  "and_then x f = Inl e \<longleftrightarrow> x = Inl e \<or> (\<exists>v. x = Inr v \<and> f v = Inl e)"
  by (simp add: and_then_def split: sum.split)

lemma and_then_simps [simp]: "and_then (Inl e) f = Inl e" "and_then (Inr v) f = f v"
  by (simp_all add: and_then_def)

section \<open>Python strings\<close>

text \<open>\<^verbatim>\<open>chr(c).lower()\<close> on the first 256 code points: A-Z, and the Latin-1 capitals.\<close>

definition lower_char :: "char \<Rightarrow> char" where
  "lower_char c =
     (let n = of_char c :: nat
      in if (65 \<le> n \<and> n \<le> 90) \<or> (192 \<le> n \<and> n \<le> 214) \<or> (216 \<le> n \<and> n \<le> 222)
         then char_of (n + 32) else c)"

definition py_lower :: "string \<Rightarrow> string" where
  "py_lower s = map lower_char s"

text \<open>\<^verbatim>\<open>s.startswith(p)\<close> and \<^verbatim>\<open>p in s\<close>.\<close>

fun starts_with :: "string \<Rightarrow> string \<Rightarrow> bool" where
  "starts_with s [] = True"
| "starts_with [] (p # ps) = False"
| "starts_with (c # cs) (p # ps) = (c = p \<and> starts_with cs ps)"

fun contains :: "string \<Rightarrow> string \<Rightarrow> bool" where
  "contains p [] = (p = [])"
| "contains p (c # cs) = (starts_with (c # cs) p \<or> contains p cs)"

lemma starts_with_iff: "starts_with s p \<longleftrightarrow> (\<exists>t. s = p @ t)"
  by (induction s p rule: starts_with.induct) auto

lemma contains_iff: "contains p s \<longleftrightarrow> (\<exists>a b. s = a @ p @ b)"
proof (induction s)
  case Nil
  then show ?case by auto
next
  case (Cons c cs)
  have "(\<exists>a b. c # cs = a @ p @ b) \<longleftrightarrow>
      (\<exists>b. c # cs = p @ b) \<or> (\<exists>a b. cs = a @ p @ b)"
    by (metis append_Cons append_Nil neq_Nil_conv list.inject)
  with Cons.IH show ?case by (simp add: starts_with_iff)
qed

text \<open>\<^verbatim>\<open>s.rstrip(c)\<close> for a single character.\<close>

definition rstrip_char :: "char \<Rightarrow> string \<Rightarrow> string" where
  "rstrip_char c s = rev (dropWhile (\<lambda>x. x = c) (rev s))"

text \<open>\<^verbatim>\<open>s.replace(c, r)\<close> for a one-character pattern.\<close>

definition replace_char :: "char \<Rightarrow> string \<Rightarrow> string \<Rightarrow> string" where
  "replace_char c r s = concat (map (\<lambda>x. if x = c then r else [x]) s)"

text \<open>\<^verbatim>\<open>str(i)\<close> for an integer.\<close>

fun show_nat :: "nat \<Rightarrow> string" where
  "show_nat n = (if n < 10 then [char_of (48 + n)] else show_nat (n div 10) @ [char_of (48 + n mod 10)])"

declare show_nat.simps [simp del]

definition show_int :: "int \<Rightarrow> string" where
  "show_int i = (if i < 0 then CHR ''-'' # show_nat (nat (- i)) else show_nat (nat i))"

lemma show_nat_nonempty: "show_nat n \<noteq> []"
  by (subst show_nat.simps) simp

definition is_digit :: "char \<Rightarrow> bool" where
  "is_digit c = (48 \<le> (of_char c :: nat) \<and> (of_char c :: nat) \<le> 57)"

fun digits_value :: "nat \<Rightarrow> string \<Rightarrow> nat" where
  "digits_value acc [] = acc"
| "digits_value acc (c # cs) = digits_value (10 * acc + (of_char c - 48)) cs"

lemma digits_value_append: "digits_value acc (xs @ ys) = digits_value (digits_value acc xs) ys"
  by (induction xs arbitrary: acc) auto

lemma digit_char: "n < 10 \<Longrightarrow> (of_char (char_of (48 + n) :: char) :: nat) = 48 + n"
  by simp

lemma show_nat_digits: "c \<in> set (show_nat n) \<Longrightarrow> is_digit c"
proof (induction n rule: show_nat.induct)
  case (1 n)
  show ?case
  proof (cases "n < 10")
    case True
    with "1.prems" show ?thesis by (auto simp: show_nat.simps [of n] is_digit_def)
  next
    case False
    with "1.prems" have "c \<in> set (show_nat (n div 10)) \<or> c = char_of (48 + n mod 10)"
      by (auto simp: show_nat.simps [of n])
    with "1.IH" False show ?thesis by (auto simp: is_digit_def)
  qed
qed

lemma digits_value_show_nat: "digits_value 0 (show_nat n) = n"
proof (induction n rule: show_nat.induct)
  case (1 n)
  then show ?case
    by (cases "n < 10") (simp_all add: show_nat.simps [of n] digits_value_append)
qed

lemma show_nat_inject [simp]: "show_nat m = show_nat n \<longleftrightarrow> m = n"
  by (metis digits_value_show_nat)

text \<open>Two printed numbers followed by non-digits are equal only when the numbers are.\<close>

lemma split_at_first:
  assumes "xs @ r = ys @ s" and "\<forall>x\<in>set xs. P x" and "\<forall>y\<in>set ys. P y"
    and "r = [] \<or> \<not> P (hd r)" and "s = [] \<or> \<not> P (hd s)"
  shows "xs = ys \<and> r = s"
proof -
  have tw: "takeWhile P (zs @ t) = zs" if "\<forall>z\<in>set zs. P z" "t = [] \<or> \<not> P (hd t)" for zs t
    using that by (cases t) (auto simp: takeWhile_append)
  from tw [OF assms(2,4)] tw [OF assms(3,5)] assms(1) show ?thesis by auto
qed

section \<open>Tables of rows with a primary key\<close>

text \<open>
  A table is the list of its rows in insertion order. \<^verbatim>\<open>row_get\<close> is \<^verbatim>\<open>db.get\<close> (the row with the
  primary key, if any), \<^verbatim>\<open>row_insert\<close> an INSERT that the database refuses (\<^verbatim>\<open>None\<close>, an
  \<^verbatim>\<open>IntegrityError\<close>) when the key is taken, \<^verbatim>\<open>row_update\<close> an UPDATE of the row with the key.
\<close>

definition row_get :: "('r \<Rightarrow> 'k) \<Rightarrow> 'k \<Rightarrow> 'r list \<Rightarrow> 'r option" where
  "row_get key k rows = find (\<lambda>r. key r = k) rows"

definition row_insert :: "('r \<Rightarrow> 'k) \<Rightarrow> 'r \<Rightarrow> 'r list \<Rightarrow> 'r list option" where
  "row_insert key r rows = (if key r \<in> key ` set rows then None else Some (rows @ [r]))"

definition row_update :: "('r \<Rightarrow> 'k) \<Rightarrow> 'k \<Rightarrow> ('r \<Rightarrow> 'r) \<Rightarrow> 'r list \<Rightarrow> 'r list" where
  "row_update key k f rows = map (\<lambda>r. if key r = k then f r else r) rows"

lemma replace_char_none: "c \<notin> set s \<Longrightarrow> replace_char c r s = s"
  by (induction s) (auto simp: replace_char_def)

lemma find_append: "find P (xs @ ys) = (case find P xs of Some x \<Rightarrow> Some x | None \<Rightarrow> find P ys)"
  by (induction xs) simp_all

lemma find_unique:
  "distinct (map f xs) \<Longrightarrow> y \<in> set xs \<Longrightarrow> f y = k \<Longrightarrow> find (\<lambda>x. f x = k) xs = Some y"
  by (induction xs) auto

lemma row_update_column: "(\<And>r. f (g r) = f r) \<Longrightarrow> f ` set (row_update key k g rows) = f ` set rows"
proof -
  assume "\<And>r. f (g r) = f r"
  then have "map f (row_update key k g rows) = map f rows" by (simp add: row_update_def)
  then show ?thesis by (metis set_map)
qed

lemma row_get_append:
  "row_get key k (rows @ [r]) =
     (case row_get key k rows of Some x \<Rightarrow> Some x | None \<Rightarrow> if key r = k then Some r else None)"
  by (induction rows) (simp_all add: row_get_def)

text \<open>The interface the handlers rely on, and what follows from it alone.\<close>

locale keyed_table =
  fixes key :: "'r \<Rightarrow> 'k"
    and get :: "'k \<Rightarrow> 'r list \<Rightarrow> 'r option"
    and ins :: "'r \<Rightarrow> 'r list \<Rightarrow> 'r list option"
    and upd :: "'k \<Rightarrow> ('r \<Rightarrow> 'r) \<Rightarrow> 'r list \<Rightarrow> 'r list"
  assumes get_sound: "get k t = Some r \<Longrightarrow> r \<in> set t \<and> key r = k"
    and get_none: "get k t = None \<longleftrightarrow> k \<notin> key ` set t"
    and ins_none: "ins r t = None \<longleftrightarrow> key r \<in> key ` set t"
    and ins_some: "ins r t = Some t' \<Longrightarrow> t' = t @ [r] \<and> key r \<notin> key ` set t"
    and upd_map: "upd k f t = map (\<lambda>r. if key r = k then f r else r) t"
begin

lemma get_member: "get k t = Some r \<Longrightarrow> r \<in> set t"
  using get_sound by blast

lemma get_key: "get k t = Some r \<Longrightarrow> key r = k"
  using get_sound by blast

lemma member_get: "distinct (map key t) \<Longrightarrow> r \<in> set t \<Longrightarrow> get (key r) t = Some r"
proof -
  assume d: "distinct (map key t)" and r: "r \<in> set t"
  then obtain r' where r': "get (key r) t = Some r'"
    using get_none [of "key r" t] by fastforce
  with get_sound [OF r'] d r have "r' = r"
    by (metis distinct_map inj_onD)
  with r' show ?thesis by simp
qed

lemma get_eq_iff: "distinct (map key t) \<Longrightarrow> get k t = Some r \<longleftrightarrow> r \<in> set t \<and> key r = k"
  using member_get get_sound by blast

lemma ins_distinct: "ins r t = Some t' \<Longrightarrow> distinct (map key t) \<Longrightarrow> distinct (map key t')"
  using ins_some by fastforce

lemma ins_set: "ins r t = Some t' \<Longrightarrow> set t' = insert r (set t)"
  using ins_some by fastforce

lemma get_ins_same: "ins r t = Some t' \<Longrightarrow> distinct (map key t) \<Longrightarrow> get (key r) t' = Some r"
  by (rule member_get) (use ins_distinct ins_set in blast)+

lemma get_ins_other:
  assumes i: "ins r t = Some t'" and d: "distinct (map key t)" and k: "k \<noteq> key r"
  shows "get k t' = get k t"
proof -
  have "get k t' = Some q \<longleftrightarrow> get k t = Some q" for q
    using get_eq_iff [OF ins_distinct [OF i d]] get_eq_iff [OF d] ins_set [OF i] k by auto
  then show ?thesis by (metis not_None_eq)
qed

lemma upd_keys: "(\<And>r. key (f r) = key r) \<Longrightarrow> map key (upd k f t) = map key t"
  by (simp add: upd_map)

lemma get_upd:
  assumes "\<And>r. key (f r) = key r" and "distinct (map key t)"
  shows "get j (upd k f t) = (if j = k then map_option f (get j t) else get j t)"
proof (cases "get j t")
  case None
  then have "j \<notin> key ` set (upd k f t)"
    using assms(1) get_none by (auto simp: upd_map)
  then have "get j (upd k f t) = None" using get_none by blast
  with None show ?thesis by auto
next
  case (Some r)
  then have r: "r \<in> set t" "key r = j" using get_sound by blast+
  let ?r = "if key r = k then f r else r"
  have "?r \<in> set (upd k f t)" using r(1) by (auto simp: upd_map)
  moreover have "key ?r = j" using r(2) assms(1) by simp
  moreover have "distinct (map key (upd k f t))"
    using assms upd_keys [of f k t] by simp
  ultimately have "get j (upd k f t) = Some ?r"
    using get_eq_iff by blast
  with Some r(2) show ?thesis by auto
qed

end

text \<open>The model's tables implement the interface, whatever the key.\<close>

lemma keyed_table_rows: "keyed_table key (row_get key) (row_insert key) (row_update key)"
proof
  fix k t r t' f
  show "row_get key k t = Some r \<Longrightarrow> r \<in> set t \<and> key r = k"
    by (auto simp: row_get_def find_Some_iff)
  show "row_get key k t = None \<longleftrightarrow> k \<notin> key ` set t"
    by (auto simp: row_get_def find_None_iff)
  show "row_insert key r t = None \<longleftrightarrow> key r \<in> key ` set t"
    by (simp add: row_insert_def)
  show "row_insert key r t = Some t' \<Longrightarrow> t' = t @ [r] \<and> key r \<notin> key ` set t"
    by (auto simp: row_insert_def split: if_splits)
  show "row_update key k f t = map (\<lambda>r. if key r = k then f r else r) t"
    by (simp add: row_update_def)
qed

section \<open>Queries with an ORDER BY\<close>

text \<open>
  \<^verbatim>\<open>order_by(t.desc()).first()\<close>. SQL leaves the order of equal timestamps open; here the row
  inserted first wins. \<^verbatim>\<open>order_by(t.asc())\<close> is HOL's stable \<^verbatim>\<open>sort_key\<close>.
\<close>

fun latest :: "('r \<Rightarrow> int) \<Rightarrow> 'r list \<Rightarrow> 'r option" where
  "latest t [] = None"
| "latest t (r # rs) =
     (case latest t rs of None \<Rightarrow> Some r | Some m \<Rightarrow> if t r < t m then Some m else Some r)"

lemma latest_None [simp]: "latest t rs = None \<longleftrightarrow> rs = []"
  by (cases rs) (auto split: option.splits)

lemma latest_Some: "latest t rs = Some m \<Longrightarrow> m \<in> set rs \<and> (\<forall>r\<in>set rs. t r \<le> t m)"
  by (induction rs arbitrary: m) (force split: option.splits if_splits)+

lemma latest_snoc: "\<forall>r\<in>set rs. t r < t x \<Longrightarrow> latest t (rs @ [x]) = Some x"
  by (induction rs) auto

lemma sort_key_sorted: "sorted (map t rs) \<Longrightarrow> sort_key t rs = rs"
  by (rule sort_key_id_if_sorted)

end
