(* ===== verification/Json.thy ===== *)
theory Json
  imports Prelude
begin

text \<open>
  JSON values and the serialization every hash of the program is taken over:
  \<^verbatim>\<open>json.dumps(payload, sort_keys=True, separators=(",", ":"), ensure_ascii=False)\<close> followed by
  \<^verbatim>\<open>.encode("utf-8")\<close> (app/canonical/hashing.py). The main result is that the bytes determine the
  value up to the order of the keys of its objects: two payloads with the same bytes have the
  same normal form. Numbers are integers: the amounts and counts of the program.
\<close>

section \<open>Values\<close>

datatype json =
    JNull
  | JBool bool
  | JInt int
  | JStr string
  | JList "json list"
  | JObj "(string \<times> json) list"

text \<open>\<^verbatim>\<open>sort_keys=True\<close>: the items of every object, at every depth, by key.\<close>

fun sort_keys :: "json \<Rightarrow> json"
  and sort_keys_items :: "json list \<Rightarrow> json list"
  and sort_keys_members :: "(string \<times> json) list \<Rightarrow> (string \<times> json) list" where
  "sort_keys (JObj kvs) = JObj (sort_key fst (sort_keys_members kvs))"
| "sort_keys (JList xs) = JList (sort_keys_items xs)"
| "sort_keys JNull = JNull"
| "sort_keys (JBool b) = JBool b"
| "sort_keys (JInt i) = JInt i"
| "sort_keys (JStr s) = JStr s"
| "sort_keys_items [] = []"
| "sort_keys_items (x # xs) = sort_keys x # sort_keys_items xs"
| "sort_keys_members [] = []"
| "sort_keys_members ((k, v) # kvs) = (k, sort_keys v) # sort_keys_members kvs"

section \<open>Text\<close>

text \<open>
  The escapes of \<^verbatim>\<open>json.dumps\<close> with \<^verbatim>\<open>ensure_ascii=False\<close>: the quote, the backslash and the
  control characters below U+0020, five of them by a letter, the others as \<^verbatim>\<open>\u00xx\<close>.
\<close>

definition hex_digit :: "nat \<Rightarrow> char" where
  "hex_digit n = (if n < 10 then char_of (48 + n) else char_of (87 + n))"

definition escape_char :: "char \<Rightarrow> string" where
  "escape_char c =
     (if c = CHR 0x22 then [CHR 0x5C, CHR 0x22]
      else if c = CHR 0x5C then [CHR 0x5C, CHR 0x5C]
      else if c = CHR 0x08 then [CHR 0x5C, CHR ''b'']
      else if c = CHR 0x0C then [CHR 0x5C, CHR ''f'']
      else if c = CHR 0x0A then [CHR 0x5C, CHR ''n'']
      else if c = CHR 0x0D then [CHR 0x5C, CHR ''r'']
      else if c = CHR 0x09 then [CHR 0x5C, CHR ''t'']
      else if of_char c < (32::nat) then
        [CHR 0x5C, CHR ''u'', CHR ''0'', CHR ''0'',
         hex_digit (of_char c div 16), hex_digit (of_char c mod 16)]
      else [c])"

definition quote :: "string \<Rightarrow> string" where
  "quote s = CHR 0x22 # concat (map escape_char s) @ [CHR 0x22]"

fun render :: "json \<Rightarrow> string"
  and render_items :: "json list \<Rightarrow> string"
  and render_members :: "(string \<times> json) list \<Rightarrow> string" where
  "render JNull = ''null''"
| "render (JBool b) = (if b then ''true'' else ''false'')"
| "render (JInt i) = show_int i"
| "render (JStr s) = quote s"
| "render (JList xs) = CHR ''['' # render_items xs @ '']''"
| "render (JObj kvs) = CHR ''{'' # render_members kvs @ ''}''"
| "render_items [] = ''''"
| "render_items (x # xs) = render x @ (if xs = [] then '''' else CHR '','' # render_items xs)"
| "render_members [] = ''''"
| "render_members ((k, v) # kvs) =
     quote k @ CHR '':'' # render v @ (if kvs = [] then '''' else CHR '','' # render_members kvs)"

definition dumps :: "json \<Rightarrow> string" where
  "dumps v = render (sort_keys v)"

text \<open>\<^verbatim>\<open>encode("utf-8")\<close>: one byte below U+0080, two bytes from there on.\<close>

definition utf8_char :: "char \<Rightarrow> bytes" where
  "utf8_char c =
     (let n = of_char c :: nat
      in if n < 128 then [c] else [char_of (192 + n div 64), char_of (128 + n mod 64)])"

definition utf8 :: "string \<Rightarrow> bytes" where
  "utf8 s = concat (map utf8_char s)"

text \<open>\<^verbatim>\<open>encode("ascii")\<close> raises \<^verbatim>\<open>UnicodeEncodeError\<close> on anything else.\<close>

definition ascii :: "string \<Rightarrow> bytes option" where
  "ascii s = (if list_all (\<lambda>c. (of_char c :: nat) < 128) s then Some s else None)"

section \<open>The text determines the value\<close>

text \<open>
  Every escape can be read back, so quoted strings end where their closing quote is. A rendered
  value followed by a delimiter is then a prefix code: the mutual induction of
  \<^verbatim>\<open>render_inject\<close> follows the serializer.
\<close>

definition unhex :: "char \<Rightarrow> nat" where
  "unhex c = (let n = of_char c in if n < 58 then n - 48 else n - 87)"

definition unescape :: "string \<Rightarrow> (char \<times> string) option" where
  "unescape s = (case s of
     [] \<Rightarrow> None
   | x # xs \<Rightarrow>
       if x = CHR 0x5C then
         (case xs of
            y # ys \<Rightarrow>
              if y = CHR ''b'' then Some (CHR 0x08, ys)
              else if y = CHR ''f'' then Some (CHR 0x0C, ys)
              else if y = CHR ''n'' then Some (CHR 0x0A, ys)
              else if y = CHR ''r'' then Some (CHR 0x0D, ys)
              else if y = CHR ''t'' then Some (CHR 0x09, ys)
              else if y = CHR ''u'' then
                (case ys of a # b # h # l # zs \<Rightarrow> Some (char_of (16 * unhex h + unhex l), zs) | _ \<Rightarrow> None)
              else Some (y, ys)
          | [] \<Rightarrow> None)
       else Some (x, xs))"

lemma unhex_hex_digit: "n < 16 \<Longrightarrow> unhex (hex_digit n) = n"
  by (auto simp: unhex_def hex_digit_def Let_def)

lemma unescape_escape: "unescape (escape_char c @ r) = Some (c, r)"
proof (cases "of_char c < (32::nat)")
  case True
  then have "16 * unhex (hex_digit (of_char c div 16)) + unhex (hex_digit (of_char c mod 16)) = (of_char c :: nat)"
    by (simp add: unhex_hex_digit)
  then show ?thesis by (simp add: unescape_def escape_char_def)
next
  case False
  then show ?thesis by (simp add: unescape_def escape_char_def)
qed

lemma escape_char_inject: "escape_char c @ r = escape_char d @ s \<longleftrightarrow> c = d \<and> r = s"
  by (metis unescape_escape option.inject prod.inject)

lemma escape_char_nonempty: "escape_char c \<noteq> []" "hd (escape_char c) \<noteq> CHR 0x22"
  by (auto simp: escape_char_def)

lemma escaped_inject:
  "concat (map escape_char s) @ CHR 0x22 # r = concat (map escape_char t) @ CHR 0x22 # r'
   \<longleftrightarrow> s = t \<and> r = r'"
proof (induction s arbitrary: t)
  case Nil
  have "escape_char c @ xs \<noteq> CHR 0x22 # r" for c xs
    using escape_char_nonempty [of c] by (cases "escape_char c") auto
  then show ?case by (cases t) (auto, metis)
next
  case (Cons c s)
  have ne: "escape_char c @ xs \<noteq> CHR 0x22 # r'" for xs
    using escape_char_nonempty [of c] by (cases "escape_char c") auto
  show ?case
    by (cases t) (use ne Cons.IH in \<open>auto simp: escape_char_inject\<close>)
qed

lemma quote_inject: "quote s @ r = quote t @ r' \<longleftrightarrow> s = t \<and> r = r'"
  by (simp add: quote_def escaped_inject)

lemma quote_hd: "quote s = CHR 0x22 # tl (quote s)"
  by (simp add: quote_def)

definition at_delimiter :: "string \<Rightarrow> bool" where
  "at_delimiter r = (r = [] \<or> hd r \<in> {CHR '','', CHR '']'', CHR ''}''})"

lemma at_delimiter_simps [simp]:
  "at_delimiter []" "at_delimiter (CHR '','' # r)" "at_delimiter (CHR '']'' # r)" "at_delimiter (CHR ''}'' # r)"
  by (simp_all add: at_delimiter_def)

lemma show_int_inject:
  assumes "show_int i @ r = show_int j @ s" and "at_delimiter r" and "at_delimiter s"
  shows "i = j \<and> r = s"
proof -
  have nd: "t = [] \<or> \<not> is_digit (hd t)" if "at_delimiter t" for t
    using that by (auto simp: at_delimiter_def is_digit_def)
  have nat: "m = n \<and> r = s" if "show_nat m @ r = show_nat n @ s" for m n
    using split_at_first [OF that, of is_digit] show_nat_digits nd assms(2,3) by auto
  have minus: "show_nat m @ r \<noteq> CHR ''-'' # t" for m r t
  proof
    assume "show_nat m @ r = CHR ''-'' # t"
    then have "CHR ''-'' \<in> set (show_nat m)"
      using show_nat_nonempty [of m] by (cases "show_nat m") auto
    from show_nat_digits [OF this] show False by (simp add: is_digit_def)
  qed
  show ?thesis
    using assms(1) minus minus [symmetric]
    by (auto simp: show_int_def nat_eq_iff dest!: nat split: if_splits)
qed

text \<open>The first character of a rendered value tells its constructor.\<close>

fun kind_of :: "json \<Rightarrow> nat" where
  "kind_of JNull = 0"
| "kind_of (JBool b) = (if b then 1 else 2)"
| "kind_of (JInt i) = 3"
| "kind_of (JStr s) = 4"
| "kind_of (JList xs) = 5"
| "kind_of (JObj kvs) = 6"

definition kind_of_char :: "char \<Rightarrow> nat" where
  "kind_of_char c =
     (if c = CHR ''-'' \<or> is_digit c then 3 else if c = CHR ''n'' then 0 else if c = CHR ''t'' then 1
      else if c = CHR ''f'' then 2 else if c = CHR 0x22 then 4 else if c = CHR ''['' then 5
      else if c = CHR ''{'' then 6 else 7)"

lemma kind_of_char_simps [simp]:
  "kind_of_char CHR ''n'' = 0" "kind_of_char CHR ''t'' = 1" "kind_of_char CHR ''f'' = 2"
  "kind_of_char CHR 0x22 = 4" "kind_of_char CHR ''['' = 5" "kind_of_char CHR ''{'' = 6"
  "kind_of_char CHR '']'' = 7" "kind_of_char CHR ''}'' = 7"
  by (simp_all add: kind_of_char_def is_digit_def)

lemma show_nat_first: "\<exists>c cs. show_nat n = c # cs \<and> is_digit c"
  using show_nat_nonempty [of n] show_nat_digits [of _ n] by (cases "show_nat n") auto

lemma show_int_first: "\<exists>c cs. show_int i = c # cs \<and> kind_of_char c = 3"
proof -
  obtain c cs where "show_nat (nat i) = c # cs" "is_digit c" using show_nat_first by blast
  then show ?thesis by (cases "i < 0") (simp_all add: show_int_def kind_of_char_def)
qed

lemma render_first: "\<exists>c cs. render v = c # cs \<and> kind_of_char c = kind_of v"
  using show_int_first by (cases v) (auto simp: quote_def)

lemma render_nonempty [simp]: "render v \<noteq> []"
  using render_first [of v] by auto

lemma render_kind: "render v @ r = render w @ s \<Longrightarrow> kind_of v = kind_of w"
  using render_first [of v] render_first [of w] by auto

lemma kind_of_iff:
  "kind_of v = 0 \<longleftrightarrow> v = JNull" "kind_of v = Suc 0 \<longleftrightarrow> v = JBool True" "kind_of v = 2 \<longleftrightarrow> v = JBool False"
  "kind_of v = 3 \<longleftrightarrow> (\<exists>i. v = JInt i)" "kind_of v = 4 \<longleftrightarrow> (\<exists>s. v = JStr s)"
  "kind_of v = 5 \<longleftrightarrow> (\<exists>xs. v = JList xs)" "kind_of v = 6 \<longleftrightarrow> (\<exists>kvs. v = JObj kvs)"
  by (cases v; simp)+

lemma kind_of_bound: "kind_of v < 7"
  by (cases v) auto

lemma render_items_end: "render_items xs @ CHR '']'' # r = CHR '']'' # s \<longleftrightarrow> xs = [] \<and> r = s"
proof (cases xs)
  case (Cons x xs')
  then show ?thesis using render_first [of x] kind_of_bound [of x] by auto
qed auto

lemma render_members_end: "render_members kvs @ CHR ''}'' # r = CHR ''}'' # s \<longleftrightarrow> kvs = [] \<and> r = s"
  by (cases kvs) (auto simp: quote_def)

lemma render_inject:
  "render v @ r = render w @ s \<Longrightarrow> at_delimiter r \<Longrightarrow> at_delimiter s \<Longrightarrow> v = w \<and> r = s"
  "render_items xs @ CHR '']'' # r = render_items ys @ CHR '']'' # s \<Longrightarrow> xs = ys \<and> r = s"
  "render_members kvs @ CHR ''}'' # r = render_members lvs @ CHR ''}'' # s \<Longrightarrow> kvs = lvs \<and> r = s"
proof (induction v and xs and kvs arbitrary: w r s and ys r s and lvs r s
    rule: render_render_items_render_members.induct)
  case 1
  from render_kind [OF "1.prems"(1), symmetric] have "w = JNull" by (simp add: kind_of_iff)
  with "1.prems"(1) show ?case by simp
next
  case (2 b)
  from render_kind [OF "2.prems"(1), symmetric] have "w = JBool b"
    by (cases b) (simp_all add: kind_of_iff)
  with "2.prems"(1) show ?case by simp
next
  case (3 i)
  from render_kind [OF "3.prems"(1), symmetric] obtain j where w: "w = JInt j" by (auto simp: kind_of_iff)
  with "3.prems" show ?case using show_int_inject [of i r j s] by simp
next
  case (4 t)
  from render_kind [OF "4.prems"(1), symmetric] obtain t' where "w = JStr t'" by (auto simp: kind_of_iff)
  with "4.prems"(1) show ?case by (simp add: quote_inject)
next
  case (5 xs)
  from render_kind [OF "5.prems"(1), symmetric] obtain ys where w: "w = JList ys" by (auto simp: kind_of_iff)
  with "5.prems"(1) have "render_items xs @ CHR '']'' # r = render_items ys @ CHR '']'' # s" by simp
  from "5.IH" [OF this] w show ?case by simp
next
  case (6 kvs)
  from render_kind [OF "6.prems"(1), symmetric] obtain lvs where w: "w = JObj lvs" by (auto simp: kind_of_iff)
  with "6.prems"(1) have "render_members kvs @ CHR ''}'' # r = render_members lvs @ CHR ''}'' # s" by simp
  from "6.IH" [OF this] w show ?case by simp
next
  case 7
  then show ?case using render_items_end [of ys s r] by auto
next
  case (8 x xs)
  obtain y ys' where ys: "ys = y # ys'"
    using "8.prems" render_items_end [of "x # xs" r s] by (cases ys) auto
  let ?t = "\<lambda>zs r. (if zs = [] then [] else CHR '','' # render_items zs) @ CHR '']'' # r"
  have "x = y \<and> ?t xs r = ?t ys' s"
    by (rule "8.IH"(1)) (use "8.prems" ys in \<open>auto split: if_splits\<close>)
  then show ?case using "8.IH"(2) [of r ys' s] ys by (auto split: if_splits)
next
  case 9
  then show ?case using render_members_end [of lvs s r] by auto
next
  case (10 k v kvs)
  obtain l w lvs' where lvs: "lvs = (l, w) # lvs'"
    using "10.prems" render_members_end [of "(k, v) # kvs" r s] by (cases lvs) auto
  let ?t = "\<lambda>zs r. (if zs = [] then [] else CHR '','' # render_members zs) @ CHR ''}'' # r"
  have kv: "k = l" "render v @ ?t kvs r = render w @ ?t lvs' s"
    using "10.prems" lvs by (auto simp: quote_inject split: if_splits)
  have "v = w \<and> ?t kvs r = ?t lvs' s"
    by (rule "10.IH"(1) [OF kv(2)]) (auto split: if_splits)
  then show ?case using "10.IH"(2) [of r lvs' s] lvs kv(1) by (auto split: if_splits)
qed

lemma dumps_inject: "dumps v = dumps w \<longleftrightarrow> sort_keys v = sort_keys w"
  using render_inject(1) [of "sort_keys v" "[]" "sort_keys w" "[]"] by (auto simp: dumps_def)

lemma of_char_bound: "of_char (c :: char) < (256::nat)"
  by (cases c) (simp add: of_char_def)

text \<open>The encoding loses nothing either.\<close>

definition utf8_decode :: "bytes \<Rightarrow> (char \<times> bytes) option" where
  "utf8_decode bs = (case bs of
     [] \<Rightarrow> None
   | x # xs \<Rightarrow>
       if of_char x < (128::nat) then Some (x, xs)
       else (case xs of [] \<Rightarrow> None
             | y # ys \<Rightarrow> Some (char_of ((of_char x - 192) * 64 + (of_char y - 128) :: nat), ys)))"

lemma utf8_decode_char: "utf8_decode (utf8_char c @ r) = Some (c, r)"
proof (cases "of_char c < (128::nat)")
  case True
  then show ?thesis by (simp add: utf8_decode_def utf8_char_def)
next
  case False
  define n where "n = (of_char c :: nat)"
  have n: "n < 256" unfolding n_def by (rule of_char_bound)
  then have "n div 64 < 64" "n mod 64 < 64" by auto
  then have "(192 + n div 64) mod 256 - 192 = n div 64" "(128 + n mod 64) mod 256 - 128 = n mod 64"
    "\<not> (192 + n div 64) mod 256 < 128"
    by auto
  then have "utf8_decode (utf8_char c @ r) = Some (char_of (n div 64 * 64 + n mod 64), r)"
    using False by (simp add: utf8_decode_def utf8_char_def Let_def n_def)
  also have "n div 64 * 64 + n mod 64 = n" by simp
  finally show ?thesis by (simp add: n_def)
qed

lemma utf8_char_inject: "utf8_char c @ r = utf8_char d @ s \<longleftrightarrow> c = d \<and> r = s"
  by (metis utf8_decode_char option.inject prod.inject)

lemma utf8_char_nonempty: "utf8_char c \<noteq> []"
  by (simp add: utf8_char_def Let_def)

lemma utf8_inject: "utf8 s = utf8 t \<longleftrightarrow> s = t"
proof
  show "utf8 s = utf8 t \<Longrightarrow> s = t"
  proof (induction s arbitrary: t)
    case Nil
    then show ?case by (cases t) (auto simp: utf8_def utf8_char_nonempty)
  next
    case (Cons c s)
    then show ?case
      by (cases t) (auto simp: utf8_def utf8_char_nonempty utf8_char_inject)
  qed
qed simp

text \<open>An object is determined by its members in any order: for objects with the same keys in the
  same order, as two dumps of one model class are, by the values alone.\<close>

lemma sort_keys_items_map [simp]: "sort_keys_items xs = map sort_keys xs"
  by (induction xs) auto

lemma sort_keys_members_map [simp]: "sort_keys_members kvs = map (\<lambda>(k, v). (k, sort_keys v)) kvs"
  by (induction kvs) auto

lemma map_of_sort_key:
  assumes "distinct (map fst kvs)"
  shows "map_of (sort_key fst kvs) = map_of kvs"
proof
  fix k
  have d: "distinct (map fst (sort_key fst kvs))"
    using assms by (simp add: distinct_map)
  show "map_of (sort_key fst kvs) k = map_of kvs k"
    using map_of_eq_Some_iff [OF assms, of k] map_of_eq_Some_iff [OF d, of k]
    by (metis not_None_eq set_sort)
qed

lemma sort_keys_members_eq:
  assumes "distinct (map fst kvs)" and "distinct (map fst lvs)"
    and "sort_keys (JObj kvs) = sort_keys (JObj lvs)"
  shows "map_option sort_keys (map_of kvs k) = map_option sort_keys (map_of lvs k)"
proof -
  let ?n = "map (\<lambda>(k, v). (k, sort_keys v))"
  have f: "map fst (?n zs) = map fst zs" for zs :: "(string \<times> json) list"
    by (induction zs) auto
  have "map_of (sort_key fst (?n kvs)) k = map_of (sort_key fst (?n lvs)) k"
    using assms(3) by simp
  moreover have "distinct (map fst (?n kvs))" "distinct (map fst (?n lvs))"
    using assms(1,2) f by (simp_all only:)
  ultimately have "map_of (?n kvs) k = map_of (?n lvs) k"
    by (simp only: map_of_sort_key)
  then show ?thesis by (simp add: map_of_map)
qed

lemma sort_keys_record:
  assumes "map fst kvs = map fst lvs" and "distinct (map fst kvs)"
  shows "sort_keys (JObj kvs) = sort_keys (JObj lvs) \<longleftrightarrow>
    map (sort_keys \<circ> snd) kvs = map (sort_keys \<circ> snd) lvs"
proof
  assume eq: "sort_keys (JObj kvs) = sort_keys (JObj lvs)"
  have len: "length kvs = length lvs" using assms(1) by (metis length_map)
  have d: "distinct (map fst lvs)" using assms by simp
  show "map (sort_keys \<circ> snd) kvs = map (sort_keys \<circ> snd) lvs"
  proof (rule nth_equalityI)
    fix i assume "i < length (map (sort_keys \<circ> snd) kvs)"
    then have i: "i < length kvs" "i < length lvs" using len by auto
    let ?k = "fst (kvs ! i)"
    have "?k = fst (lvs ! i)" using i assms(1) by (metis nth_map)
    then have "map_of kvs ?k = Some (snd (kvs ! i))" "map_of lvs ?k = Some (snd (lvs ! i))"
      using i assms(2) d by (auto simp: map_of_eq_Some_iff in_set_conv_nth)
        (metis prod.collapse)+
    then show "map (sort_keys \<circ> snd) kvs ! i = map (sort_keys \<circ> snd) lvs ! i"
      using sort_keys_members_eq [OF assms(2) d eq, of ?k] i by simp
  qed (simp add: len)
next
  assume "map (sort_keys \<circ> snd) kvs = map (sort_keys \<circ> snd) lvs"
  with assms(1) have "zip (map fst kvs) (map (sort_keys \<circ> snd) kvs) = zip (map fst lvs) (map (sort_keys \<circ> snd) lvs)"
    by simp
  moreover have "zip (map fst zs) (map (sort_keys \<circ> snd) zs) = map (\<lambda>(k, v). (k, sort_keys v)) zs"
    for zs :: "(string \<times> json) list"
    by (induction zs) auto
  ultimately have "map (\<lambda>(k, v). (k, sort_keys v)) kvs = map (\<lambda>(k, v). (k, sort_keys v)) lvs"
    by (simp only:)
  then show "sort_keys (JObj kvs) = sort_keys (JObj lvs)" by simp
qed

end
