(* ===== verification/Env.thy ===== *)
theory Env
  imports Json
begin

text \<open>
  What the program calls and does not contain: the hash and signature primitives, the clock,
  \<^verbatim>\<open>uuid4\<close>, the ISO 8601 text of \<^verbatim>\<open>datetime\<close>, \<^verbatim>\<open>json.loads\<close> and the payment provider. They are
  the fields of one record \<^verbatim>\<open>env\<close> that the definitions take as a parameter, so every theorem
  holds for whatever they compute; what a theorem relies on is a named hypothesis.
  The theory also has the exceptions and HTTP errors of the code as values.
\<close>

section \<open>Exceptions and HTTP errors\<close>

datatype exn =
    ValueError
  | TypeError
  | KeyError string
  | AttributeError
  | ValidationError
  | IntegrityError
  | StopIteration
  | NotImplementedError
  | OverflowError
  | StatementError
  | ProviderError

text \<open>The \<^verbatim>\<open>detail\<close> of an \<^verbatim>\<open>HTTPException\<close>: a text, or decision, reason and message.\<close>

datatype detail =
    Text string
  | Verdict string string string

datatype failure =
    HTTPException nat detail
  | Raised exn

section \<open>Points in time\<close>

text \<open>
  A \<^verbatim>\<open>datetime\<close> is its local microsecond count since 0001-01-01T00:00 and, when it is aware,
  its UTC offset. The clock returns aware UTC values, written as one integer. Comparing an
  aware with a naive value raises \<^verbatim>\<open>TypeError\<close>.
\<close>

record datetime =
  local_us :: int
  utc_offset :: "int option"

definition utc_datetime :: "int \<Rightarrow> datetime" where
  "utc_datetime t = \<lparr>local_us = t, utc_offset = Some 0\<rparr>"

fun dt_less :: "datetime \<Rightarrow> datetime \<Rightarrow> exn + bool" where
  "dt_less a b =
     (case (utc_offset a, utc_offset b) of
        (Some x, Some y) \<Rightarrow> Inr (local_us a - x < local_us b - y)
      | (None, None) \<Rightarrow> Inr (local_us a < local_us b)
      | _ \<Rightarrow> Inl TypeError)"

section \<open>The environment\<close>

text \<open>What the provider's order API returns for a created order.\<close>

record provider_order =
  po_id :: string
  po_amount :: int
  po_currency :: string
  po_status :: string

text \<open>
  \<^verbatim>\<open>clock n\<close> and \<^verbatim>\<open>uuid_hex n\<close> are what the n-th reading of the clock and the n-th \<^verbatim>\<open>uuid4().hex\<close>
  return; \<^verbatim>\<open>ed25519_verify\<close> takes the public key, the signature and the message. The ISO text
  functions read a timestamp (\<^verbatim>\<open>None\<close>: \<^verbatim>\<open>ValueError\<close>) and print a UTC instant, or the instant of a
  column as the database returns it (SQLite drops the offset). \<^verbatim>\<open>order_create\<close>
  is the n-th call of the live provider (\<^verbatim>\<open>None\<close>: the SDK raised). The \<^verbatim>\<open>validate\<close> functions
  are pydantic's conversions of a value to a \<^verbatim>\<open>str\<close>, \<^verbatim>\<open>int\<close> or \<^verbatim>\<open>bool\<close> field (\<^verbatim>\<open>None\<close>: a
  \<^verbatim>\<open>ValidationError\<close>).
\<close>

record env =
  sha256_hex :: "bytes \<Rightarrow> string"
  hmac_sha256_hex :: "bytes \<Rightarrow> bytes \<Rightarrow> string"
  ed25519_generate :: "nat \<Rightarrow> bytes"
  ed25519_public :: "bytes \<Rightarrow> bytes"
  ed25519_sign :: "bytes \<Rightarrow> bytes \<Rightarrow> bytes"
  ed25519_verify :: "bytes \<Rightarrow> bytes \<Rightarrow> bytes \<Rightarrow> bool"
  fromisoformat :: "string \<Rightarrow> datetime option"
  isoformat :: "int \<Rightarrow> string"
  stored_isoformat :: "int \<Rightarrow> string"
  json_loads :: "bytes \<Rightarrow> json option"
  clock :: "nat \<Rightarrow> int"
  uuid_hex :: "nat \<Rightarrow> string"
  order_create :: "nat \<Rightarrow> int \<Rightarrow> string \<Rightarrow> string \<Rightarrow> provider_order option"
  validate_str :: "json \<Rightarrow> string option"
  validate_int :: "json \<Rightarrow> int option"
  validate_bool :: "json \<Rightarrow> bool option"

text \<open>
  The documented law of Ed25519: a signature made with a private key verifies under its public
  key, and keys and signatures have 32 and 64 bytes.
\<close>

definition ed25519_lawful :: "env \<Rightarrow> bool" where
  "ed25519_lawful E \<longleftrightarrow>
     (\<forall>sk m. length sk = 32 \<longrightarrow>
        length (ed25519_public E sk) = 32 \<and> length (ed25519_sign E sk m) = 64 \<and>
        ed25519_verify E (ed25519_public E sk) (ed25519_sign E sk m) m) \<and>
     (\<forall>n. length (ed25519_generate E n) = 32)"

text \<open>Pydantic accepts a value that has the field's type already as it is.\<close>

definition validation_lawful :: "env \<Rightarrow> bool" where
  "validation_lawful E \<longleftrightarrow>
     (\<forall>s. validate_str E (JStr s) = Some s) \<and> (\<forall>i. validate_int E (JInt i) = Some i) \<and>
     (\<forall>b. validate_bool E (JBool b) = Some b)"

text \<open>The documented form of \<^verbatim>\<open>hexdigest()\<close> of SHA-256: 64 hexadecimal digits.\<close>

definition hex_digest :: "string \<Rightarrow> bool" where
  "hex_digest s \<longleftrightarrow> length s = 64 \<and>
     list_all (\<lambda>c. is_digit c \<or> (97 \<le> (of_char c :: nat) \<and> (of_char c :: nat) \<le> 102)) s"

definition digests_hex :: "env \<Rightarrow> bool" where
  "digests_hex E \<longleftrightarrow> (\<forall>b. hex_digest (sha256_hex E b))"

lemma hex_digest_no_colon: "hex_digest s \<Longrightarrow> CHR '':'' \<notin> set s"
  by (auto simp: hex_digest_def list_all_iff is_digit_def)

lemma hex_digest_ascii: "hex_digest s \<Longrightarrow> ascii s = Some s"
  by (auto simp: hex_digest_def ascii_def list_all_iff is_digit_def)

end
