(* ===== verification/Envelope.thy ===== *)
theory Envelope
  imports Env
begin

text \<open>
  The models of app/models/envelope.py: the Canonical Authorization Envelope with its scopes,
  the cart and the signed agent request, and what \<^verbatim>\<open>model_dump()\<close> makes of them. Records have the
  source's fields in the source's order. \<^verbatim>\<open>unsigned_dict_inject\<close> and \<^verbatim>\<open>cart_json_inject\<close> say
  that the dumped values determine the model, the fact every hash check rests on.
\<close>

section \<open>The envelope\<close>

record principal =
  user_id :: string
  identity_provider :: string

record agent =
  agent_id :: string
  provider :: string
  public_key :: string
  request_public_key :: "string option"
  trust_level :: string

record merchant_scope =
  merchant_ids :: "string list"
  merchant_categories :: "string list"

record product_scope =
  allowed_skus :: "string list"
  allowed_categories :: "string list"
  forbidden_skus :: "string list"
  substitutions_allowed :: bool

record financial_scope =
  currency :: string
  max_total :: int
  max_unit_price :: "int option"
  shipping_included :: bool
  tax_included :: bool
  tips_allowed :: bool

record quantity_scope =
  max_items :: int

record temporal_scope =
  issued_at :: string
  expires_at :: string

record execution_scope =
  max_transactions :: int
  reusable :: bool

record envelope =
  version :: string
  authorization_id :: string
  principal :: principal
  agent :: agent
  merchant_scope :: merchant_scope
  product_scope :: product_scope
  financial_scope :: financial_scope
  quantity_scope :: quantity_scope
  temporal_scope :: temporal_scope
  execution_scope :: execution_scope
  nonce :: string
  evidence_hash :: string
  signature :: "string option"

section \<open>The cart and the agent's request\<close>

record cart_item =
  sku :: string
  unit_price :: int
  quantity :: int
  category :: "string option"

record cart =
  merchant_id :: string
  items :: "cart_item list"
  shipping :: int
  tax :: int
  total :: int
  cart_currency :: string

record agent_request =
  req_authorization_id :: string
  req_nonce :: string
  req_agent_id :: string
  req_cart :: cart
  agent_signature :: "string option"

section \<open>model\_dump\<close>

definition json_opt :: "('a \<Rightarrow> json) \<Rightarrow> 'a option \<Rightarrow> json" where
  "json_opt f v = (case v of None \<Rightarrow> JNull | Some x \<Rightarrow> f x)"

definition json_strings :: "string list \<Rightarrow> json" where
  "json_strings xs = JList (map JStr xs)"

definition principal_json :: "principal \<Rightarrow> json" where
  "principal_json p = JObj
     [(''user_id'', JStr (user_id p)), (''identity_provider'', JStr (identity_provider p))]"

definition agent_json :: "agent \<Rightarrow> json" where
  "agent_json a = JObj
     [(''agent_id'', JStr (agent_id a)), (''provider'', JStr (provider a)),
      (''public_key'', JStr (public_key a)),
      (''request_public_key'', json_opt JStr (request_public_key a)),
      (''trust_level'', JStr (trust_level a))]"

definition merchant_json :: "merchant_scope \<Rightarrow> json" where
  "merchant_json m = JObj
     [(''merchant_ids'', json_strings (merchant_ids m)),
      (''merchant_categories'', json_strings (merchant_categories m))]"

definition product_json :: "product_scope \<Rightarrow> json" where
  "product_json p = JObj
     [(''allowed_skus'', json_strings (allowed_skus p)),
      (''allowed_categories'', json_strings (allowed_categories p)),
      (''forbidden_skus'', json_strings (forbidden_skus p)),
      (''substitutions_allowed'', JBool (substitutions_allowed p))]"

definition financial_json :: "financial_scope \<Rightarrow> json" where
  "financial_json f = JObj
     [(''currency'', JStr (currency f)), (''max_total'', JInt (max_total f)),
      (''max_unit_price'', json_opt JInt (max_unit_price f)),
      (''shipping_included'', JBool (shipping_included f)),
      (''tax_included'', JBool (tax_included f)), (''tips_allowed'', JBool (tips_allowed f))]"

definition quantity_json :: "quantity_scope \<Rightarrow> json" where
  "quantity_json q = JObj [(''max_items'', JInt (max_items q))]"

definition temporal_json :: "temporal_scope \<Rightarrow> json" where
  "temporal_json t = JObj
     [(''issued_at'', JStr (issued_at t)), (''expires_at'', JStr (expires_at t))]"

definition execution_json :: "execution_scope \<Rightarrow> json" where
  "execution_json x = JObj
     [(''max_transactions'', JInt (max_transactions x)), (''reusable'', JBool (reusable x))]"

text \<open>\<^verbatim>\<open>unsigned_dict\<close>: the dump without \<^verbatim>\<open>evidence_hash\<close> and \<^verbatim>\<open>signature\<close>.\<close>

definition unsigned_dict :: "envelope \<Rightarrow> (string \<times> json) list" where
  "unsigned_dict e =
     [(''version'', JStr (version e)), (''authorization_id'', JStr (authorization_id e)),
      (''principal'', principal_json (principal e)), (''agent'', agent_json (agent e)),
      (''merchant_scope'', merchant_json (merchant_scope e)),
      (''product_scope'', product_json (product_scope e)),
      (''financial_scope'', financial_json (financial_scope e)),
      (''quantity_scope'', quantity_json (quantity_scope e)),
      (''temporal_scope'', temporal_json (temporal_scope e)),
      (''execution_scope'', execution_json (execution_scope e)), (''nonce'', JStr (nonce e))]"

definition envelope_dump :: "envelope \<Rightarrow> (string \<times> json) list" where
  "envelope_dump e = unsigned_dict e @
     [(''evidence_hash'', JStr (evidence_hash e)), (''signature'', json_opt JStr (signature e))]"

definition item_json :: "cart_item \<Rightarrow> json" where
  "item_json i = JObj
     [(''sku'', JStr (sku i)), (''unit_price'', JInt (unit_price i)),
      (''quantity'', JInt (quantity i)), (''category'', json_opt JStr (category i))]"

definition cart_json :: "cart \<Rightarrow> json" where
  "cart_json c = JObj
     [(''merchant_id'', JStr (merchant_id c)), (''items'', JList (map item_json (items c))),
      (''shipping'', JInt (shipping c)), (''tax'', JInt (tax c)), (''total'', JInt (total c)),
      (''currency'', JStr (cart_currency c))]"

section \<open>The dump determines the model\<close>

lemma json_opt_inject:
  "(\<And>x y. f x = f y \<longleftrightarrow> x = y) \<Longrightarrow> (\<And>x. f x \<noteq> JNull) \<Longrightarrow> json_opt f v = json_opt f w \<longleftrightarrow> v = w"
  by (cases v; cases w) (auto simp: json_opt_def eq_commute [of JNull])

lemma sort_keys_json_opt [simp]: "sort_keys (json_opt JStr v) = json_opt JStr v"
  "sort_keys (json_opt JInt w) = json_opt JInt w"
  by (cases v; simp add: json_opt_def) (cases w; simp add: json_opt_def)

lemma json_opt_eq [simp]: "json_opt JStr v = json_opt JStr v' \<longleftrightarrow> v = v'"
  "json_opt JInt w = json_opt JInt w' \<longleftrightarrow> w = w'"
  by (simp_all add: json_opt_inject)

lemma sort_keys_json_strings [simp]: "sort_keys (json_strings xs) = json_strings xs"
  by (simp add: json_strings_def)

lemma json_strings_eq [simp]: "json_strings xs = json_strings ys \<longleftrightarrow> xs = ys"
  by (auto simp: json_strings_def inj_map_eq_map inj_def)

named_theorems dump_eqs \<open>a dump up to key order determines the model\<close>

lemma principal_json_eq [dump_eqs]:
  "sort_keys (principal_json p) = sort_keys (principal_json q) \<longleftrightarrow> p = q"
  unfolding principal_json_def by (subst sort_keys_record) (auto intro: principal.equality)

lemma agent_json_eq [dump_eqs]:
  "sort_keys (agent_json p) = sort_keys (agent_json q) \<longleftrightarrow> p = q"
  unfolding agent_json_def by (subst sort_keys_record) (auto intro: agent.equality)

lemma merchant_json_eq [dump_eqs]:
  "sort_keys (merchant_json p) = sort_keys (merchant_json q) \<longleftrightarrow> p = q"
  unfolding merchant_json_def by (subst sort_keys_record) (auto intro: merchant_scope.equality)

lemma product_json_eq [dump_eqs]:
  "sort_keys (product_json p) = sort_keys (product_json q) \<longleftrightarrow> p = q"
  unfolding product_json_def by (subst sort_keys_record) (auto intro: product_scope.equality)

lemma financial_json_eq [dump_eqs]:
  "sort_keys (financial_json p) = sort_keys (financial_json q) \<longleftrightarrow> p = q"
  unfolding financial_json_def by (subst sort_keys_record) (auto intro: financial_scope.equality)

lemma quantity_json_eq [dump_eqs]:
  "sort_keys (quantity_json p) = sort_keys (quantity_json q) \<longleftrightarrow> p = q"
  unfolding quantity_json_def by (subst sort_keys_record) (auto intro: quantity_scope.equality)

lemma temporal_json_eq [dump_eqs]:
  "sort_keys (temporal_json p) = sort_keys (temporal_json q) \<longleftrightarrow> p = q"
  unfolding temporal_json_def by (subst sort_keys_record) (auto intro: temporal_scope.equality)

lemma execution_json_eq [dump_eqs]:
  "sort_keys (execution_json p) = sort_keys (execution_json q) \<longleftrightarrow> p = q"
  unfolding execution_json_def by (subst sort_keys_record) (auto intro: execution_scope.equality)

lemma item_json_eq [dump_eqs]:
  "sort_keys (item_json p) = sort_keys (item_json q) \<longleftrightarrow> p = q"
  unfolding item_json_def by (subst sort_keys_record) (auto intro: cart_item.equality)

text \<open>Two envelopes with the same terms: they differ at most in hash and signature.\<close>

definition same_terms :: "envelope \<Rightarrow> envelope \<Rightarrow> bool" where
  "same_terms e f \<longleftrightarrow>
     e\<lparr>evidence_hash := [], signature := None\<rparr> = f\<lparr>evidence_hash := [], signature := None\<rparr>"

lemma unsigned_dict_inject:
  "sort_keys (JObj (unsigned_dict e)) = sort_keys (JObj (unsigned_dict f)) \<longleftrightarrow> same_terms e f"
proof -
  have "sort_keys (JObj (unsigned_dict e)) = sort_keys (JObj (unsigned_dict f)) \<longleftrightarrow>
      map (sort_keys \<circ> snd) (unsigned_dict e) = map (sort_keys \<circ> snd) (unsigned_dict f)"
    by (rule sort_keys_record) (simp_all add: unsigned_dict_def)
  also have "\<dots> \<longleftrightarrow> same_terms e f"
    by (cases e; cases f) (auto simp: unsigned_dict_def dump_eqs same_terms_def)
  finally show ?thesis .
qed

lemma cart_json_inject:
  "sort_keys (cart_json c) = sort_keys (cart_json d) \<longleftrightarrow> c = d"
proof -
  have items: "map (\<lambda>x. sort_keys (item_json x)) xs = map (\<lambda>x. sort_keys (item_json x)) ys \<longleftrightarrow> xs = ys"
    for xs ys by (rule inj_map_eq_map) (simp add: inj_def dump_eqs)
  show ?thesis
    unfolding cart_json_def
    by (subst sort_keys_record) (auto simp: items comp_def intro: cart.equality)
qed

end
