(* ===== verification/Base64.thy ===== *)
theory Base64
  imports Prelude
begin

text \<open>
  The standard library's \<^verbatim>\<open>base64.b64encode\<close> and \<^verbatim>\<open>base64.b64decode\<close>, which carry every key and
  signature of app/crypto/signature.py. The decoder is the character loop of
  \<^verbatim>\<open>binascii.a2b_base64\<close> with its strict mode (\<^verbatim>\<open>validate=True\<close>), which rejects any character
  outside the alphabet, data after the padding and padding where no group is open. The main
  result is the round trip.
\<close>

definition b64_char :: "nat \<Rightarrow> char" where
  "b64_char n =
     char_of (if n < 26 then 65 + n else if n < 52 then 71 + n else if n < 62 then n - 4
              else if n = 62 then 43 else 47)"

definition sextet :: "char \<Rightarrow> nat option" where
  "sextet c = (let n = of_char c in
     if 65 \<le> n \<and> n \<le> 90 then Some (n - 65)
     else if 97 \<le> n \<and> n \<le> 122 then Some (n - 71)
     else if 48 \<le> n \<and> n \<le> 57 then Some (n + 4)
     else if n = 43 then Some 62 else if n = 47 then Some 63 else None)"

definition byte :: "char \<Rightarrow> nat" where
  "byte c = of_char c"

fun b64encode :: "bytes \<Rightarrow> string" where
  "b64encode [] = []"
| "b64encode [a] =
     [b64_char (byte a div 4), b64_char (byte a mod 4 * 16), CHR ''='', CHR ''='']"
| "b64encode [a, b] =
     [b64_char (byte a div 4), b64_char (byte a mod 4 * 16 + byte b div 16),
      b64_char (byte b mod 16 * 4), CHR ''='']"
| "b64encode (a # b # c # r) =
     b64_char (byte a div 4) # b64_char (byte a mod 4 * 16 + byte b div 16)
     # b64_char (byte b mod 16 * 4 + byte c div 64) # b64_char (byte c mod 64) # b64encode r"

text \<open>
  \<^verbatim>\<open>q\<close> is the position in the group of four, \<^verbatim>\<open>left\<close> the bits carried over, \<^verbatim>\<open>pads\<close> the padding
  characters seen and \<^verbatim>\<open>started\<close> whether padding has begun.
\<close>

fun b64_loop :: "bool \<Rightarrow> nat \<Rightarrow> nat \<Rightarrow> nat \<Rightarrow> bool \<Rightarrow> string \<Rightarrow> bytes option" where
  "b64_loop strict q left pads started [] = (if q = 0 then Some [] else None)"
| "b64_loop strict q left pads started (c # cs) =
     (if c = CHR ''='' then
        if strict \<and> q = 0 then None
        else if 2 \<le> q \<and> 4 \<le> q + Suc pads then if strict \<and> cs \<noteq> [] then None else Some []
        else b64_loop strict q left (if 2 \<le> q then Suc pads else pads) True cs
      else case sextet c of
        None \<Rightarrow> if strict then None else b64_loop strict q left pads started cs
      | Some v \<Rightarrow>
          if strict \<and> started then None
          else if q = 0 then b64_loop strict 1 v 0 started cs
          else if q = 1 then
            map_option ((#) (char_of (left * 4 + v div 16))) (b64_loop strict 2 (v mod 16) 0 started cs)
          else if q = 2 then
            map_option ((#) (char_of (left * 16 + v div 4))) (b64_loop strict 3 (v mod 4) 0 started cs)
          else map_option ((#) (char_of (left * 64 + v))) (b64_loop strict 0 0 0 started cs))"

text \<open>\<^verbatim>\<open>b64decode(s, validate=strict)\<close> on a \<^verbatim>\<open>str\<close>; \<^verbatim>\<open>None\<close> is a \<^verbatim>\<open>ValueError\<close>.\<close>

definition b64decode :: "bool \<Rightarrow> string \<Rightarrow> bytes option" where
  "b64decode strict s =
     (if list_all (\<lambda>c. (of_char c :: nat) < 128) s then b64_loop strict 0 0 0 False s else None)"

section \<open>Round trip\<close>

lemma byte_bound: "byte c < 256"
  by (cases c) (simp add: byte_def of_char_def)

lemma char_of_byte: "char_of (byte c) = c"
  by (simp add: byte_def)

lemma sextet_b64_char: "n < 64 \<Longrightarrow> sextet (b64_char n) = Some n"
  by (auto simp: sextet_def b64_char_def Let_def)

lemma b64_char_ascii: "n < 64 \<Longrightarrow> (of_char (b64_char n) :: nat) < 128"
  by (auto simp: b64_char_def)

lemma b64_char_no_pad: "n < 64 \<Longrightarrow> b64_char n \<noteq> CHR ''=''"
  using sextet_b64_char [of n] by (auto simp: sextet_def)

lemma b64_loop_data:
  assumes "n < 64"
  shows "b64_loop strict q left pads False (b64_char n # cs) =
    (if q = 0 then b64_loop strict 1 n 0 False cs
     else if q = 1 then map_option ((#) (char_of (left * 4 + n div 16))) (b64_loop strict 2 (n mod 16) 0 False cs)
     else if q = 2 then map_option ((#) (char_of (left * 16 + n div 4))) (b64_loop strict 3 (n mod 4) 0 False cs)
     else map_option ((#) (char_of (left * 64 + n))) (b64_loop strict 0 0 0 False cs))"
  using assms by (simp add: b64_char_no_pad sextet_b64_char)

text \<open>The sextets of a group of bytes, and the bytes back from them.\<close>

lemma div_bound: "(x::nat) < 256 \<Longrightarrow> x div 4 < 64" "(x::nat) < 256 \<Longrightarrow> x div 16 < 16"
  "(x::nat) < 256 \<Longrightarrow> x div 64 < 4"
  by auto

lemma sextet_bounds:
  shows "byte a div 4 < 64" and "byte a mod 4 * 16 < 64"
    and "byte a mod 4 * 16 + byte b div 16 < 64"
    and "byte b mod 16 * 4 < 64" and "byte b mod 16 * 4 + byte c div 64 < 64"
    and "byte c mod 64 < 64"
proof -
  show "byte a mod 4 * 16 + byte b div 16 < 64"
    using div_bound(2) [OF byte_bound [of b]] mod_less_divisor [of 4 "byte a"] by linarith
  show "byte b mod 16 * 4 + byte c div 64 < 64"
    using div_bound(3) [OF byte_bound [of c]] mod_less_divisor [of 16 "byte b"] by linarith
  show "byte a mod 4 * 16 < 64" "byte b mod 16 * 4 < 64"
    using mod_less_divisor [of 4 "byte a"] mod_less_divisor [of 16 "byte b"] by linarith+
qed (simp_all add: div_bound byte_bound)

lemma carry_high: "(y::nat) < 16 \<Longrightarrow> x div 4 * 4 + (x mod 4 * 16 + y) div 16 = x"
  by (simp add: div_add1_eq)

lemma carry_mid: "(y::nat) < 256 \<Longrightarrow> z < 4 \<Longrightarrow>
  (x mod 4 * 16 + y div 16) mod 16 * 16 + (y mod 16 * 4 + z) div 4 = y"
  using mod_add_self2 by (simp add: div_bound)

lemma carry_low: "(z::nat) < 256 \<Longrightarrow> (y mod 16 * 4 + z div 64) mod 4 * 64 + z mod 64 = z"
  by (simp add: div_bound)

lemma b64_group:
  assumes "s0 < 64" "s1 < 64" "s2 < 64" "s3 < 64"
  shows "b64_loop strict 0 0 0 False (b64_char s0 # b64_char s1 # b64_char s2 # b64_char s3 # cs) =
    map_option (\<lambda>r. char_of (s0 * 4 + s1 div 16) # char_of (s1 mod 16 * 16 + s2 div 4)
                     # char_of (s2 mod 4 * 64 + s3) # r) (b64_loop strict 0 0 0 False cs)"
  by (simp only: b64_loop_data assms) (simp add: option.map_comp comp_def)

lemma b64_group_2:
  assumes "s0 < 64" "s1 < 64" "s2 < 64"
  shows "b64_loop strict 0 0 0 False [b64_char s0, b64_char s1, b64_char s2, CHR ''=''] =
    Some [char_of (s0 * 4 + s1 div 16), char_of (s1 mod 16 * 16 + s2 div 4)]"
  by (simp only: b64_loop_data assms) simp

lemma b64_group_1:
  assumes "s0 < 64" "s1 < 64"
  shows "b64_loop strict 0 0 0 False [b64_char s0, b64_char s1, CHR ''='', CHR ''=''] =
    Some [char_of (s0 * 4 + s1 div 16)]"
  by (simp only: b64_loop_data assms) simp

lemma b64_loop_encode: "b64_loop strict 0 0 0 False (b64encode bs) = Some bs"
proof (induction bs rule: b64encode.induct)
  case 1
  then show ?case by simp
next
  case (2 a)
  show ?case
    using carry_high [of 0 "byte a"]
    by (simp only: b64encode.simps b64_group_1 sextet_bounds add_0_right char_of_byte)
next
  case (3 a b)
  show ?case
    using carry_high [of "byte b div 16" "byte a"] carry_mid [of "byte b" 0 "byte a"]
    by (simp only: b64encode.simps b64_group_2 sextet_bounds add_0_right char_of_byte
        byte_bound div_bound)
next
  case (4 a b c r)
  have "byte a div 4 * 4 + (byte a mod 4 * 16 + byte b div 16) div 16 = byte a"
    "(byte a mod 4 * 16 + byte b div 16) mod 16 * 16 + (byte b mod 16 * 4 + byte c div 64) div 4 = byte b"
    "(byte b mod 16 * 4 + byte c div 64) mod 4 * 64 + byte c mod 64 = byte c"
    by (simp_all only: carry_high carry_mid carry_low byte_bound div_bound)
  then show ?case
    by (simp only: b64encode.simps b64_group sextet_bounds char_of_byte "4.IH" option.map)
qed

lemma b64encode_ascii: "c \<in> set (b64encode bs) \<Longrightarrow> (of_char c :: nat) < 128"
proof (induction bs rule: b64encode.induct)
  case (4 a b d r)
  then show ?case using b64_char_ascii [OF sextet_bounds(1)] b64_char_ascii [OF sextet_bounds(3)]
      b64_char_ascii [OF sextet_bounds(5)] b64_char_ascii [OF sextet_bounds(6)] by auto
qed (use b64_char_ascii [OF sextet_bounds(1)] b64_char_ascii [OF sextet_bounds(2)]
      b64_char_ascii [OF sextet_bounds(3)] b64_char_ascii [OF sextet_bounds(4)] in auto)

lemma b64_round_trip: "b64decode strict (b64encode bs) = Some bs"
  using b64encode_ascii [of _ bs] by (simp add: b64decode_def b64_loop_encode list_all_iff)

lemma b64encode_Nil_iff [simp]: "b64encode bs = [] \<longleftrightarrow> bs = []"
  by (metis b64_round_trip b64encode.simps(1) option.inject)

end
