(* ===== verification/Crypto.thy ===== *)
theory Crypto
  imports Envelope Base64
begin

text \<open>
  Canonical hashing (app/canonical/hashing.py), the Ed25519 helpers
  (app/crypto/signature.py) and the agent request protocol (app/crypto/agent_request.py).
  The hash and the signature scheme are those of the environment. Hypotheses about collisions
  speak of the finitely many byte strings a comparison hashes, never of all strings.
\<close>

section \<open>Canonical JSON and hashes\<close>

definition excluded_fields :: "string list" where
  "excluded_fields = [''evidence_hash'', ''signature'']"

definition canonicalize :: "(string \<times> json) list \<Rightarrow> bytes" where
  "canonicalize payload =
     utf8 (dumps (JObj (filter (\<lambda>(k, v). k \<notin> set excluded_fields) payload)))"

definition compute_evidence_hash :: "env \<Rightarrow> (string \<times> json) list \<Rightarrow> string" where
  "compute_evidence_hash E payload = sha256_hex E (canonicalize payload)"

definition chain_input :: "string \<Rightarrow> string \<Rightarrow> bytes" where
  "chain_input prev_hash payload_hash = utf8 (prev_hash @ '':'' @ payload_hash)"

definition chain_hash :: "env \<Rightarrow> string \<Rightarrow> string \<Rightarrow> string" where
  "chain_hash E prev_hash payload_hash = sha256_hex E (chain_input prev_hash payload_hash)"

definition json_blob :: "json \<Rightarrow> bytes" where
  "json_blob payload = utf8 (dumps payload)"

definition hash_json :: "env \<Rightarrow> json \<Rightarrow> string" where
  "hash_json E payload = sha256_hex E (json_blob payload)"

section \<open>Keys and signatures\<close>

text \<open>Keys and signatures are base64 text; a malformed private key raises \<^verbatim>\<open>ValueError\<close>.\<close>

definition private_bytes :: "string \<Rightarrow> exn + bytes" where
  "private_bytes private_key_b64 =
     (case b64decode False private_key_b64 of
        None \<Rightarrow> Inl ValueError
      | Some raw \<Rightarrow> if length raw = 32 then Inr raw else Inl ValueError)"

definition generate_keypair :: "env \<Rightarrow> nat \<Rightarrow> string \<times> string" where
  "generate_keypair E n =
     (let raw = ed25519_generate E n in (b64encode raw, b64encode (ed25519_public E raw)))"

definition sign :: "env \<Rightarrow> string \<Rightarrow> string \<Rightarrow> exn + string" where
  "sign E digest private_key_b64 =
     (case private_bytes private_key_b64 of
        Inl e \<Rightarrow> Inl e
      | Inr raw \<Rightarrow>
          (case ascii digest of
             None \<Rightarrow> Inl ValueError
           | Some m \<Rightarrow> Inr (b64encode (ed25519_sign E raw m))))"

definition derive_public_key :: "env \<Rightarrow> string \<Rightarrow> exn + string" where
  "derive_public_key E private_key_b64 =
     (case private_bytes private_key_b64 of
        Inl e \<Rightarrow> Inl e
      | Inr raw \<Rightarrow> Inr (b64encode (ed25519_public E raw)))"

text \<open>\<^verbatim>\<open>verify\<close> catches every \<^verbatim>\<open>ValueError\<close> of the decoding and answers \<^verbatim>\<open>False\<close>.\<close>

definition verify :: "env \<Rightarrow> string \<Rightarrow> string \<Rightarrow> string \<Rightarrow> bool" where
  "verify E digest signature_b64 public_key_b64 =
     (case b64decode True public_key_b64 of
        None \<Rightarrow> False
      | Some raw_pub \<Rightarrow>
          (case b64decode True signature_b64 of
             None \<Rightarrow> False
           | Some raw_sig \<Rightarrow>
               if length raw_pub \<noteq> 32 then False
               else (case ascii digest of
                       None \<Rightarrow> False
                     | Some m \<Rightarrow> ed25519_verify E raw_pub raw_sig m)))"

section \<open>The agent request protocol\<close>

definition request_payload :: "string \<Rightarrow> string \<Rightarrow> string \<Rightarrow> cart \<Rightarrow> json" where
  "request_payload auth_id ag n c = JObj
     [(''domain'', JStr ''agent-request.v1''), (''authorization_id'', JStr auth_id),
      (''agent_id'', JStr ag), (''nonce'', JStr n), (''cart'', cart_json c)]"

definition request_hash :: "env \<Rightarrow> string \<Rightarrow> string \<Rightarrow> string \<Rightarrow> cart \<Rightarrow> string" where
  "request_hash E auth_id ag n c = hash_json E (request_payload auth_id ag n c)"

definition sign_request :: "env \<Rightarrow> agent_request \<Rightarrow> string \<Rightarrow> exn + agent_request" where
  "sign_request E payload private_key =
     (case sign E (request_hash E (req_authorization_id payload) (req_agent_id payload)
                     (req_nonce payload) (req_cart payload)) private_key of
        Inl e \<Rightarrow> Inl e
      | Inr s \<Rightarrow> Inr (payload\<lparr>agent_signature := Some s\<rparr>))"

section \<open>Facts\<close>

lemma unsigned_dict_keys: "k \<in> fst ` set (unsigned_dict e) \<Longrightarrow> k \<notin> set excluded_fields"
  by (auto simp: unsigned_dict_def excluded_fields_def)

lemma canonicalize_unsigned: "canonicalize (unsigned_dict e) = utf8 (dumps (JObj (unsigned_dict e)))"
  by (simp add: canonicalize_def unsigned_dict_def excluded_fields_def)

text \<open>Hashing the full dump is hashing the unsigned one: the two excluded fields are dropped.\<close>

lemma canonicalize_dump: "canonicalize (envelope_dump e) = canonicalize (unsigned_dict e)"
  by (simp add: canonicalize_def unsigned_dict_def excluded_fields_def envelope_dump_def)

lemma canonicalize_inject:
  "canonicalize (unsigned_dict e) = canonicalize (unsigned_dict f) \<longleftrightarrow> same_terms e f"
  by (simp add: canonicalize_unsigned utf8_inject dumps_inject unsigned_dict_inject
      del: sort_keys.simps)

lemma json_blob_inject: "json_blob v = json_blob w \<longleftrightarrow> sort_keys v = sort_keys w"
  by (simp add: json_blob_def utf8_inject dumps_inject)

lemma request_payload_inject:
  "json_blob (request_payload a g n c) = json_blob (request_payload a' g' n' c') \<longleftrightarrow>
   a = a' \<and> g = g' \<and> n = n' \<and> c = c'"
  unfolding request_payload_def json_blob_inject
  by (subst sort_keys_record) (auto simp: cart_json_inject)

lemma chain_input_inject:
  assumes "CHR '':'' \<notin> set p" and "CHR '':'' \<notin> set p'"
  shows "chain_input p q = chain_input p' q' \<longleftrightarrow> p = p' \<and> q = q'"
proof
  assume "chain_input p q = chain_input p' q'"
  then have eq: "p @ CHR '':'' # q = p' @ CHR '':'' # q'"
    by (simp add: chain_input_def utf8_inject)
  have "p = p' \<and> CHR '':'' # q = CHR '':'' # q'"
    by (rule split_at_first [OF eq, where P = "\<lambda>c. c \<noteq> CHR '':''"]) (use assms in auto)
  then show "p = p' \<and> q = q'" by simp
qed auto

lemma sign_verify:
  assumes "ed25519_lawful E" and "sign E h sk = Inr s" and "derive_public_key E sk = Inr pk"
  shows "verify E h s pk"
  using assms
  by (auto simp: sign_def derive_public_key_def verify_def private_bytes_def b64_round_trip
      ed25519_lawful_def split: option.splits if_splits)

lemma hash_json_hex: "digests_hex E \<Longrightarrow> hex_digest (hash_json E v)"
  by (simp add: digests_hex_def hash_json_def)

lemma chain_hash_hex: "digests_hex E \<Longrightarrow> hex_digest (chain_hash E p q)"
  by (simp add: digests_hex_def chain_hash_def)

end
