(* ===== verification/Policy_Engine.thy ===== *)
theory Policy_Engine
  imports Crypto "HOL-Library.Multiset"
begin

text \<open>
  The deterministic policy engine, app/policy/engine.py. \<^verbatim>\<open>evaluate_policy\<close> performs the
  checks in the source's order, with the source's reasons and messages; the two ways the
  Python raises (a timestamp that does not parse, an aware timestamp compared with a naive
  one) are left values. What the checks mean is in Policy\_Properties.
\<close>

section \<open>Decisions and reasons\<close>

datatype decision = ALLOW | BLOCK | RECONSENT

datatype reason =
    SIGNATURE_INVALID | MANDATE_EXPIRED | MANDATE_REVOKED | NOT_YET_VALID | CURRENCY_MISMATCH
  | MERCHANT_NOT_ALLOWED | MANDATE_EXHAUSTED | NONCE_ALREADY_USED | MALFORMED_CART | ZERO_BUDGET
  | SKU_FORBIDDEN | SKU_NOT_ALLOWED | SUBSTITUTION_NOT_ALLOWED | QUANTITY_EXCEEDED
  | UNIT_PRICE_EXCEEDED | TIPS_NOT_ALLOWED | MAX_TOTAL_EXCEEDED | NONE

record policy_result =
  decision :: decision
  reason :: reason
  message :: string

fun decision_value :: "decision \<Rightarrow> string" where
  "decision_value ALLOW = ''ALLOW''"
| "decision_value BLOCK = ''BLOCK''"
| "decision_value RECONSENT = ''RECONSENT''"

fun reason_value :: "reason \<Rightarrow> string" where
  "reason_value SIGNATURE_INVALID = ''SIGNATURE_INVALID''"
| "reason_value MANDATE_EXPIRED = ''MANDATE_EXPIRED''"
| "reason_value MANDATE_REVOKED = ''MANDATE_REVOKED''"
| "reason_value NOT_YET_VALID = ''NOT_YET_VALID''"
| "reason_value CURRENCY_MISMATCH = ''CURRENCY_MISMATCH''"
| "reason_value MERCHANT_NOT_ALLOWED = ''MERCHANT_NOT_ALLOWED''"
| "reason_value MANDATE_EXHAUSTED = ''MANDATE_EXHAUSTED''"
| "reason_value NONCE_ALREADY_USED = ''NONCE_ALREADY_USED''"
| "reason_value MALFORMED_CART = ''MALFORMED_CART''"
| "reason_value ZERO_BUDGET = ''ZERO_BUDGET''"
| "reason_value SKU_FORBIDDEN = ''SKU_FORBIDDEN''"
| "reason_value SKU_NOT_ALLOWED = ''SKU_NOT_ALLOWED''"
| "reason_value SUBSTITUTION_NOT_ALLOWED = ''SUBSTITUTION_NOT_ALLOWED''"
| "reason_value QUANTITY_EXCEEDED = ''QUANTITY_EXCEEDED''"
| "reason_value UNIT_PRICE_EXCEEDED = ''UNIT_PRICE_EXCEEDED''"
| "reason_value TIPS_NOT_ALLOWED = ''TIPS_NOT_ALLOWED''"
| "reason_value MAX_TOTAL_EXCEEDED = ''MAX_TOTAL_EXCEEDED''"
| "reason_value NONE = ''''"

abbreviation result :: "decision \<Rightarrow> reason \<Rightarrow> string \<Rightarrow> policy_result" where
  "result d r m \<equiv> \<lparr>decision = d, reason = r, message = m\<rparr>"

abbreviation block :: "reason \<Rightarrow> string \<Rightarrow> policy_result" where
  "block r m \<equiv> result BLOCK r m"

text \<open>A value between single quotes, as the messages have it.\<close>

definition squoted :: "string \<Rightarrow> string" where
  "squoted s = CHR 0x27 # s @ [CHR 0x27]"

section \<open>The evaluation\<close>

text \<open>The keyword arguments of \<^verbatim>\<open>evaluate_policy\<close> with their defaults.\<close>

record eval_opts =
  current_time :: "datetime option"
  nonce_already_used :: bool
  transactions_used :: int
  verification_public_key :: "string option"
  skip_signature_check :: bool

definition default_opts :: eval_opts where
  "default_opts =
     \<lparr>current_time = None, nonce_already_used = False, transactions_used = 0,
      verification_public_key = None, skip_signature_check = False\<rparr>"

definition parse_iso :: "env \<Rightarrow> string \<Rightarrow> exn + datetime" where
  "parse_iso E ts =
     (case fromisoformat E (replace_char CHR ''Z'' ''+00:00'' ts) of
        None \<Rightarrow> Inl ValueError
      | Some dt \<Rightarrow> Inr (case utc_offset dt of None \<Rightarrow> dt\<lparr>utc_offset := Some 0\<rparr> | Some _ \<Rightarrow> dt))"

text \<open>Step 1. Python's \<^verbatim>\<open>or\<close> and \<^verbatim>\<open>not\<close> treat \<^verbatim>\<open>None\<close> and the empty string alike.\<close>

definition truthy :: "string option \<Rightarrow> bool" where
  "truthy v = (case v of None \<Rightarrow> False | Some s \<Rightarrow> s \<noteq> [])"

definition signature_ok :: "env \<Rightarrow> envelope \<Rightarrow> string \<Rightarrow> bool" where
  "signature_ok E auth pub_key =
     (let recomputed_hash = compute_evidence_hash E (unsigned_dict auth) in
        recomputed_hash = evidence_hash auth \<and> truthy (signature auth) \<and>
        verify E recomputed_hash (the (signature auth)) pub_key)"

definition opts_public_key :: "envelope \<Rightarrow> eval_opts \<Rightarrow> string" where
  "opts_public_key auth opts =
     (if truthy (verification_public_key opts) then the (verification_public_key opts)
      else public_key (agent auth))"

text \<open>Step 7: the first item with a negative price or quantity, and the recomputed total.\<close>

definition negative_item :: "cart \<Rightarrow> cart_item option" where
  "negative_item c = find (\<lambda>i. unit_price i < 0 \<or> quantity i < 0) (items c)"

definition computed_total :: "cart \<Rightarrow> int" where
  "computed_total c = sum_list (map (\<lambda>i. unit_price i * quantity i) (items c)) + shipping c + tax c"

text \<open>Step 9, one item: the block it causes, if any.\<close>

definition check_item :: "envelope \<Rightarrow> cart_item \<Rightarrow> policy_result option" where
  "check_item auth i =
     (let p = product_scope auth; f = financial_scope auth;
          allowed = allowed_skus p; cats = allowed_categories p;
          sku_ok = (allowed = [] \<or> sku i \<in> set allowed);
          category_ok = (cats = [] \<or> (case category i of None \<Rightarrow> False | Some c \<Rightarrow> c \<in> set cats));
          scope =
            (if allowed \<noteq> [] \<and> sku i \<notin> set allowed then
               (if substitutions_allowed p \<and> category_ok then None
                else if substitutions_allowed p then
                  Some (block SUBSTITUTION_NOT_ALLOWED
                    (''Substituted SKU '' @ squoted (sku i) @ '' is outside the authorized categories.''))
                else Some (block SKU_NOT_ALLOWED (''SKU '' @ squoted (sku i) @ '' is not authorized.'')))
             else if \<not> sku_ok \<and> \<not> category_ok then
               Some (block SKU_NOT_ALLOWED (''SKU '' @ squoted (sku i) @ '' is not authorized.''))
             else None)
      in if sku i \<in> set (forbidden_skus p) then
           Some (block SKU_FORBIDDEN (''SKU '' @ squoted (sku i) @ '' is explicitly forbidden.''))
         else case scope of
           Some r \<Rightarrow> Some r
         | None \<Rightarrow>
             if \<not> tips_allowed f \<and> contains ''tip'' (py_lower (sku i)) then
               Some (block TIPS_NOT_ALLOWED ''Tips/gratuity are not authorized by this mandate.'')
             else case max_unit_price f of
               None \<Rightarrow> None
             | Some cap \<Rightarrow>
                 if unit_price i > cap then
                   Some (block UNIT_PRICE_EXCEEDED
                     (''Unit price '' @ show_int (unit_price i) @ '' for '' @ squoted (sku i)
                      @ '' exceeds cap '' @ show_int cap @ ''.''))
                 else None)"

text \<open>Step 9, the loop: the first block, or the total quantity.\<close>

fun check_items :: "envelope \<Rightarrow> int \<Rightarrow> cart_item list \<Rightarrow> policy_result + int" where
  "check_items auth total_quantity [] = Inr total_quantity"
| "check_items auth total_quantity (i # is) =
     (case check_item auth i of
        Some r \<Rightarrow> Inl r
      | None \<Rightarrow> check_items auth (total_quantity + quantity i) is)"

text \<open>Steps 7 to 11, which look at cart and mandate only. A \<^verbatim>\<open>Cart\<close> always has a total.\<close>

definition evaluate_cart :: "envelope \<Rightarrow> cart \<Rightarrow> policy_result" where
  "evaluate_cart auth c =
     (let f = financial_scope auth in
      if total c < 0 \<or> shipping c < 0 \<or> tax c < 0 then
        block MALFORMED_CART ''Cart total/shipping/tax missing or negative.''
      else case negative_item c of
        Some i \<Rightarrow> block MALFORMED_CART (''Item '' @ sku i @ '' has a negative price/quantity.'')
      | None \<Rightarrow>
          if computed_total c \<noteq> total c then
            block MALFORMED_CART
              (''Declared total '' @ show_int (total c) @ '' does not match computed total ''
               @ show_int (computed_total c) @ ''.'')
          else if max_total f = 0 \<and> total c > 0 then
            block ZERO_BUDGET ''Mandate authorizes zero spend.''
          else case check_items auth 0 (items c) of
            Inl r \<Rightarrow> r
          | Inr total_quantity \<Rightarrow>
              if total_quantity > max_items (quantity_scope auth) then
                block QUANTITY_EXCEEDED
                  (''Requested quantity '' @ show_int total_quantity @ '' exceeds max_items ''
                   @ show_int (max_items (quantity_scope auth)) @ ''.'')
              else if total c > max_total f then
                result RECONSENT MAX_TOTAL_EXCEEDED
                  (''Cart total '' @ show_int (total c) @ '' exceeds authorized max ''
                   @ show_int (max_total f) @ '' (+'' @ show_int (total c - max_total f) @ '').'')
              else result ALLOW NONE ''All policy checks passed.'')"

text \<open>Steps 3 to 6.\<close>

definition evaluate_scopes :: "envelope \<Rightarrow> cart \<Rightarrow> eval_opts \<Rightarrow> policy_result" where
  "evaluate_scopes auth c opts =
     (if cart_currency c \<noteq> currency (financial_scope auth) then
        block CURRENCY_MISMATCH
          (''Cart currency '' @ cart_currency c @ '' != mandate currency ''
           @ currency (financial_scope auth) @ ''.'')
      else if merchant_ids (merchant_scope auth) \<noteq> []
              \<and> merchant_id c \<notin> set (merchant_ids (merchant_scope auth)) then
        block MERCHANT_NOT_ALLOWED
          (''Merchant '' @ squoted (merchant_id c) @ '' is not in the authorized merchant list.'')
      else if nonce_already_used opts then
        block NONCE_ALREADY_USED ''This nonce has already been consumed.''
      else if max_transactions (execution_scope auth) \<le> 0 then
        block MANDATE_EXHAUSTED ''Mandate allows zero transactions.''
      else if transactions_used opts \<ge> max_transactions (execution_scope auth) then
        block MANDATE_EXHAUSTED ''Mandate has no remaining uses.''
      else evaluate_cart auth c)"

text \<open>
  The whole evaluation. \<^verbatim>\<open>k\<close> is the number of the clock reading that replaces a missing
  \<^verbatim>\<open>current_time\<close>.
\<close>

definition evaluate_policy :: "env \<Rightarrow> nat \<Rightarrow> envelope \<Rightarrow> cart \<Rightarrow> eval_opts \<Rightarrow> exn + policy_result" where
  "evaluate_policy E k auth c opts =
     (let now = (case current_time opts of Some t \<Rightarrow> t | None \<Rightarrow> utc_datetime (clock E k)) in
      if \<not> skip_signature_check opts \<and> \<not> signature_ok E auth (opts_public_key auth opts) then
        Inr (block SIGNATURE_INVALID ''Mandate signature is missing or invalid.'')
      else case parse_iso E (expires_at (temporal_scope auth)) of
        Inl e \<Rightarrow> Inl e
      | Inr expires \<Rightarrow>
          case parse_iso E (issued_at (temporal_scope auth)) of
            Inl e \<Rightarrow> Inl e
          | Inr issued \<Rightarrow>
              case dt_less expires now of
                Inl e \<Rightarrow> Inl e
              | Inr True \<Rightarrow> Inr (block MANDATE_EXPIRED ''Mandate has expired.'')
              | Inr False \<Rightarrow>
                  case dt_less now issued of
                    Inl e \<Rightarrow> Inl e
                  | Inr True \<Rightarrow> Inr (block NOT_YET_VALID ''Mandate is not yet valid.'')
                  | Inr False \<Rightarrow> Inr (evaluate_scopes auth c opts))"

end
