(* ===== verification/Demo.thy ===== *)
theory Demo
  imports Policy_Engine
begin

text \<open>
  The mandate and the cart of the demo script and of tests/conftest.py (three chairs from
  MerchantA for at most 25000), and an environment simple enough to compute with. The
  witnesses of the properties are evaluated on them.
\<close>

text \<open>
  The stand-ins: one constant digest, a signature that repeats the key, a clock that ticks
  once per reading, and timestamps read as the number their digits spell, which orders the
  timestamps of one time zone as their instants.
\<close>

definition demo_digest :: string where
  "demo_digest = replicate 64 CHR ''a''"

definition demo_iso :: "string \<Rightarrow> datetime option" where
  "demo_iso s = (if s = [] then None
     else Some \<lparr>local_us = int (digits_value 0 (filter is_digit s)), utc_offset = Some 0\<rparr>)"

text \<open>Identifiers that differ in their first twelve characters.\<close>

definition demo_uuid :: "nat \<Rightarrow> string" where
  "demo_uuid n =
     map (\<lambda>p. if odd (n div p) then CHR ''1'' else CHR ''0'')
       [1, 2, 4, 8, 16, 32, 64, 128, 256, 512, 1024, 2048] @ replicate 20 CHR ''0''"

text \<open>The one body the demo parser knows: the capture of the demo order.\<close>

definition demo_order_id :: string where
  "demo_order_id = ''order_MOCK'' @ take 14 (demo_uuid 12)"

definition demo_delivery :: json where
  "demo_delivery = JObj [(''event'', JStr ''payment.captured''), (''payload'', JObj [(''payment'', JObj [(''entity'', JObj
     [(''id'', JStr ''pay_1''), (''order_id'', JStr demo_order_id), (''amount'', JInt 23700)])])])]"

definition demo_loads :: "bytes \<Rightarrow> json option" where
  "demo_loads b = (if b = ''captured'' then Some demo_delivery else None)"

text \<open>A provider that creates what it is asked for.\<close>

definition demo_order :: "nat \<Rightarrow> int \<Rightarrow> string \<Rightarrow> string \<Rightarrow> provider_order option" where
  "demo_order n amount cur receipt =
     Some \<lparr>po_id = ''order_'' @ take 14 (demo_uuid n), po_amount = amount, po_currency = cur, po_status = ''created''\<rparr>"

definition demo_env :: env where
  "demo_env =
     \<lparr>sha256_hex = (\<lambda>b. demo_digest), hmac_sha256_hex = (\<lambda>k m. demo_digest),
      ed25519_generate = (\<lambda>n. replicate 32 CHR ''k''), ed25519_public = (\<lambda>sk. sk),
      ed25519_sign = (\<lambda>sk m. sk @ sk), ed25519_verify = (\<lambda>p s m. s = p @ p),
      fromisoformat = demo_iso, isoformat = show_int, stored_isoformat = show_int, json_loads = demo_loads,
      clock = (\<lambda>n. 202609051810000000 + int n), uuid_hex = demo_uuid,
      order_create = demo_order,
      validate_str = (\<lambda>v. case v of JStr s \<Rightarrow> Some s | _ \<Rightarrow> None),
      validate_int = (\<lambda>v. case v of JInt i \<Rightarrow> Some i | _ \<Rightarrow> None),
      validate_bool = (\<lambda>v. case v of JBool b \<Rightarrow> Some b | _ \<Rightarrow> None)\<rparr>"

definition demo_key :: string where
  "demo_key = b64encode (replicate 32 CHR ''k'')"

definition demo_signature :: string where
  "demo_signature = b64encode (replicate 32 CHR ''k'' @ replicate 32 CHR ''k'')"

definition demo_mandate :: envelope where
  "demo_mandate =
     \<lparr>version = ''1.0'', authorization_id = ''auth-12345'',
      principal = \<lparr>user_id = ''user_789'', identity_provider = ''razorpay''\<rparr>,
      agent = \<lparr>agent_id = ''agent_xyz'', provider = ''MyAssistant'', public_key = demo_key,
               request_public_key = Some demo_key, trust_level = ''user_key''\<rparr>,
      merchant_scope = \<lparr>merchant_ids = [''MerchantA''], merchant_categories = []\<rparr>,
      product_scope = \<lparr>allowed_skus = [''CHAIR1''], allowed_categories = [''chair''],
                       forbidden_skus = [], substitutions_allowed = False\<rparr>,
      financial_scope = \<lparr>currency = ''INR'', max_total = 25000, max_unit_price = None,
                         shipping_included = True, tax_included = True, tips_allowed = False\<rparr>,
      quantity_scope = \<lparr>max_items = 3\<rparr>,
      temporal_scope = \<lparr>issued_at = ''2026-09-05T18:09:00+00:00'',
                        expires_at = ''2026-09-05T18:30:00+00:00''\<rparr>,
      execution_scope = \<lparr>max_transactions = 1, reusable = False\<rparr>,
      nonce = ''nonce-1'', evidence_hash = demo_digest, signature = Some demo_signature\<rparr>"

definition demo_cart :: cart where
  "demo_cart =
     \<lparr>merchant_id = ''MerchantA'',
      items = [\<lparr>sku = ''CHAIR1'', unit_price = 7500, quantity = 3, category = Some ''chair''\<rparr>],
      shipping = 1200, tax = 0, total = 23700, cart_currency = ''INR''\<rparr>"

lemma demo_ascii: "ascii demo_digest = Some demo_digest"
  by code_simp

lemma demo_key_nonempty: "b64encode (replicate 32 CHR ''k'') \<noteq> []"
  by code_simp

lemma demo_sku_no_tip: "\<not> contains ''tip'' (py_lower ''CHAIR1'')"
  by code_simp

lemma demo_lawful: "ed25519_lawful demo_env"
  by (simp add: ed25519_lawful_def demo_env_def)

text \<open>The demo mandate carries a valid signature of the demo environment.\<close>

lemma demo_signature_ok: "signature_ok demo_env demo_mandate demo_key"
  by (simp add: signature_ok_def demo_env_def demo_mandate_def demo_key_def truthy_def verify_def demo_signature_def
      b64_round_trip demo_key_nonempty compute_evidence_hash_def demo_ascii Let_def)

lemma demo_allowed:
  "evaluate_policy demo_env 0 demo_mandate demo_cart default_opts =
   Inr (result ALLOW NONE ''All policy checks passed.'')"
proof -
  have sig: "signature_ok demo_env demo_mandate (opts_public_key demo_mandate default_opts)"
    using demo_signature_ok by (simp add: opts_public_key_def default_opts_def truthy_def demo_mandate_def)
  have window: "parse_iso demo_env (expires_at (temporal_scope demo_mandate)) =
      Inr \<lparr>local_us = 202609051830000000, utc_offset = Some 0\<rparr>"
    "parse_iso demo_env (issued_at (temporal_scope demo_mandate)) =
      Inr \<lparr>local_us = 202609051809000000, utc_offset = Some 0\<rparr>"
    by (simp_all add: parse_iso_def demo_env_def demo_iso_def demo_mandate_def replace_char_def is_digit_def)
  have scopes: "evaluate_scopes demo_mandate demo_cart default_opts =
      result ALLOW NONE ''All policy checks passed.''"
    by (simp add: evaluate_scopes_def evaluate_cart_def demo_mandate_def demo_cart_def default_opts_def
        negative_item_def computed_total_def check_item_def Let_def demo_sku_no_tip)
  show ?thesis
    using sig window scopes
    by (simp add: evaluate_policy_def default_opts_def utc_datetime_def demo_env_def)
qed

end
