(* ===== verification/Policy_Properties.thy ===== *)
theory Policy_Properties
  imports Demo
begin

text \<open>
  What the policy engine decides. \<^verbatim>\<open>genuine\<close>, \<^verbatim>\<open>in_validity_window\<close>, \<^verbatim>\<open>use_permitted\<close> and
  \<^verbatim>\<open>contents_permitted\<close> are an order-free specification of the mandate; the loop and the
  chain of early returns of app/policy/engine.py are proved to implement it, and the
  properties of the engine follow from that characterization.
\<close>

section \<open>What the checks mean\<close>

text \<open>The declarative reading of steps 3 to 11: no order, no loop, no message.\<close>

definition category_listed :: "product_scope \<Rightarrow> cart_item \<Rightarrow> bool" where
  "category_listed p i \<longleftrightarrow>
     allowed_categories p = [] \<or> (\<exists>c. category i = Some c \<and> c \<in> set (allowed_categories p))"

definition item_permitted :: "envelope \<Rightarrow> cart_item \<Rightarrow> bool" where
  "item_permitted auth i \<longleftrightarrow>
     (let p = product_scope auth; f = financial_scope auth in
      sku i \<notin> set (forbidden_skus p) \<and>
      (allowed_skus p = [] \<or> sku i \<in> set (allowed_skus p) \<or>
       substitutions_allowed p \<and> category_listed p i) \<and>
      (tips_allowed f \<or> \<not> contains ''tip'' (py_lower (sku i))) \<and>
      (case max_unit_price f of None \<Rightarrow> True | Some cap \<Rightarrow> unit_price i \<le> cap))"

definition well_formed_cart :: "cart \<Rightarrow> bool" where
  "well_formed_cart c \<longleftrightarrow>
     0 \<le> total c \<and> 0 \<le> shipping c \<and> 0 \<le> tax c \<and>
     list_all (\<lambda>i. 0 \<le> unit_price i \<and> 0 \<le> quantity i) (items c) \<and> computed_total c = total c"

definition contents_permitted :: "envelope \<Rightarrow> cart \<Rightarrow> bool" where
  "contents_permitted auth c \<longleftrightarrow>
     well_formed_cart c \<and> list_all (item_permitted auth) (items c) \<and>
     sum_list (map quantity (items c)) \<le> max_items (quantity_scope auth)"

definition use_permitted :: "envelope \<Rightarrow> cart \<Rightarrow> eval_opts \<Rightarrow> bool" where
  "use_permitted auth c opts \<longleftrightarrow>
     cart_currency c = currency (financial_scope auth) \<and>
     (merchant_ids (merchant_scope auth) = [] \<or> merchant_id c \<in> set (merchant_ids (merchant_scope auth))) \<and>
     \<not> nonce_already_used opts \<and>
     0 < max_transactions (execution_scope auth) \<and>
     transactions_used opts < max_transactions (execution_scope auth)"

definition eval_now :: "env \<Rightarrow> nat \<Rightarrow> eval_opts \<Rightarrow> datetime" where
  "eval_now E k opts = (case current_time opts of Some t \<Rightarrow> t | None \<Rightarrow> utc_datetime (clock E k))"

definition in_validity_window :: "env \<Rightarrow> envelope \<Rightarrow> datetime \<Rightarrow> bool" where
  "in_validity_window E auth now \<longleftrightarrow>
     (\<exists>expires issued. parse_iso E (expires_at (temporal_scope auth)) = Inr expires \<and>
        parse_iso E (issued_at (temporal_scope auth)) = Inr issued \<and>
        dt_less expires now = Inr False \<and> dt_less now issued = Inr False)"

definition genuine :: "env \<Rightarrow> envelope \<Rightarrow> eval_opts \<Rightarrow> bool" where
  "genuine E auth opts \<longleftrightarrow>
     skip_signature_check opts \<or> signature_ok E auth (opts_public_key auth opts)"

definition verdict :: "exn + policy_result \<Rightarrow> exn + decision" where
  "verdict x = map_sum id decision x"

section \<open>Lemmas on the single checks\<close>

lemma check_item_None_iff: "check_item auth i = None \<longleftrightarrow> item_permitted auth i"
  by (auto simp: check_item_def item_permitted_def category_listed_def Let_def
      split: option.splits if_splits)

lemma check_item_Some: "check_item auth i = Some r \<Longrightarrow>
  decision r = BLOCK \<and> reason r \<in> {SKU_FORBIDDEN, SUBSTITUTION_NOT_ALLOWED, SKU_NOT_ALLOWED,
    TIPS_NOT_ALLOWED, UNIT_PRICE_EXCEEDED}"
  by (auto simp: check_item_def Let_def split: option.splits if_splits)

lemma check_items_Inr_iff:
  "check_items auth n is = Inr m \<longleftrightarrow>
   list_all (item_permitted auth) is \<and> m = n + sum_list (map quantity is)"
proof (induction "is" arbitrary: n)
  case (Cons i "is")
  then show ?case
    using check_item_None_iff [of auth i] by (cases "check_item auth i") (simp_all add: add.assoc)
qed auto

lemma check_items_Inl:
  "check_items auth n is = Inl r \<Longrightarrow> \<exists>i\<in>set is. check_item auth i = Some r"
  by (induction auth n "is" rule: check_items.induct) (auto split: option.splits)

lemma check_items_cases:
  obtains r i where "check_items auth 0 is = Inl r" "i \<in> set is" "check_item auth i = Some r"
    "\<not> list_all (item_permitted auth) is"
  | "check_items auth 0 is = Inr (sum_list (map quantity is))" "list_all (item_permitted auth) is"
proof (cases "check_items auth 0 is")
  case (Inl r)
  moreover have "\<not> list_all (item_permitted auth) is"
    using check_items_Inr_iff [of auth 0 "is" "0 + sum_list (map quantity is)"] Inl by simp
  ultimately show ?thesis using check_items_Inl that(1) by blast
next
  case (Inr m)
  then show ?thesis using check_items_Inr_iff [of auth 0 "is" m] that(2) by auto
qed

lemma negative_item_None_iff:
  "negative_item c = None \<longleftrightarrow> list_all (\<lambda>i. 0 \<le> unit_price i \<and> 0 \<le> quantity i) (items c)"
  by (auto simp: negative_item_def find_None_iff list_all_iff not_less)

lemma evaluate_cart_allow:
  "decision (evaluate_cart auth c) = ALLOW \<longleftrightarrow>
   contents_permitted auth c \<and> total c \<le> max_total (financial_scope auth)"
  by (rule check_items_cases [of auth "items c"])
    (auto simp: evaluate_cart_def contents_permitted_def well_formed_cart_def Let_def
      negative_item_None_iff [symmetric] split: option.splits dest: check_item_Some)

lemma evaluate_cart_reconsent:
  "decision (evaluate_cart auth c) = RECONSENT \<longleftrightarrow>
   contents_permitted auth c \<and> max_total (financial_scope auth) < total c \<and>
   max_total (financial_scope auth) \<noteq> 0"
  by (rule check_items_cases [of auth "items c"])
    (auto simp: evaluate_cart_def contents_permitted_def well_formed_cart_def Let_def
      negative_item_None_iff [symmetric] split: option.splits dest: check_item_Some)

lemma evaluate_scopes_cart:
  "evaluate_scopes auth c opts =
   (if use_permitted auth c opts then evaluate_cart auth c else evaluate_scopes auth c opts)"
  by (auto simp: evaluate_scopes_def use_permitted_def)

lemma evaluate_scopes_block:
  "\<not> use_permitted auth c opts \<Longrightarrow> decision (evaluate_scopes auth c opts) = BLOCK"
  by (auto simp: evaluate_scopes_def use_permitted_def)

lemma evaluate_scopes_permitted:
  "use_permitted auth c opts \<Longrightarrow> evaluate_scopes auth c opts = evaluate_cart auth c"
  by (auto simp: evaluate_scopes_def use_permitted_def)

text \<open>The signature and the clock decide first.\<close>

lemma evaluate_policy_cases:
  obtains "\<not> genuine E auth opts" "evaluate_policy E k auth c opts =
      Inr (block SIGNATURE_INVALID ''Mandate signature is missing or invalid.'')"
  | "genuine E auth opts" "in_validity_window E auth (eval_now E k opts)"
    "evaluate_policy E k auth c opts = Inr (evaluate_scopes auth c opts)"
  | r where "genuine E auth opts" "\<not> in_validity_window E auth (eval_now E k opts)"
    "evaluate_policy E k auth c opts = r" "verdict r \<noteq> Inr ALLOW" "verdict r \<noteq> Inr RECONSENT"
proof (cases "genuine E auth opts")
  case False
  then show ?thesis using that(1) by (simp add: genuine_def evaluate_policy_def)
next
  case gen: True
  show ?thesis
  proof (cases "in_validity_window E auth (eval_now E k opts)")
    case True
    then have "evaluate_policy E k auth c opts = Inr (evaluate_scopes auth c opts)"
      using gen by (auto simp: genuine_def evaluate_policy_def in_validity_window_def eval_now_def Let_def
          simp del: dt_less.simps)
    with gen True show ?thesis using that(2) by blast
  next
    case False
    then have "verdict (evaluate_policy E k auth c opts) \<noteq> Inr ALLOW \<and>
        verdict (evaluate_policy E k auth c opts) \<noteq> Inr RECONSENT"
      using gen by (auto simp: genuine_def evaluate_policy_def in_validity_window_def eval_now_def Let_def
          verdict_def simp del: dt_less.simps split: sum.splits bool.splits)
    with gen False show ?thesis using that(3) by blast
  qed
qed

text \<open>The two positive decisions, characterized.\<close>

lemma allow_char:
  "verdict (evaluate_policy E k auth c opts) = Inr ALLOW \<longleftrightarrow>
   genuine E auth opts \<and> in_validity_window E auth (eval_now E k opts) \<and>
   use_permitted auth c opts \<and> contents_permitted auth c \<and>
   total c \<le> max_total (financial_scope auth)"
  by (rule evaluate_policy_cases [of E auth opts k c]; cases "use_permitted auth c opts")
    (auto simp: verdict_def evaluate_scopes_permitted evaluate_scopes_block evaluate_cart_allow)

lemma reconsent_char:
  "verdict (evaluate_policy E k auth c opts) = Inr RECONSENT \<longleftrightarrow>
   genuine E auth opts \<and> in_validity_window E auth (eval_now E k opts) \<and>
   use_permitted auth c opts \<and> contents_permitted auth c \<and>
   max_total (financial_scope auth) < total c \<and> max_total (financial_scope auth) \<noteq> 0"
  by (rule evaluate_policy_cases [of E auth opts k c]; cases "use_permitted auth c opts")
    (auto simp: verdict_def evaluate_scopes_permitted evaluate_scopes_block evaluate_cart_reconsent)

section \<open>Reasons\<close>

text \<open>What a reason asserts about the request.\<close>

fun cause :: "env \<Rightarrow> envelope \<Rightarrow> cart \<Rightarrow> eval_opts \<Rightarrow> datetime \<Rightarrow> reason \<Rightarrow> bool" where
  "cause E auth c opts now SIGNATURE_INVALID = (\<not> genuine E auth opts)"
| "cause E auth c opts now MANDATE_EXPIRED =
     (\<exists>x. parse_iso E (expires_at (temporal_scope auth)) = Inr x \<and> dt_less x now = Inr True)"
| "cause E auth c opts now NOT_YET_VALID =
     (\<exists>x. parse_iso E (issued_at (temporal_scope auth)) = Inr x \<and> dt_less now x = Inr True)"
| "cause E auth c opts now CURRENCY_MISMATCH = (cart_currency c \<noteq> currency (financial_scope auth))"
| "cause E auth c opts now MERCHANT_NOT_ALLOWED =
     (merchant_ids (merchant_scope auth) \<noteq> [] \<and> merchant_id c \<notin> set (merchant_ids (merchant_scope auth)))"
| "cause E auth c opts now NONCE_ALREADY_USED = nonce_already_used opts"
| "cause E auth c opts now MANDATE_EXHAUSTED =
     (max_transactions (execution_scope auth) \<le> max 0 (transactions_used opts))"
| "cause E auth c opts now MALFORMED_CART = (\<not> well_formed_cart c)"
| "cause E auth c opts now ZERO_BUDGET = (max_total (financial_scope auth) = 0 \<and> 0 < total c)"
| "cause E auth c opts now SKU_FORBIDDEN =
     list_ex (\<lambda>i. sku i \<in> set (forbidden_skus (product_scope auth))) (items c)"
| "cause E auth c opts now SKU_NOT_ALLOWED =
     (allowed_skus (product_scope auth) \<noteq> [] \<and> \<not> substitutions_allowed (product_scope auth) \<and>
      list_ex (\<lambda>i. sku i \<notin> set (allowed_skus (product_scope auth))) (items c))"
| "cause E auth c opts now SUBSTITUTION_NOT_ALLOWED =
     (allowed_skus (product_scope auth) \<noteq> [] \<and> substitutions_allowed (product_scope auth) \<and>
      list_ex (\<lambda>i. sku i \<notin> set (allowed_skus (product_scope auth)) \<and>
                   \<not> category_listed (product_scope auth) i) (items c))"
| "cause E auth c opts now TIPS_NOT_ALLOWED =
     (\<not> tips_allowed (financial_scope auth) \<and>
      list_ex (\<lambda>i. contains ''tip'' (py_lower (sku i))) (items c))"
| "cause E auth c opts now UNIT_PRICE_EXCEEDED =
     list_ex (\<lambda>i. case max_unit_price (financial_scope auth) of
                    None \<Rightarrow> False | Some cap \<Rightarrow> cap < unit_price i) (items c)"
| "cause E auth c opts now QUANTITY_EXCEEDED =
     (max_items (quantity_scope auth) < sum_list (map quantity (items c)))"
| "cause E auth c opts now MAX_TOTAL_EXCEEDED = (max_total (financial_scope auth) < total c)"
| "cause E auth c opts now MANDATE_REVOKED = False"
| "cause E auth c opts now NONE = True"

definition coherent :: "policy_result \<Rightarrow> bool" where
  "coherent r \<longleftrightarrow> (decision r = ALLOW \<longleftrightarrow> reason r = NONE) \<and>
     (decision r = RECONSENT \<longleftrightarrow> reason r = MAX_TOTAL_EXCEEDED)"

lemma check_item_cause:
  "check_item auth i = Some r \<Longrightarrow> i \<in> set (items c) \<Longrightarrow> cause E auth c opts now (reason r) \<and> coherent r"
  by (auto simp: check_item_def Let_def coherent_def list_ex_iff category_listed_def
      intro!: bexI [of _ i] split: option.splits if_splits)

lemma evaluate_cart_cause:
  "cause E auth c opts now (reason (evaluate_cart auth c)) \<and> coherent (evaluate_cart auth c)"
proof (rule check_items_cases [of auth "items c"])
  fix r i
  assume "check_items auth 0 (items c) = Inl r" "i \<in> set (items c)" "check_item auth i = Some r"
  then show ?thesis
    using check_item_cause [of auth i r c E opts now]
    by (auto simp: evaluate_cart_def Let_def coherent_def well_formed_cart_def
        negative_item_None_iff [symmetric] split: option.splits)
next
  assume "check_items auth 0 (items c) = Inr (sum_list (map quantity (items c)))"
  then show ?thesis
    by (auto simp: evaluate_cart_def Let_def coherent_def well_formed_cart_def
        negative_item_None_iff [symmetric] split: option.splits)
qed

lemma evaluate_scopes_cause:
  "cause E auth c opts now (reason (evaluate_scopes auth c opts)) \<and> coherent (evaluate_scopes auth c opts)"
proof (cases "use_permitted auth c opts")
  case True
  then show ?thesis using evaluate_cart_cause by (simp add: evaluate_scopes_permitted)
next
  case False
  then show ?thesis by (auto simp: evaluate_scopes_def use_permitted_def coherent_def)
qed

section \<open>Properties of the engine\<close>

text \<open>
  C6. The engine answers ALLOW exactly when the mandate is genuine, the clock is inside its
  window, this use of it is permitted (currency, merchant, fresh nonce, uses left), the
  contents are permitted (well-formed cart, every item in scope, quantity) and the total is
  within the budget.
\<close>

theorem evaluate_policy_allow_iff:
  "verdict (evaluate_policy E k auth c opts) = Inr ALLOW \<longleftrightarrow>
   genuine E auth opts \<and> in_validity_window E auth (eval_now E k opts) \<and>
   use_permitted auth c opts \<and> contents_permitted auth c \<and>
   total c \<le> max_total (financial_scope auth)"
  by (rule allow_char)

text \<open>
  RECONSENT is answered exactly when everything but the budget is in order, the total is
  over it, and the mandate's budget is not the zero budget.
\<close>

theorem evaluate_policy_reconsent_iff:
  "verdict (evaluate_policy E k auth c opts) = Inr RECONSENT \<longleftrightarrow>
   genuine E auth opts \<and> in_validity_window E auth (eval_now E k opts) \<and>
   use_permitted auth c opts \<and> contents_permitted auth c \<and>
   max_total (financial_scope auth) < total c \<and> max_total (financial_scope auth) \<noteq> 0"
  by (rule reconsent_char)

text \<open>
  C37. The reason the engine gives is true of the request, ALLOW comes with no reason, and
  RECONSENT with MAX_TOTAL_EXCEEDED only.
\<close>

theorem evaluate_policy_reason_true:
  "case evaluate_policy E k auth c opts of
     Inl e \<Rightarrow> True
   | Inr r \<Rightarrow> cause E auth c opts (eval_now E k opts) (reason r) \<and>
       (decision r = ALLOW \<longleftrightarrow> reason r = NONE) \<and>
       (decision r = RECONSENT \<longleftrightarrow> reason r = MAX_TOTAL_EXCEEDED)"
proof -
  have "cause E auth c opts (eval_now E k opts) (reason r) \<and> coherent r"
    if "evaluate_policy E k auth c opts = Inr r" for r
    using that evaluate_scopes_cause [of E auth c opts "eval_now E k opts"]
    by (auto simp: evaluate_policy_def eval_now_def genuine_def coherent_def Let_def
        simp del: dt_less.simps split: if_splits sum.splits bool.splits)
  then show ?thesis by (auto simp: coherent_def split: sum.splits)
qed



text \<open>Reordering the items of a cart changes no sum and no condition on items.\<close>

lemma sum_list_mset: "mset xs = mset ys \<Longrightarrow> sum_list (map f xs) = sum_list (map f ys)"
  for f :: "'a \<Rightarrow> int"
  by (metis mset_map sum_mset_sum_list)

lemma list_all_mset: "mset xs = mset ys \<Longrightarrow> list_all P xs = list_all P ys"
  by (metis list_all_iff set_mset_mset)

lemma contents_permitted_mset:
  assumes "mset is = mset (items c)"
  shows "contents_permitted auth (c\<lparr>items := is\<rparr>) = contents_permitted auth c"
  using sum_list_mset [OF assms] list_all_mset [OF assms]
  by (simp add: contents_permitted_def well_formed_cart_def computed_total_def)

lemma use_permitted_items: "use_permitted auth (c\<lparr>items := is\<rparr>) opts = use_permitted auth c opts"
  by (simp add: use_permitted_def)

text \<open>
  Neither ALLOW nor RECONSENT depends on the order in which the agent lists the items of
  the cart, although the engine stops at the first item it objects to.
\<close>

theorem evaluate_policy_item_order:
  assumes "mset is = mset (items c)" and "d \<noteq> BLOCK"
  shows "verdict (evaluate_policy E k auth (c\<lparr>items := is\<rparr>) opts) = Inr d \<longleftrightarrow>
    verdict (evaluate_policy E k auth c opts) = Inr d"
  using assms contents_permitted_mset [OF assms(1), of auth]
  by (cases d) (simp_all add: allow_char reconsent_char use_permitted_items)

text \<open>\<^verbatim>\<open>narrower xs ys\<close>: the scope list \<^verbatim>\<open>ys\<close> admits what \<^verbatim>\<open>xs\<close> admits; an empty list admits all.\<close>

definition narrower :: "string list \<Rightarrow> string list \<Rightarrow> bool" where
  "narrower xs ys \<longleftrightarrow> ys = [] \<or> xs \<noteq> [] \<and> set xs \<subseteq> set ys"

definition grants_less :: "envelope \<Rightarrow> envelope \<Rightarrow> bool" where
  "grants_less a b \<longleftrightarrow>
     (let p = product_scope a; q = product_scope b; f = financial_scope a; g = financial_scope b in
      currency f = currency g \<and> max_total f \<le> max_total g \<and>
      (case max_unit_price g of None \<Rightarrow> True
       | Some m \<Rightarrow> (case max_unit_price f of None \<Rightarrow> False | Some n \<Rightarrow> n \<le> m)) \<and>
      (tips_allowed f \<longrightarrow> tips_allowed g) \<and>
      narrower (merchant_ids (merchant_scope a)) (merchant_ids (merchant_scope b)) \<and>
      narrower (allowed_skus p) (allowed_skus q) \<and>
      narrower (allowed_categories p) (allowed_categories q) \<and>
      set (forbidden_skus q) \<subseteq> set (forbidden_skus p) \<and>
      (substitutions_allowed p \<longrightarrow> substitutions_allowed q) \<and>
      max_items (quantity_scope a) \<le> max_items (quantity_scope b) \<and>
      max_transactions (execution_scope a) \<le> max_transactions (execution_scope b))"

lemma category_listed_mono:
  "narrower (allowed_categories p) (allowed_categories q) \<Longrightarrow> category_listed p i \<Longrightarrow> category_listed q i"
  by (auto simp: narrower_def category_listed_def)

lemma item_permitted_mono: "grants_less a b \<Longrightarrow> item_permitted a i \<Longrightarrow> item_permitted b i"
  using category_listed_mono [of "product_scope a" "product_scope b" i]
  by (auto simp: grants_less_def item_permitted_def narrower_def Let_def split: option.splits)

lemma contents_permitted_mono: "grants_less a b \<Longrightarrow> contents_permitted a c \<Longrightarrow> contents_permitted b c"
  using item_permitted_mono [of a b]
  by (auto simp: contents_permitted_def list_all_iff grants_less_def Let_def)

lemma use_permitted_mono: "grants_less a b \<Longrightarrow> use_permitted a c opts \<Longrightarrow> use_permitted b c opts"
  by (auto simp: grants_less_def use_permitted_def narrower_def Let_def)

text \<open>
  C36. Delegation is monotone: what a mandate allows, every genuine mandate that grants at
  least as much (and is inside its window) allows too, so narrowing a mandate can never turn
  a refusal into an ALLOW.
\<close>

theorem evaluate_policy_monotone:
  assumes "grants_less a b" and "genuine E b opts" and "in_validity_window E b (eval_now E k opts)"
    and "verdict (evaluate_policy E k a c opts) = Inr ALLOW"
  shows "verdict (evaluate_policy E k b c opts) = Inr ALLOW"
  using assms contents_permitted_mono [OF assms(1)] use_permitted_mono [OF assms(1)]
  by (auto simp: allow_char grants_less_def Let_def)

text \<open>Mandates that check items alike run the loop alike.\<close>

lemma check_items_cong:
  assumes "\<And>i. check_item a i = check_item b i"
  shows "check_items a n is = check_items b n is"
  by (induction "is" arbitrary: n) (simp_all add: assms split: option.split)

lemma evaluate_cart_cong:
  assumes "\<And>i. check_item a i = check_item b i"
    and "max_total (financial_scope a) = max_total (financial_scope b)"
    and "max_items (quantity_scope a) = max_items (quantity_scope b)"
  shows "evaluate_cart a c = evaluate_cart b c"
  by (simp only: evaluate_cart_def Let_def check_items_cong [of a b, OF assms(1)] assms(2,3))

text \<open>
  Four signed terms of the mandate are read by no check: merchant categories, whether
  shipping and tax are included, and whether the mandate is reusable.
\<close>

theorem evaluate_policy_unread_terms:
  "evaluate_policy E k
     (auth\<lparr>merchant_scope := (merchant_scope auth)\<lparr>merchant_categories := cats\<rparr>,
           financial_scope := (financial_scope auth)\<lparr>shipping_included := s, tax_included := t\<rparr>,
           execution_scope := (execution_scope auth)\<lparr>reusable := r\<rparr>\<rparr>)
     c (opts\<lparr>skip_signature_check := True\<rparr>) =
   evaluate_policy E k auth c (opts\<lparr>skip_signature_check := True\<rparr>)"
proof -
  let ?b = "auth\<lparr>merchant_scope := (merchant_scope auth)\<lparr>merchant_categories := cats\<rparr>,
           financial_scope := (financial_scope auth)\<lparr>shipping_included := s, tax_included := t\<rparr>,
           execution_scope := (execution_scope auth)\<lparr>reusable := r\<rparr>\<rparr>"
  have item: "check_item ?b i = check_item auth i" for i by (simp add: check_item_def Let_def)
  have "evaluate_cart ?b c = evaluate_cart auth c"
    by (rule evaluate_cart_cong) (simp_all add: item)
  then show ?thesis
    by (simp add: evaluate_policy_def evaluate_scopes_def Let_def del: dt_less.simps
        split: sum.split bool.split)
qed

text \<open>
  The allowed categories of a mandate restrict nothing unless it also lists SKUs: with
  an open SKU list every mandate decides as if it listed no category.
\<close>

theorem evaluate_policy_open_sku_list:
  "evaluate_policy E k
     (auth\<lparr>product_scope := (product_scope auth)\<lparr>allowed_skus := [], allowed_categories := cats\<rparr>\<rparr>)
     c (opts\<lparr>skip_signature_check := True\<rparr>) =
   evaluate_policy E k
     (auth\<lparr>product_scope := (product_scope auth)\<lparr>allowed_skus := [], allowed_categories := []\<rparr>\<rparr>)
     c (opts\<lparr>skip_signature_check := True\<rparr>)"
proof -
  let ?m = "\<lambda>cs. auth\<lparr>product_scope := (product_scope auth)\<lparr>allowed_skus := [], allowed_categories := cs\<rparr>\<rparr>"
  have item: "check_item (?m cats) i = check_item (?m []) i" for i
    by (simp add: check_item_def Let_def)
  have "evaluate_cart (?m cats) c = evaluate_cart (?m []) c"
    by (rule evaluate_cart_cong) (simp_all add: item)
  then show ?thesis
    by (simp add: evaluate_policy_def evaluate_scopes_def Let_def del: dt_less.simps
        split: sum.split bool.split)
qed

text \<open>
  The tip check is a substring test: a SKU with the letters tip anywhere in it, in any
  case, is refused as a tip by a mandate without tips even when the mandate lists the SKU.
\<close>

theorem tip_substring_blocks:
  assumes "py_lower (sku i) = a @ ''tip'' @ b" and "\<not> tips_allowed (financial_scope auth)"
    and "sku i \<in> set (allowed_skus (product_scope auth))"
    and "sku i \<notin> set (forbidden_skus (product_scope auth))"
  shows "check_item auth i =
    Some (block TIPS_NOT_ALLOWED ''Tips/gratuity are not authorized by this mandate.'')"
proof -
  have "contains ''tip'' (py_lower (sku i))"
    using assms(1) unfolding contains_iff by blast
  with assms(2-4) show ?thesis by (auto simp: check_item_def Let_def)
qed


section \<open>Witnesses\<close>

lemma demo_verdict: "verdict (evaluate_policy demo_env 0 demo_mandate demo_cart default_opts) = Inr ALLOW"
  by (simp add: verdict_def demo_allowed)

text \<open>Two lines of chairs, in either order.\<close>

definition demo_two_items :: "cart_item list" where
  "demo_two_items =
     [\<lparr>sku = ''CHAIR1'', unit_price = 7500, quantity = 1, category = None\<rparr>,
      \<lparr>sku = ''CHAIR1'', unit_price = 7500, quantity = 2, category = Some ''chair''\<rparr>]"

theorem evaluate_policy_item_order_witness:
  "verdict (evaluate_policy demo_env 0 demo_mandate (demo_cart\<lparr>items := rev demo_two_items\<rparr>) default_opts)
     = Inr ALLOW \<longleftrightarrow>
   verdict (evaluate_policy demo_env 0 demo_mandate (demo_cart\<lparr>items := demo_two_items\<rparr>) default_opts)
     = Inr ALLOW"
  using evaluate_policy_item_order
    [of "rev demo_two_items" "demo_cart\<lparr>items := demo_two_items\<rparr>" ALLOW demo_env 0 demo_mandate default_opts]
  by simp

text \<open>The same mandate with a smaller budget grants less.\<close>

definition demo_small_mandate :: envelope where
  "demo_small_mandate =
     demo_mandate\<lparr>financial_scope := (financial_scope demo_mandate)\<lparr>max_total := 24000\<rparr>\<rparr>"

theorem evaluate_policy_monotone_witness:
  "verdict (evaluate_policy demo_env 0 demo_mandate demo_cart default_opts) = Inr ALLOW"
proof (rule evaluate_policy_monotone [of demo_small_mandate])
  have demo: "genuine demo_env demo_mandate default_opts"
    "in_validity_window demo_env demo_mandate (eval_now demo_env 0 default_opts)"
    "use_permitted demo_mandate demo_cart default_opts" "contents_permitted demo_mandate demo_cart"
    using demo_verdict by (simp_all add: allow_char)
  then show "genuine demo_env demo_mandate default_opts"
    and "in_validity_window demo_env demo_mandate (eval_now demo_env 0 default_opts)"
    by auto
  show "grants_less demo_small_mandate demo_mandate"
    by (simp add: grants_less_def demo_small_mandate_def demo_mandate_def narrower_def)
  have "genuine demo_env demo_small_mandate default_opts"
    using demo_signature_ok
    by (simp add: genuine_def signature_ok_def demo_small_mandate_def opts_public_key_def
        default_opts_def truthy_def demo_env_def demo_mandate_def compute_evidence_hash_def)
  with demo show "verdict (evaluate_policy demo_env 0 demo_small_mandate demo_cart default_opts) = Inr ALLOW"
    by (simp add: allow_char in_validity_window_def use_permitted_def contents_permitted_def
        item_permitted_def category_listed_def demo_small_mandate_def demo_cart_def Let_def)
qed

text \<open>A multipack is not a tip.\<close>

definition multipack :: cart_item where
  "multipack = \<lparr>sku = ''MULTIPACK-6'', unit_price = 100, quantity = 1, category = None\<rparr>"

definition multipack_mandate :: envelope where
  "multipack_mandate =
     demo_mandate\<lparr>product_scope := (product_scope demo_mandate)\<lparr>allowed_skus := [''MULTIPACK-6'']\<rparr>\<rparr>"

theorem tip_substring_blocks_witness:
  "check_item multipack_mandate multipack =
   Some (block TIPS_NOT_ALLOWED ''Tips/gratuity are not authorized by this mandate.'')"
proof (rule tip_substring_blocks)
  show "py_lower (sku multipack) = ''mul'' @ ''tip'' @ ''ack-6''" by code_simp
qed (simp_all add: multipack_def multipack_mandate_def demo_mandate_def)

end
