(* ===== verification/Rate_Limit.thy ===== *)
theory Rate_Limit
  imports Complex_Main Env
begin

text \<open>
  The fixed-window admission limiter of app/rate_limit.py and its ASGI middleware. Time is
  the monotonic clock in seconds, an exact rational. The quota argument is made once, in the
  locale \<^verbatim>\<open>fixed_window\<close>, and interpreted twice: for one client's counter and for the worker's
  global counter.
\<close>

section \<open>The limiter\<close>

text \<open>\<^verbatim>\<open>_clients\<close> is an \<^verbatim>\<open>OrderedDict\<close>: its items in insertion order.\<close>

record limiter =
  per_client :: int
  global_limit :: int
  window_seconds :: int
  max_clients :: int
  clients :: "(string \<times> rat \<times> int) list"
  global_reset :: rat
  global_count :: int

definition new_limiter :: "int \<Rightarrow> int \<Rightarrow> int \<Rightarrow> int \<Rightarrow> exn + limiter" where
  "new_limiter per_cl glob window max_cl =
     (if list_ex (\<lambda>v. v \<le> 0) [per_cl, glob, window, max_cl] then Inl ValueError
      else Inr \<lparr>per_client = per_cl, global_limit = glob, window_seconds = window,
                max_clients = max_cl, clients = [], global_reset = 0, global_count = 0\<rparr>)"

text \<open>The cleanup loop: drop entries from the front until one is still running.\<close>

fun drop_expired :: "rat \<Rightarrow> (string \<times> rat \<times> int) list \<Rightarrow> (string \<times> rat \<times> int) list" where
  "drop_expired now [] = []"
| "drop_expired now ((c, reset, n) # rest) =
     (if reset > now then (c, reset, n) # rest else drop_expired now rest)"

text \<open>\<^verbatim>\<open>d[k] = v\<close> on an \<^verbatim>\<open>OrderedDict\<close>: in place for a known key, at the end for a new one.\<close>

fun od_set :: "string \<Rightarrow> 'v \<Rightarrow> (string \<times> 'v) list \<Rightarrow> (string \<times> 'v) list" where
  "od_set k v [] = [(k, v)]"
| "od_set k v ((l, w) # rest) = (if l = k then (k, v) # rest else (l, w) # od_set k v rest)"

definition retry_delay :: "rat \<Rightarrow> rat \<Rightarrow> int" where
  "retry_delay reset now = max 1 \<lceil>reset - now\<rceil>"

text \<open>
  \<^verbatim>\<open>admit\<close>: \<^verbatim>\<open>None\<close> admits, \<^verbatim>\<open>Some s\<close> rejects with Retry-After \<^verbatim>\<open>s\<close>. Reading the oldest entry
  of an empty dictionary would raise; \<^verbatim>\<open>admit_returns\<close> shows that it cannot happen.
\<close>

definition admit :: "limiter \<Rightarrow> string \<Rightarrow> rat \<Rightarrow> (exn + int option) \<times> limiter" where
  "admit l client now =
     (let live = drop_expired now (clients l);
          fresh = (now \<ge> global_reset l);
          g_reset = (if fresh then now + of_int (window_seconds l) else global_reset l);
          g_count = (if fresh then 0 else global_count l);
          l1 = l\<lparr>clients := live, global_reset := g_reset, global_count := g_count\<rparr>
      in if g_count \<ge> global_limit l then (Inr (Some (retry_delay g_reset now)), l1)
         else
           let l2 = l1\<lparr>global_count := g_count + 1\<rparr> in
           case map_of live client of
             None \<Rightarrow>
               if int (length live) \<ge> max_clients l then
                 (case live of
                    [] \<Rightarrow> (Inl StopIteration, l2)
                  | (_, reset, _) # _ \<Rightarrow> (Inr (Some (retry_delay reset now)), l2))
               else if 0 \<ge> per_client l then
                 (Inr (Some (retry_delay (now + of_int (window_seconds l)) now)), l2)
               else (Inr None, l2\<lparr>clients := od_set client (now + of_int (window_seconds l), 0 + 1) live\<rparr>)
           | Some (reset, count) \<Rightarrow>
               if count \<ge> per_client l then (Inr (Some (retry_delay reset now)), l2)
               else (Inr None, l2\<lparr>clients := od_set client (reset, count + 1) live\<rparr>))"

section \<open>The middleware\<close>

record asgi_scope =
  sc_type :: string
  sc_method :: string
  sc_path :: string
  sc_root_path :: string
  sc_client :: "string option"

record rate_response =
  rr_status :: nat
  rr_headers :: "(string \<times> string) list"
  rr_content :: json

definition effective_path :: "asgi_scope \<Rightarrow> string" where
  "effective_path scope =
     (let path = sc_path scope; root = sc_root_path scope
      in if root \<noteq> [] \<and> starts_with path (root @ ''/'') then drop (length root) path else path)"

definition is_limited :: "asgi_scope \<Rightarrow> bool" where
  "is_limited scope =
     (sc_type scope = ''http'' \<and> sc_method scope = ''POST'' \<and>
      rstrip_char CHR ''/'' (effective_path scope) = ''/agent/request'')"

definition too_many_requests :: "int \<Rightarrow> rate_response" where
  "too_many_requests retry_after =
     \<lparr>rr_status = 429,
      rr_headers = [(''Retry-After'', show_int retry_after), (''Cache-Control'', ''no-store'')],
      rr_content = JObj [(''detail'', JObj
        [(''reason'', JStr ''RATE_LIMIT_EXCEEDED''),
         (''message'', JStr (''Too many agent requests. Retry in '' @ show_int retry_after @ '' seconds.'')),
         (''retry_after'', JInt retry_after)])]\<rparr>"

text \<open>\<^verbatim>\<open>Inr None\<close>: the request goes on to the application.\<close>

definition rate_limit_middleware ::
  "limiter \<Rightarrow> asgi_scope \<Rightarrow> rat \<Rightarrow> (exn + rate_response option) \<times> limiter" where
  "rate_limit_middleware l scope now =
     (if is_limited scope then
        (let client = (case sc_client scope of Some peer \<Rightarrow> peer | None \<Rightarrow> ''unknown-peer'')
         in case admit l client now of
              (Inl e, l') \<Rightarrow> (Inl e, l')
            | (Inr None, l') \<Rightarrow> (Inr None, l')
            | (Inr (Some retry_after), l') \<Rightarrow> (Inr (Some (too_many_requests retry_after)), l'))
      else (Inr None, l))"

section \<open>The invariant\<close>

text \<open>
  \<^verbatim>\<open>limiter_inv t l\<close>, with \<^verbatim>\<open>t\<close> the time of the last call: positive limits, one entry per
  client, entries ordered by expiry and expiring within one window, counts within the quota,
  no more entries than the capacity.
\<close>

definition limiter_inv :: "rat \<Rightarrow> limiter \<Rightarrow> bool" where
  "limiter_inv t l \<longleftrightarrow>
     0 < per_client l \<and> 0 < global_limit l \<and> 0 < window_seconds l \<and> 0 < max_clients l \<and>
     distinct (map fst (clients l)) \<and> sorted (map (fst \<circ> snd) (clients l)) \<and>
     (\<forall>(c, r, n) \<in> set (clients l). r \<le> t + of_int (window_seconds l) \<and> 1 \<le> n \<and> n \<le> per_client l) \<and>
     int (length (clients l)) \<le> max_clients l \<and>
     global_reset l \<le> t + of_int (window_seconds l) \<and> 0 \<le> global_count l \<and> global_count l \<le> global_limit l"

text \<open>On ordered entries the loop that looks at the front removes every expired entry.\<close>

lemma drop_expired_filter:
  "sorted (map (fst \<circ> snd) es) \<Longrightarrow> drop_expired now es = filter (\<lambda>(c, r, n). r > now) es"
proof (induction now es rule: drop_expired.induct)
  case (2 now c reset n rest)
  show ?case
  proof (cases "now < reset")
    case True
    with "2.prems" have "filter (\<lambda>(c, r, n). r > now) rest = rest"
      by (force intro: filter_True)
    with True show ?thesis by simp
  next
    case False
    with 2 show ?thesis by simp
  qed
qed simp

lemma od_set_new: "k \<notin> fst ` set es \<Longrightarrow> od_set k v es = es @ [(k, v)]"
  by (induction es) auto

lemma map_replace_fresh: "k \<notin> fst ` set es \<Longrightarrow> map (\<lambda>(l, w). if l = k then (l, v) else (l, w)) es = es"
  by (induction es) auto

lemma od_set_known:
  "distinct (map fst es) \<Longrightarrow> k \<in> fst ` set es \<Longrightarrow> od_set k v es = map (\<lambda>(l, w). if l = k then (l, v) else (l, w)) es"
proof (induction es)
  case (Cons e es)
  then show ?case
    by (cases e; cases "fst e = k") (auto simp: map_replace_fresh)
qed simp

lemma map_of_od_set: "map_of (od_set k v es) = (map_of es)(k \<mapsto> v)"
  by (induction es) (auto simp: fun_upd_twist)


text \<open>What the entries that survive the cleanup satisfy at the time of the call.\<close>

definition entries_ok :: "rat \<Rightarrow> limiter \<Rightarrow> (string \<times> rat \<times> int) list \<Rightarrow> bool" where
  "entries_ok t l es \<longleftrightarrow>
     distinct (map fst es) \<and> sorted (map (fst \<circ> snd) es) \<and>
     (\<forall>(c, r, n) \<in> set es. r \<le> t + of_int (window_seconds l) \<and> 1 \<le> n \<and> n \<le> per_client l) \<and>
     int (length es) \<le> max_clients l"

lemma limiter_inv_iff:
  "limiter_inv t l \<longleftrightarrow>
     0 < per_client l \<and> 0 < global_limit l \<and> 0 < window_seconds l \<and> 0 < max_clients l \<and>
     entries_ok t l (clients l) \<and>
     global_reset l \<le> t + of_int (window_seconds l) \<and> 0 \<le> global_count l \<and> global_count l \<le> global_limit l"
  by (auto simp: limiter_inv_def entries_ok_def)

lemma entries_ok_drop:
  assumes "entries_ok t l es" and "t \<le> now"
  shows "entries_ok now l (drop_expired now es)" and "(c, r, n) \<in> set (drop_expired now es) \<Longrightarrow> now < r"
proof -
  have d: "drop_expired now es = filter (\<lambda>(c, r, n). r > now) es"
    using assms(1) by (intro drop_expired_filter) (simp add: entries_ok_def)
  have "sorted (map (fst \<circ> snd) (filter (\<lambda>(c, r, n). r > now) es))"
    using assms(1) by (simp add: entries_ok_def sorted_map sorted_wrt_filter)
  moreover have "int (length (filter (\<lambda>(c, r, n). r > now) es)) \<le> max_clients l"
    using assms(1) length_filter_le [of "\<lambda>(c, r, n). r > now" es] unfolding entries_ok_def by linarith
  moreover have "distinct (map fst (filter (\<lambda>(c, r, n). r > now) es))"
    using assms(1) by (simp add: entries_ok_def distinct_map_filter)
  moreover have "\<forall>(c, r, n)\<in>set es. r \<le> now + of_int (window_seconds l) \<and> 1 \<le> n \<and> n \<le> per_client l"
    using assms by (fastforce simp: entries_ok_def)
  ultimately show "entries_ok now l (drop_expired now es)"
    unfolding entries_ok_def d by simp
  show "now < r" if "(c, r, n) \<in> set (drop_expired now es)"
    using that by (simp add: d)
qed

lemma entries_ok_new:
  assumes "entries_ok now l es" and "c \<notin> fst ` set es" and "int (length es) < max_clients l"
    and "0 < per_client l"
  shows "entries_ok now l (od_set c (now + of_int (window_seconds l), 1) es)"
  using assms by (force simp: entries_ok_def od_set_new sorted_append)

lemma entries_ok_count:
  assumes "entries_ok now l es" and "(c, r, n) \<in> set es" and "n < per_client l"
  shows "entries_ok now l (od_set c (r, n + 1) es)"
proof -
  let ?f = "\<lambda>(k, w). if k = c then (k, r, n + 1) else (k, w)"
  have d: "distinct (map fst es)" using assms(1) by (simp add: entries_ok_def)
  have eq: "od_set c (r, n + 1) es = map ?f es"
    by (rule od_set_known [OF d]) (use assms(2) in force)
  have same: "fst (?f e) = fst e \<and> fst (snd (?f e)) = fst (snd e)" if "e \<in> set es" for e
  proof -
    obtain k r' n' where e: "e = (k, r', n')" by (cases e)
    with that assms(2) d show ?thesis by (auto dest: eq_key_imp_eq_value)
  qed
  have keys: "map fst (map ?f es) = map fst es" and resets: "map (fst \<circ> snd) (map ?f es) = map (fst \<circ> snd) es"
    using same by auto
  have bound: "r' \<le> now + of_int (window_seconds l) \<and> 1 \<le> n' \<and> n' \<le> per_client l"
    if "(k, r', n') \<in> set es" for k r' n'
    using assms(1) that by (auto simp: entries_ok_def)
  have "case ?f e of (k, r', n') \<Rightarrow> r' \<le> now + of_int (window_seconds l) \<and> 1 \<le> n' \<and> n' \<le> per_client l"
    if e: "e \<in> set es" for e
  proof -
    obtain k r' n' where "e = (k, r', n')" by (cases e)
    with bound [of k r' n'] bound [OF assms(2)] assms(3) e show ?thesis by auto
  qed
  then have bounds: "\<forall>(k, r', n') \<in> set (map ?f es). r' \<le> now + of_int (window_seconds l) \<and> 1 \<le> n' \<and> n' \<le> per_client l"
    by simp
  show ?thesis
    unfolding entries_ok_def eq keys resets
    using assms(1) bounds by (simp only: entries_ok_def length_map simp_thms)
qed

text \<open>
  One call, taken apart. \<^verbatim>\<open>rolled\<close> is the limiter after the cleanup and the possible start of
  a new global window, \<^verbatim>\<open>attempted\<close> the same with the attempt counted.
\<close>

definition rolled :: "limiter \<Rightarrow> rat \<Rightarrow> limiter" where
  "rolled l now = l\<lparr>clients := drop_expired now (clients l),
     global_reset := (if now \<ge> global_reset l then now + of_int (window_seconds l) else global_reset l),
     global_count := (if now \<ge> global_reset l then 0 else global_count l)\<rparr>"

definition attempted :: "limiter \<Rightarrow> rat \<Rightarrow> limiter" where
  "attempted l now = (rolled l now)\<lparr>global_count := global_count (rolled l now) + 1\<rparr>"

lemma rolled_simps [simp]:
  "per_client (rolled l now) = per_client l" "global_limit (rolled l now) = global_limit l"
  "window_seconds (rolled l now) = window_seconds l" "max_clients (rolled l now) = max_clients l"
  "per_client (attempted l now) = per_client l" "global_limit (attempted l now) = global_limit l"
  "window_seconds (attempted l now) = window_seconds l" "max_clients (attempted l now) = max_clients l"
  "clients (attempted l now) = clients (rolled l now)" "global_reset (attempted l now) = global_reset (rolled l now)"
  "global_count (attempted l now) = global_count (rolled l now) + 1"
  by (simp_all add: rolled_def attempted_def)

lemma admit_unfold:
  "admit l c now =
     (let m = rolled l now; a = attempted l now in
      if global_count m \<ge> global_limit l then (Inr (Some (retry_delay (global_reset m) now)), m)
      else case map_of (clients m) c of
          None \<Rightarrow>
            if int (length (clients m)) \<ge> max_clients l then
              (case clients m of
                 [] \<Rightarrow> (Inl StopIteration, a)
               | (_, reset, _) # _ \<Rightarrow> (Inr (Some (retry_delay reset now)), a))
            else if 0 \<ge> per_client l then
              (Inr (Some (retry_delay (now + of_int (window_seconds l)) now)), a)
            else (Inr None, a\<lparr>clients := od_set c (now + of_int (window_seconds l), 1) (clients m)\<rparr>)
        | Some (reset, n) \<Rightarrow>
            if n \<ge> per_client l then (Inr (Some (retry_delay reset now)), a)
            else (Inr None, a\<lparr>clients := od_set c (reset, n + 1) (clients m)\<rparr>))"
  by (simp add: admit_def rolled_def attempted_def Let_def del: od_set.simps
      split: option.split list.split cong: if_cong)

lemma rolled_inv:
  assumes "limiter_inv t l" and "t \<le> now"
  shows "limiter_inv now (rolled l now)" and "(c, r, n) \<in> set (clients (rolled l now)) \<Longrightarrow> now < r"
    and "now < global_reset (rolled l now)"
proof -
  have "entries_ok now l (drop_expired now (clients l))"
    using assms by (intro entries_ok_drop) (auto simp: limiter_inv_iff)
  with assms show "limiter_inv now (rolled l now)"
    by (auto simp: limiter_inv_iff entries_ok_def rolled_def)
  show "(c, r, n) \<in> set (clients (rolled l now)) \<Longrightarrow> now < r"
    using assms entries_ok_drop(2) by (auto simp: limiter_inv_iff rolled_def)
  show "now < global_reset (rolled l now)"
    using assms by (auto simp: rolled_def limiter_inv_iff)
qed

lemma admit_cases:
  assumes "limiter_inv t l" and "t \<le> now"
  obtains
    (global) "global_count (rolled l now) \<ge> global_limit l"
      "admit l c now = (Inr (Some (retry_delay (global_reset (rolled l now)) now)), rolled l now)"
  | (capacity) c0 r0 n0 where "global_count (rolled l now) < global_limit l"
      "map_of (clients (rolled l now)) c = None" "(c0, r0, n0) \<in> set (clients (rolled l now))"
      "admit l c now = (Inr (Some (retry_delay r0 now)), attempted l now)"
  | (first) "global_count (rolled l now) < global_limit l"
      "map_of (clients (rolled l now)) c = None" "int (length (clients (rolled l now))) < max_clients l"
      "admit l c now = (Inr None, (attempted l now)\<lparr>clients :=
         od_set c (now + of_int (window_seconds l), 1) (clients (rolled l now))\<rparr>)"
  | (limited) r n where "global_count (rolled l now) < global_limit l"
      "map_of (clients (rolled l now)) c = Some (r, n)" "n \<ge> per_client l"
      "admit l c now = (Inr (Some (retry_delay r now)), attempted l now)"
  | (counted) r n where "global_count (rolled l now) < global_limit l"
      "map_of (clients (rolled l now)) c = Some (r, n)" "n < per_client l"
      "admit l c now = (Inr None, (attempted l now)\<lparr>clients :=
         od_set c (r, n + 1) (clients (rolled l now))\<rparr>)"
proof -
  have pos: "0 < max_clients l" "0 < per_client l"
    using assms by (auto simp: limiter_inv_iff)
  consider "global_count (rolled l now) \<ge> global_limit l"
    | "global_count (rolled l now) < global_limit l" "map_of (clients (rolled l now)) c = None"
    | r n where "global_count (rolled l now) < global_limit l" "map_of (clients (rolled l now)) c = Some (r, n)"
    by (metis not_le option.exhaust surj_pair)
  then show thesis
  proof cases
    case 1
    then show ?thesis by (intro global) (simp_all add: admit_unfold Let_def)
  next
    case 2
    show ?thesis
    proof (cases "int (length (clients (rolled l now))) \<ge> max_clients l")
      case True
      with pos obtain c0 r0 n0 rest where "clients (rolled l now) = (c0, r0, n0) # rest"
        by (cases "clients (rolled l now)") auto
      with 2 True show ?thesis by (intro capacity) (auto simp: admit_unfold Let_def)
    next
      case False
      with 2 pos show ?thesis by (intro first) (auto simp: admit_unfold Let_def)
    qed
  next
    case 3
    then show ?thesis
      by (cases "n \<ge> per_client l") (auto simp: admit_unfold Let_def intro: limited counted)
  qed
qed

lemma admit_limits:
  "per_client (snd (admit l c now)) = per_client l" "global_limit (snd (admit l c now)) = global_limit l"
  "window_seconds (snd (admit l c now)) = window_seconds l" "max_clients (snd (admit l c now)) = max_clients l"
  by (auto simp: admit_unfold Let_def split: option.splits list.splits)

lemma limiter_inv_clients:
  "limiter_inv t l \<Longrightarrow> 0 \<le> g \<Longrightarrow> g \<le> global_limit l \<Longrightarrow> entries_ok t l es \<Longrightarrow>
   limiter_inv t (l\<lparr>global_count := g, clients := es\<rparr>)"
  by (simp add: limiter_inv_iff entries_ok_def)

lemma limiter_inv_count:
  "limiter_inv t l \<Longrightarrow> 0 \<le> g \<Longrightarrow> g \<le> global_limit l \<Longrightarrow> limiter_inv t (l\<lparr>global_count := g\<rparr>)"
  by (simp add: limiter_inv_iff entries_ok_def)

lemma admit_inv:
  assumes "limiter_inv t l" and "t \<le> now"
  shows "limiter_inv now (snd (admit l c now))"
proof -
  let ?m = "rolled l now"
  have m: "limiter_inv now ?m" by (rule rolled_inv(1) [OF assms])
  then have ok: "entries_ok now ?m (clients ?m)" "0 < per_client l" "0 \<le> global_count ?m"
    by (simp_all add: limiter_inv_iff)
  have a: "attempted l now = ?m\<lparr>global_count := global_count ?m + 1\<rparr>"
    by (simp add: attempted_def)
  have new: "entries_ok now ?m (od_set c (now + of_int (window_seconds l), 1) (clients ?m))"
    if "map_of (clients ?m) c = None" "int (length (clients ?m)) < max_clients l"
    using entries_ok_new [OF ok(1)] that ok(2) by (simp add: map_of_eq_None_iff)
  have more: "entries_ok now ?m (od_set c (r, n + 1) (clients ?m))"
    if "map_of (clients ?m) c = Some (r, n)" "n < per_client l" for r n
    using entries_ok_count [OF ok(1) map_of_SomeD [OF that(1)]] that(2) by simp
  show ?thesis
    by (rule admit_cases [OF assms, of c])
      (use m ok new more in \<open>auto simp: a intro!: limiter_inv_clients limiter_inv_count\<close>)
qed


section \<open>Fixed windows in general\<close>

text \<open>
  \<^verbatim>\<open>running win t s\<close> is the window of the state that has not expired at time \<^verbatim>\<open>t\<close>: its expiry
  and the number of counted events. \<^verbatim>\<open>count_steps\<close> counts the events that a run counts.
\<close>

definition running :: "('s \<Rightarrow> (rat \<times> int) option) \<Rightarrow> rat \<Rightarrow> 's \<Rightarrow> (rat \<times> int) option" where
  "running win t s =
     (case win s of None \<Rightarrow> None | Some (r, n) \<Rightarrow> if t < r then Some (r, n) else None)"

fun count_steps :: "('s \<Rightarrow> 'e \<Rightarrow> bool \<times> 's) \<Rightarrow> 's \<Rightarrow> 'e list \<Rightarrow> int" where
  "count_steps step s [] = 0"
| "count_steps step s (e # es) =
     (if fst (step s e) then 1 else 0) + count_steps step (snd (step s e)) es"

locale fixed_window =
  fixes step :: "'s \<Rightarrow> 'e \<Rightarrow> bool \<times> 's"
    and time :: "'e \<Rightarrow> rat"
    and win :: "'s \<Rightarrow> (rat \<times> int) option"
    and quota :: "'s \<Rightarrow> int"
    and width :: "'s \<Rightarrow> rat"
    and ok :: "rat \<Rightarrow> 's \<Rightarrow> bool"
  assumes ok_step: "ok t s \<Longrightarrow> t \<le> time e \<Longrightarrow> ok (time e) (snd (step s e))"
    and quota_step: "quota (snd (step s e)) = quota s"
    and width_step: "width (snd (step s e)) = width s"
    and count_bounds: "ok t s \<Longrightarrow> running win t s = Some (r, n) \<Longrightarrow> 0 \<le> n \<and> n \<le> quota s"
    and quota_pos: "ok t s \<Longrightarrow> 0 < quota s"
    and step_running: "ok t s \<Longrightarrow> t \<le> time e \<Longrightarrow> running win (time e) s = Some (r, n) \<Longrightarrow>
      running win (time e) (snd (step s e)) = Some (r, if fst (step s e) then n + 1 else n)"
    and step_idle: "ok t s \<Longrightarrow> t \<le> time e \<Longrightarrow> running win (time e) s = None \<Longrightarrow>
      running win (time e) (snd (step s e)) =
        (if fst (step s e) then Some (time e + width s, 1) else None)"
begin

text \<open>What can still be counted before the horizon \<^verbatim>\<open>h\<close>.\<close>

definition allowance :: "rat \<Rightarrow> rat \<Rightarrow> 's \<Rightarrow> int" where
  "allowance h t s =
     (case running win t s of
        None \<Rightarrow> quota s
      | Some (r, n) \<Rightarrow> if h \<le> r then quota s - n else 2 * quota s - n)"

lemma allowance_later:
  assumes "ok t s" and "t \<le> t'" and "t' < h"
  shows "allowance h t' s \<le> allowance h t s"
proof (cases "running win t s")
  case None
  with assms(2) have "running win t' s = None"
    by (auto simp: running_def split: option.splits if_splits)
  with None show ?thesis by (simp add: allowance_def)
next
  case (Some w)
  obtain r n where w: "w = (r, n)" by (cases w)
  then have "win s = Some (r, n)" using Some by (auto simp: running_def split: option.splits if_splits)
  then have "running win t' s = (if t' < r then Some (r, n) else None)" by (simp add: running_def)
  with Some w count_bounds [OF assms(1)] assms(3) show ?thesis by (auto simp: allowance_def)
qed

lemma allowance_step:
  assumes "ok t s" and "t \<le> time e" and "h \<le> time e + width s"
  shows "allowance h (time e) (snd (step s e)) + (if fst (step s e) then 1 else 0) \<le> allowance h (time e) s"
  using step_running [OF assms(1,2)] step_idle [OF assms(1,2)] assms(3)
  by (cases "running win (time e) s") (auto simp: allowance_def quota_step)

lemma count_allowance:
  assumes "ok t s" and "sorted (map time es)"
    and "\<forall>e\<in>set es. t \<le> time e \<and> t0 \<le> time e \<and> time e < t0 + width s"
  shows "count_steps step s es \<le> allowance (t0 + width s) t s"
  using assms
proof (induction es arbitrary: s t)
  case Nil
  then have "0 \<le> allowance (t0 + width s) t s"
    using count_bounds [OF Nil(1)] quota_pos [OF Nil(1)]
    by (fastforce simp: allowance_def split: option.split)
  then show ?case by simp
next
  case (Cons e es)
  let ?h = "t0 + width s" and ?s = "snd (step s e)"
  have te: "t \<le> time e" "t0 \<le> time e" "time e < ?h" using Cons.prems(3) by auto
  have "count_steps step ?s es \<le> allowance (t0 + width ?s) (time e) ?s"
    using Cons.prems by (intro Cons.IH ok_step [OF Cons.prems(1) te(1)]) (auto simp: width_step)
  moreover have "allowance ?h (time e) ?s + (if fst (step s e) then 1 else 0) \<le> allowance ?h (time e) s"
    using te by (intro allowance_step [OF Cons.prems(1)]) auto
  moreover have "allowance ?h (time e) s \<le> allowance ?h t s"
    using te by (intro allowance_later [OF Cons.prems(1)]) auto
  ultimately show ?case by (simp add: width_step)
qed

text \<open>A burst over the end of a window is bounded by two quotas, a fresh start by one.\<close>

lemma burst_bound:
  assumes "ok t s" and "sorted (map time es)"
    and "\<forall>e\<in>set es. t \<le> time e \<and> t0 \<le> time e \<and> time e < t0 + width s"
  shows "count_steps step s es \<le> 2 * quota s"
  using count_allowance [OF assms] count_bounds [OF assms(1)] quota_pos [OF assms(1)]
  by (force simp: allowance_def split: option.splits if_splits)

lemma fresh_bound:
  assumes "ok t s" and "sorted (map time es)" and "running win t s = None"
    and "\<forall>e\<in>set es. t \<le> time e \<and> t0 \<le> time e \<and> time e < t0 + width s"
  shows "count_steps step s es \<le> quota s"
  using count_allowance [OF assms(1,2,4)] assms(3) by (simp add: allowance_def)

end

section \<open>The two windows of the limiter\<close>

definition client_step :: "string \<Rightarrow> limiter \<Rightarrow> string \<times> rat \<Rightarrow> bool \<times> limiter" where
  "client_step c l e =
     (fst e = c \<and> fst (admit l (fst e) (snd e)) = Inr None, snd (admit l (fst e) (snd e)))"

definition global_step :: "limiter \<Rightarrow> string \<times> rat \<Rightarrow> bool \<times> limiter" where
  "global_step l e =
     (global_count (rolled l (snd e)) < global_limit l, snd (admit l (fst e) (snd e)))"

abbreviation client_entry :: "string \<Rightarrow> limiter \<Rightarrow> (rat \<times> int) option" where
  "client_entry c l \<equiv> map_of (clients l) c"

abbreviation global_entry :: "limiter \<Rightarrow> (rat \<times> int) option" where
  "global_entry l \<equiv> Some (global_reset l, global_count l)"

abbreviation window_width :: "limiter \<Rightarrow> rat" where
  "window_width l \<equiv> of_int (window_seconds l)"

lemma map_of_filter_reset:
  "distinct (map fst es) \<Longrightarrow> map_of (filter (\<lambda>(c, r, n). now < r) es) c =
     (case map_of es c of None \<Rightarrow> None | Some (r, n) \<Rightarrow> if now < r then Some (r, n) else None)"
proof (induction es)
  case (Cons e es)
  obtain k r n where e: "e = (k, r, n)" by (cases e)
  have "map_of es k = None" using Cons.prems e by (simp add: map_of_eq_None_iff)
  with Cons e show ?case by auto
qed simp

lemma rolled_client:
  assumes "limiter_inv t l"
  shows "map_of (clients (rolled l now)) c = running (client_entry c) now l"
proof -
  have "sorted (map (fst \<circ> snd) (clients l))" "distinct (map fst (clients l))"
    using assms by (auto simp: limiter_inv_def)
  then show ?thesis
    by (simp add: rolled_def drop_expired_filter map_of_filter_reset running_def)
qed

text \<open>A counter whose entries are all running is what it is.\<close>

lemma running_all:
  "\<forall>(k, r, n) \<in> set (clients l). now < r \<Longrightarrow> running (client_entry c) now l = map_of (clients l) c"
  by (force simp: running_def split: option.splits dest!: map_of_SomeD)

lemma admit_clients:
  assumes "limiter_inv t l" and "t \<le> now"
  shows "running (client_entry c) now (snd (admit l cl now)) =
     (if c = cl \<and> fst (admit l cl now) = Inr None
      then (case running (client_entry c) now l of
              None \<Rightarrow> Some (now + window_width l, 1) | Some (r, n) \<Rightarrow> Some (r, n + 1))
      else running (client_entry c) now l)"
proof -
  let ?m = "rolled l now"
  have live: "\<forall>(k, r, n) \<in> set (clients ?m). now < r"
    using rolled_inv(2) [OF assms] by auto
  have base: "running (client_entry c) now ?m = running (client_entry c) now l"
    using running_all [OF live] rolled_client [OF assms(1)] by simp
  have tried: "running (client_entry c) now (attempted l now) = running (client_entry c) now l"
    using base by (simp add: attempted_def running_def)
  have pos: "0 < window_width l"
    using assms(1) by (simp add: limiter_inv_def)
  have rc: "map_of (clients ?m) k = running (client_entry k) now l" for k
    by (rule rolled_client [OF assms(1)])
  have up: "running (client_entry c) now (a\<lparr>clients := od_set cl (r, n) (clients ?m)\<rparr>) =
      (if c = cl then Some (r, n) else running (client_entry c) now l)" if "now < r" for a r n
    using that base by (simp add: map_of_od_set running_def)
  show ?thesis
  proof (rule admit_cases [OF assms, of cl])
    show ?thesis if "admit l cl now = (Inr None, (attempted l now)\<lparr>clients := od_set cl (r, n + 1) (clients ?m)\<rparr>)"
      "map_of (clients ?m) cl = Some (r, n)" for r n
    proof -
      have "now < r" using live that(2) by (auto dest: map_of_SomeD)
      with that rc [of cl] show ?thesis by (simp add: up)
    qed
  qed (use base tried rc [of cl] pos in \<open>simp_all add: up\<close>)
qed

lemma admit_global:
  assumes "limiter_inv t l" and "t \<le> now"
  shows "global_reset (snd (admit l cl now)) = global_reset (rolled l now)"
    and "global_count (snd (admit l cl now)) =
      (if global_count (rolled l now) < global_limit l then global_count (rolled l now) + 1
       else global_count (rolled l now))"
  by (rule admit_cases [OF assms, of cl]; simp add: attempted_def)+

lemma rolled_global:
  assumes "limiter_inv t l"
  shows "running global_entry now l = None \<Longrightarrow>
      global_reset (rolled l now) = now + window_width l \<and> global_count (rolled l now) = 0"
    and "running global_entry now l = Some (r, n) \<Longrightarrow>
      global_reset (rolled l now) = r \<and> global_count (rolled l now) = n"
  using assms by (auto simp: running_def rolled_def split: if_splits)

interpretation client_window: fixed_window "client_step c" snd "client_entry c" per_client
  window_width limiter_inv for c
proof
  fix t l r n and e :: "string \<times> rat"
  show "limiter_inv (snd e) (snd (client_step c l e))" if "limiter_inv t l" "t \<le> snd e"
    using admit_inv [OF that] by (simp add: client_step_def)
  show "per_client (snd (client_step c l e)) = per_client l"
    by (simp add: client_step_def admit_limits)
  show "window_width (snd (client_step c l e)) = window_width l"
    by (simp add: client_step_def admit_limits)
  show "0 \<le> n \<and> n \<le> per_client l" if "limiter_inv t l" "running (client_entry c) t l = Some (r, n)"
    using that by (force simp: running_def limiter_inv_def split: option.splits if_splits dest: map_of_SomeD)
  show "0 < per_client l" if "limiter_inv t l"
    using that by (simp add: limiter_inv_def)
  show "running (client_entry c) (snd e) (snd (client_step c l e)) =
      Some (r, if fst (client_step c l e) then n + 1 else n)"
    if "limiter_inv t l" "t \<le> snd e" "running (client_entry c) (snd e) l = Some (r, n)"
    using admit_clients [OF that(1,2), of c "fst e"] that(3) by (auto simp: client_step_def)
  show "running (client_entry c) (snd e) (snd (client_step c l e)) =
      (if fst (client_step c l e) then Some (snd e + window_width l, 1) else None)"
    if "limiter_inv t l" "t \<le> snd e" "running (client_entry c) (snd e) l = None"
    using admit_clients [OF that(1,2), of c "fst e"] that(3) by (auto simp: client_step_def)
qed

interpretation global_window: fixed_window global_step snd global_entry global_limit
  window_width limiter_inv
proof
  fix t l r n and e :: "string \<times> rat"
  show "limiter_inv (snd e) (snd (global_step l e))" if "limiter_inv t l" "t \<le> snd e"
    using admit_inv [OF that] by (simp add: global_step_def)
  show "global_limit (snd (global_step l e)) = global_limit l"
    by (simp add: global_step_def admit_limits)
  show "window_width (snd (global_step l e)) = window_width l"
    by (simp add: global_step_def admit_limits)
  show "0 \<le> n \<and> n \<le> global_limit l" if "limiter_inv t l" "running global_entry t l = Some (r, n)"
    using that by (auto simp: running_def limiter_inv_def split: if_splits)
  show "0 < global_limit l" if "limiter_inv t l"
    using that by (simp add: limiter_inv_def)
  show "running global_entry (snd e) (snd (global_step l e)) =
      Some (r, if fst (global_step l e) then n + 1 else n)"
    if "limiter_inv t l" "t \<le> snd e" "running global_entry (snd e) l = Some (r, n)"
    using admit_global [OF that(1,2), of "fst e"] rolled_global(2) [OF that(1,3)] rolled_inv(3) [OF that(1,2)]
    by (simp add: global_step_def running_def)
  show "running global_entry (snd e) (snd (global_step l e)) =
      (if fst (global_step l e) then Some (snd e + window_width l, 1) else None)"
    if "limiter_inv t l" "t \<le> snd e" "running global_entry (snd e) l = None"
  proof -
    have "0 < global_limit l" "0 < window_width l" using that(1) by (auto simp: limiter_inv_def)
    with admit_global [OF that(1,2), of "fst e"] rolled_global(1) [OF that(1,3)] show ?thesis
      by (simp add: global_step_def running_def)
  qed
qed

end
