(* ===== verification/Rate_Limit_Properties.thy ===== *)
theory Rate_Limit_Properties
  imports Rate_Limit
begin

text \<open>
  What the limiter guarantees: it never raises, keeps its memory bounded, admits a bounded
  number of requests in any interval of one window, and one client's traffic never touches
  another client's counter.
\<close>

section \<open>Counting admissions\<close>

text \<open>How many of a list of calls, made by clients that satisfy \<^verbatim>\<open>who\<close>, are admitted.\<close>

fun admissions :: "(string \<Rightarrow> bool) \<Rightarrow> limiter \<Rightarrow> (string \<times> rat) list \<Rightarrow> int" where
  "admissions who l [] = 0"
| "admissions who l ((c, now) # calls) =
     (if who c \<and> fst (admit l c now) = Inr None then 1 else 0)
       + admissions who (snd (admit l c now)) calls"

lemma admissions_client: "admissions (\<lambda>k. k = c) l calls = count_steps (client_step c) l calls"
  by (induction "\<lambda>k. k = c" l calls rule: admissions.induct) (simp_all add: client_step_def)

lemma admitted_counted:
  assumes "limiter_inv t l" and "t \<le> now" and "fst (admit l c now) = Inr None"
  shows "global_count (rolled l now) < global_limit l"
  by (rule admit_cases [OF assms(1,2), of c]) (use assms(3) in auto)

lemma admissions_global:
  "limiter_inv t l \<Longrightarrow> sorted (map snd calls) \<Longrightarrow> \<forall>e\<in>set calls. t \<le> snd e \<Longrightarrow>
   admissions who l calls \<le> count_steps global_step l calls"
proof (induction calls arbitrary: t l)
  case (Cons e calls)
  obtain c now where e: "e = (c, now)" by (cases e)
  have t: "t \<le> now" using Cons.prems(3) e by simp
  have "admissions who (snd (admit l c now)) calls \<le> count_steps global_step (snd (admit l c now)) calls"
    using Cons.prems e by (intro Cons.IH [OF admit_inv [OF Cons.prems(1) t]]) auto
  moreover have "fst (global_step l e) = (global_count (rolled l now) < global_limit l)"
    "snd (global_step l e) = snd (admit l c now)"
    by (simp_all add: e global_step_def)
  ultimately show ?case
    using admitted_counted [OF Cons.prems(1) t, of c] by (auto simp: e)
qed simp

lemma retry_delay_exact:
  "r \<le> now + of_int (retry_delay r now)" "now < r \<Longrightarrow> r \<le> now + of_int w \<Longrightarrow> 1 \<le> w \<Longrightarrow> retry_delay r now \<le> w"
  "1 \<le> retry_delay r now"
proof -
  have "r - now \<le> of_int \<lceil>r - now\<rceil>" by (rule le_of_int_ceiling)
  moreover have "(of_int \<lceil>r - now\<rceil> :: rat) \<le> of_int (retry_delay r now)" by (simp add: retry_delay_def)
  ultimately show "r \<le> now + of_int (retry_delay r now)" by linarith
  show "retry_delay r now \<le> w" if "r \<le> now + of_int w" "1 \<le> w"
    using that by (simp add: retry_delay_def ceiling_le_iff algebra_simps)
qed (simp add: retry_delay_def)

section \<open>Properties\<close>

text \<open>
  \<^verbatim>\<open>admit\<close> on a limiter whose invariant holds, at a time not before the last call, returns
  without raising: it admits, or rejects with a Retry-After between one second and the length
  of the window. The invariant (entries ordered by expiry, one per client, no more than
  \<^verbatim>\<open>max_clients\<close>, no counter above its quota) holds afterwards, and the limits are unchanged.
\<close>

theorem admit_total:
  assumes "limiter_inv t l" and "t \<le> now"
  shows "(case fst (admit l c now) of
            Inl e \<Rightarrow> False
          | Inr None \<Rightarrow> True
          | Inr (Some s) \<Rightarrow> 1 \<le> s \<and> s \<le> window_seconds l) \<and>
         limiter_inv now (snd (admit l c now)) \<and>
         int (length (clients (snd (admit l c now)))) \<le> max_clients l"
proof -
  let ?l = "snd (admit l c now)" and ?m = "rolled l now"
  have inv: "limiter_inv now ?l" by (rule admit_inv [OF assms])
  then have "int (length (clients ?l)) \<le> max_clients l"
    by (simp add: limiter_inv_def admit_limits)
  moreover have w: "1 \<le> window_seconds l" using assms(1) by (simp add: limiter_inv_def)
  have m: "limiter_inv now ?m" by (rule rolled_inv(1) [OF assms])
  have g: "now < global_reset ?m" "global_reset ?m \<le> now + of_int (window_seconds l)"
    using rolled_inv(3) [OF assms] m by (auto simp: limiter_inv_def)
  have cl: "now < r \<and> r \<le> now + of_int (window_seconds l)" if "(k, r, n) \<in> set (clients ?m)" for k r n
    using rolled_inv(2) [OF assms that] m that by (auto simp: limiter_inv_def)
  have "case fst (admit l c now) of
            Inl e \<Rightarrow> False
          | Inr None \<Rightarrow> True
          | Inr (Some s) \<Rightarrow> 1 \<le> s \<and> s \<le> window_seconds l"
    by (rule admit_cases [OF assms, of c])
      (use g cl w in \<open>auto simp: retry_delay_exact dest!: map_of_SomeD intro!: retry_delay_exact(2)\<close>)
  ultimately show ?thesis using inv by simp
qed

definition small_limiter :: limiter where
  "small_limiter = \<lparr>per_client = 2, global_limit = 4, window_seconds = 60, max_clients = 2,
     clients = [(''a'', 65, 2)], global_reset = 65, global_count = 3\<rparr>"

lemma small_limiter_inv: "limiter_inv 10 small_limiter"
  by (simp add: limiter_inv_def small_limiter_def)

lemma admit_total_witness:
  "limiter_inv 20 (snd (admit small_limiter ''a'' 20)) \<and> fst (admit small_limiter ''a'' 20) = Inr (Some 45)"
  using admit_total [OF small_limiter_inv, of 20 "''a''"]
  by (simp add: admit_def small_limiter_def Let_def retry_delay_def)

lemma all_clients_burst:
  assumes "limiter_inv t l" and "sorted (map snd calls)"
    and "\<forall>e\<in>set calls. t \<le> snd e \<and> t0 \<le> snd e \<and> snd e < t0 + window_width l"
  shows "admissions (\<lambda>k. True) l calls \<le> 2 * global_limit l"
proof -
  have "admissions (\<lambda>k. True) l calls \<le> count_steps global_step l calls"
    using assms by (intro admissions_global [OF assms(1,2)]) auto
  also have "\<dots> \<le> 2 * global_limit l"
    by (rule global_window.burst_bound [OF assms])
  finally show ?thesis .
qed

text \<open>
  C28. However the calls of all clients are interleaved, one client gets at most \<^verbatim>\<open>2 * per_client\<close>
  admissions in any interval of the length of a window (fixed windows allow one burst at the
  end of a window and one at the start of the next), and all clients together at most
  \<^verbatim>\<open>2 * global_limit\<close>.
\<close>

theorem window_burst_bound:
  assumes "limiter_inv t l" and "sorted (map snd calls)"
    and "\<forall>e\<in>set calls. t \<le> snd e \<and> t0 \<le> snd e \<and> snd e < t0 + window_width l"
  shows "admissions (\<lambda>k. k = c) l calls \<le> 2 * per_client l \<and>
         admissions (\<lambda>k. True) l calls \<le> 2 * global_limit l"
  unfolding admissions_client
  using client_window.burst_bound [OF assms] all_clients_burst [OF assms] by blast

lemma window_burst_bound_witness:
  "admissions (\<lambda>k. k = ''b'') small_limiter [(''b'', 20), (''a'', 30), (''b'', 70)] \<le> 4 \<and>
   admissions (\<lambda>k. True) small_limiter [(''b'', 20), (''a'', 30), (''b'', 70)] = 2"
  using window_burst_bound [OF small_limiter_inv, of "[(''b'', 20), (''a'', 30), (''b'', 70)]" 15 "''b''"]
  by (simp add: admit_def small_limiter_def Let_def)

text \<open>
  The constructor raises \<^verbatim>\<open>ValueError\<close> exactly when one of the four limits is not positive.
  Otherwise the limiter starts in its invariant, and over its first window it admits at most
  \<^verbatim>\<open>per_client\<close> requests of each client and \<^verbatim>\<open>global_limit\<close> requests in all.
\<close>

theorem new_limiter_quota:
  assumes "sorted (map snd calls)" and "0 \<le> t0"
    and "\<forall>e\<in>set calls. t0 \<le> snd e \<and> snd e < t0 + of_int w"
  shows "case new_limiter pc gl w mc of
           Inl e \<Rightarrow> e = ValueError \<and> (pc \<le> 0 \<or> gl \<le> 0 \<or> w \<le> 0 \<or> mc \<le> 0)
         | Inr l \<Rightarrow> 0 < pc \<and> 0 < gl \<and> 0 < w \<and> 0 < mc \<and> limiter_inv t0 l \<and>
             admissions (\<lambda>k. k = c) l calls \<le> pc \<and> admissions (\<lambda>k. True) l calls \<le> gl"
proof (cases "0 < pc \<and> 0 < gl \<and> 0 < w \<and> 0 < mc")
  case True
  define l where "l = \<lparr>per_client = pc, global_limit = gl, window_seconds = w, max_clients = mc,
    clients = [], global_reset = 0, global_count = 0\<rparr>"
  have new: "new_limiter pc gl w mc = Inr l"
    using True by (simp add: new_limiter_def l_def)
  have inv: "limiter_inv t0 l"
    using True assms(2) by (simp add: limiter_inv_def l_def)
  have fresh: "running (client_entry c) t0 l = None" "running global_entry t0 l = None"
    using assms(2) by (auto simp: running_def l_def)
  have times: "\<forall>e\<in>set calls. t0 \<le> snd e \<and> t0 \<le> snd e \<and> snd e < t0 + window_width l"
    using assms(3) by (simp add: l_def)
  have "admissions (\<lambda>k. k = c) l calls \<le> per_client l"
    unfolding admissions_client by (rule client_window.fresh_bound [OF inv assms(1) fresh(1) times])
  moreover have "admissions (\<lambda>k. True) l calls \<le> count_steps global_step l calls"
    using assms(3) by (intro admissions_global [OF inv assms(1)]) auto
  moreover have "count_steps global_step l calls \<le> global_limit l"
    by (rule global_window.fresh_bound [OF inv assms(1) fresh(2) times])
  moreover have "per_client l = pc" "global_limit l = gl" by (simp_all add: l_def)
  ultimately show ?thesis using True inv new by simp
next
  case False
  then show ?thesis by (auto simp: new_limiter_def)
qed

lemma new_limiter_quota_witness:
  "case new_limiter 1 5 60 10 of Inl e \<Rightarrow> False
   | Inr l \<Rightarrow> admissions (\<lambda>k. k = ''a'') l [(''a'', 1), (''a'', 2), (''a'', 60)] \<le> 1"
  using new_limiter_quota [of "[(''a'', 1), (''a'', 2), (''a'', 60)]" 1 60 1 5 10 "''a''"]
  by (simp add: new_limiter_def)

text \<open>
  Isolation: a call by one client leaves the running window of every other client as it
  was, whatever the outcome, and a rejected call leaves the caller's own window as it was.
  So a flood evicts no active counter and a denial never extends a window.
\<close>

theorem admit_isolation:
  assumes "limiter_inv t l" and "t \<le> now" and "c \<noteq> cl \<or> fst (admit l cl now) \<noteq> Inr None"
  shows "running (client_entry c) now (snd (admit l cl now)) = running (client_entry c) now l"
  using admit_clients [OF assms(1,2), of c cl] assms(3) by auto

lemma admit_isolation_witness:
  "running (client_entry ''a'') 20 (snd (admit small_limiter ''b'' 20)) = Some (65, 2)"
  using admit_isolation [OF small_limiter_inv, of 20 "''a''" "''b''"]
  by (simp add: small_limiter_def running_def)

text \<open>
  Retry-After is honest: when a client is rejected because its own quota is used up, its
  window has expired once it waited that many seconds, so the next call is admitted unless
  another limit (global quota or capacity) is hit, and a second less would not have been
  enough.
\<close>

theorem retry_after_honest:
  assumes "limiter_inv t l" and "t \<le> now"
    and "running (client_entry c) now l = Some (r, n)" and "per_client l \<le> n"
    and "global_count (rolled l now) < global_limit l"
    and "fst (admit l c now) = Inr (Some s)"
  shows "running (client_entry c) (now + of_int s) (snd (admit l c now)) = None \<and>
         (1 < s \<longrightarrow> running (client_entry c) (now + of_int (s - 1)) (snd (admit l c now)) = Some (r, n))"
proof -
  have m: "map_of (clients (rolled l now)) c = Some (r, n)"
    using rolled_client [OF assms(1)] assms(3) by simp
  have adm: "admit l c now = (Inr (Some (retry_delay r now)), attempted l now)"
    by (rule admit_cases [OF assms(1,2), of c]) (use m assms(4,5) in auto)
  with assms(6) have s: "s = retry_delay r now" by simp
  have e: "client_entry c (snd (admit l c now)) = Some (r, n)"
    using adm m by (simp add: attempted_def)
  have "now + of_int (s - 1) < r" if "1 < s"
  proof -
    have "s - 1 < \<lceil>r - now\<rceil>" using that s by (auto simp: retry_delay_def max_def split: if_splits)
    then have "of_int (s - 1) < r - now" by (simp only: less_ceiling_iff)
    then show ?thesis by linarith
  qed
  with e retry_delay_exact(1) [of r now] s show ?thesis
    by (simp add: running_def)
qed

lemma retry_after_honest_witness:
  "running (client_entry ''a'') 65 (snd (admit small_limiter ''a'' 20)) = None"
  using retry_after_honest [OF small_limiter_inv, of 20 "''a''" 65 2 45]
  by (simp add: small_limiter_def running_def rolled_def admit_def Let_def retry_delay_def)

text \<open>
  The cleanup loop looks only at the front of the ordered dictionary, and yet removes
  exactly the expired entries: under the invariant it is the filter over all entries.
\<close>

theorem cleanup_is_filter:
  assumes "limiter_inv t l"
  shows "drop_expired now (clients l) = filter (\<lambda>(c, reset, n). reset > now) (clients l)"
  using assms by (intro drop_expired_filter) (simp add: limiter_inv_def)

lemma cleanup_is_filter_witness:
  "drop_expired 70 (clients small_limiter) = []"
  using cleanup_is_filter [OF small_limiter_inv, of 70] by (simp add: small_limiter_def)

lemma rstrip_char_eq:
  assumes "s \<noteq> []" and "last s \<noteq> c"
  shows "rstrip_char c p = s \<longleftrightarrow> (\<exists>k. p = s @ replicate k c)"
proof
  assume "rstrip_char c p = s"
  then have "rev p = takeWhile (\<lambda>x. x = c) (rev p) @ rev s"
    unfolding rstrip_char_def by (metis rev_rev_ident takeWhile_dropWhile_id)
  moreover have "takeWhile (\<lambda>x. x = c) (rev p) = replicate (length (takeWhile (\<lambda>x. x = c) (rev p))) c"
    by (metis (mono_tags, lifting) replicate_length_same set_takeWhileD)
  ultimately show "\<exists>k. p = s @ replicate k c"
    by (metis rev_append rev_replicate rev_rev_ident)
next
  assume "\<exists>k. p = s @ replicate k c"
  then obtain k where p: "p = s @ replicate k c" ..
  have "dropWhile (\<lambda>x. x = c) (replicate k c @ rev s) = dropWhile (\<lambda>x. x = c) (rev s)"
    by (induction k) auto
  moreover have "dropWhile (\<lambda>x. x = c) (rev s) = rev s"
    using assms by (cases s rule: rev_cases) auto
  ultimately show "rstrip_char c p = s" by (simp add: rstrip_char_def p)
qed

text \<open>
  The middleware limits a request exactly when it is an HTTP POST whose path, below the
  mount point, is \<^verbatim>\<open>/agent/request\<close> with any number of trailing slashes. Any other request goes
  through and leaves the limiter untouched; a limited one is answered 429 exactly when
  \<^verbatim>\<open>admit\<close> rejects its peer, and passed on exactly when \<^verbatim>\<open>admit\<close> admits it.
\<close>

theorem middleware_scope:
  "(is_limited scope \<longleftrightarrow> sc_type scope = ''http'' \<and> sc_method scope = ''POST'' \<and>
      (\<exists>k. effective_path scope = ''/agent/request'' @ replicate k (CHR ''/''))) \<and>
   (if is_limited scope then
      (let (outcome, l') = admit l (case sc_client scope of Some peer \<Rightarrow> peer | None \<Rightarrow> ''unknown-peer'') now
       in rate_limit_middleware l scope now =
            (map_sum id (map_option too_many_requests) outcome, l'))
    else rate_limit_middleware l scope now = (Inr None, l))"
proof -
  have "is_limited scope \<longleftrightarrow> sc_type scope = ''http'' \<and> sc_method scope = ''POST'' \<and>
      (\<exists>k. effective_path scope = ''/agent/request'' @ replicate k (CHR ''/''))"
    by (simp add: is_limited_def rstrip_char_eq)
  then show ?thesis
    by (auto simp: rate_limit_middleware_def Let_def split: prod.splits sum.splits option.splits)
qed

end
