(* ===== verification/Machine.thy ===== *)
theory Machine
  imports Main
begin

text \<open>
  Transition systems: the states reachable from an initial state, and the interface between a
  detailed system and the abstract one it implements. An invariant proved once for the
  abstract steps holds of every state the detailed system reaches.
\<close>

inductive reach :: "('s \<Rightarrow> bool) \<Rightarrow> ('s \<Rightarrow> 's \<Rightarrow> bool) \<Rightarrow> 's \<Rightarrow> bool" for init step where
  start: "init s \<Longrightarrow> reach init step s"
| next_state: "reach init step s \<Longrightarrow> step s s' \<Longrightarrow> reach init step s'"

lemma reach_invariant:
  assumes "reach init step s" and "\<And>s. init s \<Longrightarrow> P s" and "\<And>s s'. P s \<Longrightarrow> step s s' \<Longrightarrow> P s'"
  shows "P s"
  using assms(1) by induction (use assms(2,3) in blast)+

locale refinement =
  fixes cinit :: "'c \<Rightarrow> bool" and cstep :: "'c \<Rightarrow> 'c \<Rightarrow> bool"
    and ainit :: "'a \<Rightarrow> bool" and astep :: "'a \<Rightarrow> 'a \<Rightarrow> bool"
    and abs :: "'c \<Rightarrow> 'a"
  assumes init_refines: "cinit c \<Longrightarrow> ainit (abs c)"
    and step_refines: "cstep c c' \<Longrightarrow> abs c' = abs c \<or> astep (abs c) (abs c')"
begin

lemma reach_abs: "reach cinit cstep c \<Longrightarrow> reach ainit astep (abs c)"
proof (induction rule: reach.induct)
  case (start s)
  then show ?case by (intro reach.start init_refines)
next
  case (next_state s s')
  then show ?case using step_refines [of s s'] reach.next_state by metis
qed

text \<open>The invariants of the abstract system hold of the detailed one.\<close>

lemma transfer:
  assumes "\<And>a. ainit a \<Longrightarrow> P a" and "\<And>a a'. P a \<Longrightarrow> astep a a' \<Longrightarrow> P a'" and "reach cinit cstep c"
  shows "P (abs c)"
  using reach_abs [OF assms(3)] assms(1,2) by (rule reach_invariant)

text \<open>What abstract steps preserve is preserved along any run of the detailed system.\<close>

lemma transfer_run:
  assumes "\<And>a a'. P a \<Longrightarrow> astep a a' \<Longrightarrow> P a'" and "P (abs c)" and "cstep\<^sup>*\<^sup>* c c'"
  shows "P (abs c')"
  using assms(3)
proof induction
  case base
  then show ?case by (rule assms(2))
next
  case (step c c')
  then show ?case using step_refines [of c c'] assms(1) by metis
qed

end

end
