(* ===== verification/Schema.thy ===== *)
theory Schema
  imports Policy_Engine
begin

text \<open>
  The database: one record per table of app/models/schema.py and the record \<^verbatim>\<open>db\<close> of all
  tables. JSON columns hold the model whose dump they store. Enum columns hold the enum.
  \<^verbatim>\<open>readings\<close> counts how often the clock and \<^verbatim>\<open>uuid4\<close> have been read; the n-th reading is
  \<^verbatim>\<open>clock E n\<close> and \<^verbatim>\<open>uuid_hex E n\<close>. The tables are interpretations of the interface
  \<^verbatim>\<open>keyed_table\<close> by their primary keys.
\<close>

section \<open>Rows\<close>

record authorization_row =
  au_authorization_id :: string
  au_user_id :: string
  au_envelope :: envelope
  au_signature :: "string option"
  au_issued_at :: datetime
  au_expires_at :: datetime
  au_used_count :: int
  au_max_transactions :: int
  au_nonce :: string
  au_created_at :: int

record mandate_revocation =
  rv_authorization_id :: string
  rv_reason :: string
  rv_revoked_at :: int

record agent_request_row =
  ar_request_id :: string
  ar_authorization_id :: string
  ar_agent_id :: string
  ar_nonce :: string
  ar_cart :: cart
  ar_state :: string
  ar_created_at :: int

record policy_decision =
  pd_decision_id :: string
  pd_request_id :: string
  pd_authorization_id :: string
  pd_decision :: decision
  pd_reason :: reason
  pd_created_at :: int

datatype payment_status = CREATED | STALE | CAPTURED | AMOUNT_MISMATCH

text \<open>How far a payment is: created, given up on by the sweep, settled by a webhook.\<close>

fun status_rank :: "payment_status \<Rightarrow> nat" where
  "status_rank CREATED = 0"
| "status_rank STALE = 1"
| "status_rank CAPTURED = 2"
| "status_rank AMOUNT_MISMATCH = 2"

instantiation payment_status :: preorder
begin

definition less_eq_payment_status :: "payment_status \<Rightarrow> payment_status \<Rightarrow> bool" where
  "a \<le> b \<longleftrightarrow> status_rank a \<le> status_rank b"

definition less_payment_status :: "payment_status \<Rightarrow> payment_status \<Rightarrow> bool" where
  "a < b \<longleftrightarrow> status_rank a < status_rank b"

instance
  by standard (auto simp: less_eq_payment_status_def less_payment_status_def)

end

lemma status_le_simps [simp]:
  "CREATED \<le> s" "STALE \<le> CAPTURED" "STALE \<le> AMOUNT_MISMATCH" "s \<le> CAPTURED" "s \<le> AMOUNT_MISMATCH"
  "s \<le> CREATED \<longleftrightarrow> s = CREATED" "s \<le> STALE \<longleftrightarrow> s \<in> {CREATED, STALE}"
  by (cases s; simp add: less_eq_payment_status_def)+

record payment_execution =
  px_execution_id :: string
  px_decision_id :: string
  px_razorpay_order_id :: string
  px_amount :: int
  px_currency :: string
  px_status :: payment_status
  px_created_at :: int

record payment_event =
  pe_event_id :: string
  pe_execution_id :: string
  pe_event_type :: string
  pe_payload :: json
  pe_signature_verified :: bool
  pe_created_at :: int

record evidence_event =
  ev_evidence_id :: string
  ev_transaction_id :: string
  ev_prev_hash :: string
  ev_payload_hash :: string
  ev_chain_hash :: string
  ev_event_type :: string
  ev_actor :: string
  ev_payload :: json
  ev_created_at :: int

record seen_webhook_event =
  sw_razorpay_payment_id :: string
  sw_event_type :: string
  sw_created_at :: int

section \<open>The database\<close>

record db =
  authorizations :: "authorization_row list"
  mandate_revocations :: "mandate_revocation list"
  agent_requests :: "agent_request_row list"
  policy_decisions :: "policy_decision list"
  payment_executions :: "payment_execution list"
  payment_events :: "payment_event list"
  evidence_events :: "evidence_event list"
  seen_webhook_events :: "seen_webhook_event list"
  readings :: nat

definition empty_db :: db where
  "empty_db =
     \<lparr>authorizations = [], mandate_revocations = [], agent_requests = [], policy_decisions = [],
      payment_executions = [], payment_events = [], evidence_events = [],
      seen_webhook_events = [], readings = 0\<rparr>"

text \<open>
  A request handler takes the database and returns what it answers, or the error it raises,
  with the database it leaves behind. An error before a commit leaves it as it was.
\<close>

type_synonym 'a handled = "(failure + 'a) \<times> db"

section \<open>The tables by primary key\<close>

abbreviation get_authorization :: "string \<Rightarrow> db \<Rightarrow> authorization_row option" where
  "get_authorization k d \<equiv> row_get au_authorization_id k (authorizations d)"

abbreviation get_revocation :: "string \<Rightarrow> db \<Rightarrow> mandate_revocation option" where
  "get_revocation k d \<equiv> row_get rv_authorization_id k (mandate_revocations d)"

abbreviation get_request :: "string \<Rightarrow> db \<Rightarrow> agent_request_row option" where
  "get_request k d \<equiv> row_get ar_request_id k (agent_requests d)"

abbreviation get_decision :: "string \<Rightarrow> db \<Rightarrow> policy_decision option" where
  "get_decision k d \<equiv> row_get pd_decision_id k (policy_decisions d)"

abbreviation get_execution :: "string \<Rightarrow> db \<Rightarrow> payment_execution option" where
  "get_execution k d \<equiv> row_get px_execution_id k (payment_executions d)"

interpretation auth_tab: keyed_table au_authorization_id "row_get au_authorization_id"
  "row_insert au_authorization_id" "row_update au_authorization_id"
  by (rule keyed_table_rows)

interpretation revo_tab: keyed_table rv_authorization_id "row_get rv_authorization_id"
  "row_insert rv_authorization_id" "row_update rv_authorization_id"
  by (rule keyed_table_rows)

interpretation request_tab: keyed_table ar_request_id "row_get ar_request_id"
  "row_insert ar_request_id" "row_update ar_request_id"
  by (rule keyed_table_rows)

interpretation decision_tab: keyed_table pd_decision_id "row_get pd_decision_id"
  "row_insert pd_decision_id" "row_update pd_decision_id"
  by (rule keyed_table_rows)

interpretation execution_tab: keyed_table px_execution_id "row_get px_execution_id"
  "row_insert px_execution_id" "row_update px_execution_id"
  by (rule keyed_table_rows)

interpretation webhook_tab: keyed_table sw_razorpay_payment_id "row_get sw_razorpay_payment_id"
  "row_insert sw_razorpay_payment_id" "row_update sw_razorpay_payment_id"
  by (rule keyed_table_rows)

interpretation pevent_tab: keyed_table pe_event_id "row_get pe_event_id"
  "row_insert pe_event_id" "row_update pe_event_id"
  by (rule keyed_table_rows)

interpretation evidence_tab: keyed_table ev_evidence_id "row_get ev_evidence_id"
  "row_insert ev_evidence_id" "row_update ev_evidence_id"
  by (rule keyed_table_rows)

section \<open>The authorization lock\<close>

text \<open>
  \<^verbatim>\<open>lock_authorization\<close> (app/db.py): a no-op UPDATE that takes the write lock, and a 404 when it
  touched no row. Handlers that start with it run one after another, so a handler is one
  atomic function on \<^verbatim>\<open>db\<close>.
\<close>

definition lock_authorization :: "db \<Rightarrow> string \<Rightarrow> failure + authorization_row" where
  "lock_authorization d auth_id =
     (case get_authorization auth_id d of
        None \<Rightarrow> Inl (HTTPException 404 (Text ''Unknown authorization_id''))
      | Some row \<Rightarrow> Inr row)"

lemma lock_authorization_Inr:
  "lock_authorization d a = Inr row \<longleftrightarrow> get_authorization a d = Some row"
  by (simp add: lock_authorization_def split: option.splits)

end
