(* ===== verification/Evidence.thy ===== *)
theory Evidence
  imports Schema
begin

text \<open>
  The append-only, hash-chained evidence log, app/evidence/log.py. Handlers use it through
  the interface \<^verbatim>\<open>evidence_log\<close>: an append extends the chain of its transaction by one event,
  leaves every other chain alone and keeps chains valid. The interface is interpreted on
  \<^verbatim>\<open>append_event\<close>, \<^verbatim>\<open>get_chain\<close> and \<^verbatim>\<open>verify_chain\<close>, for every environment.
\<close>

section \<open>The log\<close>

definition genesis_hash :: string where
  "genesis_hash = replicate 64 CHR ''0''"

text \<open>\<^verbatim>\<open>str(uuid.uuid4())\<close>: the hexadecimal form with its dashes.\<close>

definition uuid_str :: "string \<Rightarrow> string" where
  "uuid_str h = take 8 h @ ''-'' @ take 4 (drop 8 h) @ ''-'' @ take 4 (drop 12 h) @ ''-''
     @ take 4 (drop 16 h) @ ''-'' @ drop 20 h"

definition of_transaction :: "string \<Rightarrow> evidence_event list \<Rightarrow> evidence_event list" where
  "of_transaction tx evs = filter (\<lambda>e. ev_transaction_id e = tx) evs"

definition append_event :: "env \<Rightarrow> db \<Rightarrow> string \<Rightarrow> string \<Rightarrow> string \<Rightarrow> json \<Rightarrow> exn + db" where
  "append_event E d transaction_id event_type actor payload =
     (let last = latest ev_created_at (of_transaction transaction_id (evidence_events d));
          prev_hash = (case last of Some e \<Rightarrow> ev_chain_hash e | None \<Rightarrow> genesis_hash);
          payload_hash = hash_json E payload;
          event = \<lparr>ev_evidence_id = uuid_str (uuid_hex E (readings d)),
                   ev_transaction_id = transaction_id, ev_prev_hash = prev_hash,
                   ev_payload_hash = payload_hash,
                   ev_chain_hash = chain_hash E prev_hash payload_hash,
                   ev_event_type = event_type, ev_actor = actor, ev_payload = payload,
                   ev_created_at = clock E (readings d)\<rparr>
      in case row_insert ev_evidence_id event (evidence_events d) of
           None \<Rightarrow> Inl IntegrityError
         | Some evs \<Rightarrow> Inr (d\<lparr>evidence_events := evs, readings := Suc (readings d)\<rparr>))"

definition get_chain :: "db \<Rightarrow> string \<Rightarrow> evidence_event list" where
  "get_chain d transaction_id =
     sort_key ev_created_at (of_transaction transaction_id (evidence_events d))"

fun verify_from :: "env \<Rightarrow> string \<Rightarrow> evidence_event list \<Rightarrow> bool" where
  "verify_from E prev [] = True"
| "verify_from E prev (e # es) =
     (if hash_json E (ev_payload e) \<noteq> ev_payload_hash e then False
      else if chain_hash E prev (ev_payload_hash e) \<noteq> ev_chain_hash e then False
      else verify_from E (ev_chain_hash e) es)"

definition verify_chain :: "env \<Rightarrow> evidence_event list \<Rightarrow> bool" where
  "verify_chain E events = verify_from E genesis_hash events"

section \<open>The interface\<close>

locale evidence_log =
  fixes append :: "db \<Rightarrow> string \<Rightarrow> string \<Rightarrow> string \<Rightarrow> json \<Rightarrow> exn + db"
    and chain :: "db \<Rightarrow> string \<Rightarrow> evidence_event list"
    and valid :: "evidence_event list \<Rightarrow> bool"
    and ready :: "db \<Rightarrow> bool"
  assumes append_extends: "ready d \<Longrightarrow> append d tx ty ac pl = Inr d' \<Longrightarrow>
      \<exists>e. chain d' tx = chain d tx @ [e] \<and> ev_event_type e = ty \<and> ev_actor e = ac \<and> ev_payload e = pl"
    and append_other: "append d tx ty ac pl = Inr d' \<Longrightarrow> tx' \<noteq> tx \<Longrightarrow> chain d' tx' = chain d tx'"
    and append_valid: "ready d \<Longrightarrow> append d tx ty ac pl = Inr d' \<Longrightarrow> valid (chain d tx) \<Longrightarrow>
      valid (chain d' tx)"
    and append_ready: "ready d \<Longrightarrow> append d tx ty ac pl = Inr d' \<Longrightarrow> ready d'"
    and append_frame: "append d tx ty ac pl = Inr d' \<Longrightarrow>
      d' = d\<lparr>evidence_events := evidence_events d', readings := readings d'\<rparr> \<and> readings d \<le> readings d'"
    and ready_frame: "ready d \<Longrightarrow> evidence_events d' = evidence_events d \<Longrightarrow>
      readings d \<le> readings d' \<Longrightarrow> ready d'"
    and chain_frame: "evidence_events d' = evidence_events d \<Longrightarrow> chain d' tx = chain d tx"
begin

text \<open>Two appends write to no other table either.\<close>

lemma append_two_frame:
  assumes "append d tx ty ac pl = Inr d1" and "append d1 tx' ty' ac' pl' = Inr d'"
  shows "d' = d\<lparr>evidence_events := evidence_events d', readings := readings d'\<rparr> \<and> readings d \<le> readings d'"
proof -
  have *: "d' = d\<lparr>evidence_events := evidence_events d', readings := readings d'\<rparr>"
    if "d1 = d\<lparr>evidence_events := x, readings := y\<rparr>" "d' = d1\<lparr>evidence_events := z, readings := w\<rparr>"
    for x y z w using that by simp
  show ?thesis
    using append_frame [OF assms(1)] append_frame [OF assms(2)] by (metis * order_trans)
qed

text \<open>All chains valid, and the clock ahead of them: what every handler preserves.\<close>

lemma append_all_valid:
  assumes "ready d" and "\<forall>tx. valid (chain d tx)" and "append d tx ty ac pl = Inr d'"
  shows "ready d' \<and> (\<forall>tx. valid (chain d' tx))"
  using assms append_ready append_valid append_other by metis

text \<open>The same when the handler changed other tables or read the clock before the append.\<close>

lemma append_all_valid_after:
  assumes "ready d" and "\<forall>tx. valid (chain d tx)"
    and "evidence_events d1 = evidence_events d" and "readings d \<le> readings d1"
    and "append d1 tx ty ac pl = Inr d'"
  shows "ready d' \<and> (\<forall>tx. valid (chain d' tx))"
  using append_all_valid [OF ready_frame [OF assms(1,3,4)] _ assms(5)] assms(2)
    chain_frame [OF assms(3)] by simp

text \<open>Two appends in one transaction, as a request evaluation makes.\<close>

lemma append_two_all_valid:
  assumes "ready d" and "\<forall>tx. valid (chain d tx)"
    and "evidence_events d1 = evidence_events d" and "readings d \<le> readings d1"
    and "append d1 tx ty ac pl = Inr d2" and "append d2 tx' ty' ac' pl' = Inr d'"
  shows "ready d' \<and> (\<forall>tx. valid (chain d' tx))"
  using append_all_valid_after [OF assms(1-5)] append_all_valid [OF _ _ assms(6)] by blast

end

section \<open>The implementation meets the interface\<close>

definition ordered_events :: "evidence_event list \<Rightarrow> bool" where
  "ordered_events evs \<longleftrightarrow> sorted_wrt (\<lambda>a b. ev_created_at a < ev_created_at b) evs"

text \<open>
  The clock is strictly increasing and ahead of every recorded event. The code orders events
  by timestamp alone, so this is what its chains depend on.
\<close>

definition log_ready :: "env \<Rightarrow> db \<Rightarrow> bool" where
  "log_ready E d \<longleftrightarrow> strict_mono (clock E) \<and>
     ordered_events (evidence_events d) \<and>
     (\<forall>e\<in>set (evidence_events d). ev_created_at e < clock E (readings d))"

lemma append_event_Inr:
  assumes "append_event E d tx ty ac pl = Inr d'"
  obtains e where "d' = d\<lparr>evidence_events := evidence_events d @ [e], readings := Suc (readings d)\<rparr>"
    "ev_transaction_id e = tx" "ev_event_type e = ty" "ev_actor e = ac" "ev_payload e = pl"
    "ev_created_at e = clock E (readings d)" "ev_payload_hash e = hash_json E pl"
    "ev_chain_hash e = chain_hash E (ev_prev_hash e) (ev_payload_hash e)"
    "ev_prev_hash e = (case latest ev_created_at (of_transaction tx (evidence_events d)) of
        Some l \<Rightarrow> ev_chain_hash l | None \<Rightarrow> genesis_hash)"
proof -
  from assms show ?thesis
    by (auto simp: append_event_def Let_def split: option.splits
        dest!: evidence_tab.ins_some intro!: that)
qed

lemma append_event_id:
  assumes "append_event E d tx ty ac pl = Inr d'"
  shows "\<exists>e. d' = d\<lparr>evidence_events := evidence_events d @ [e], readings := Suc (readings d)\<rparr> \<and>
    ev_evidence_id e = uuid_str (uuid_hex E (readings d))"
  using assms by (auto simp: append_event_def Let_def split: option.splits dest!: evidence_tab.ins_some)

text \<open>What is appended depends on the log and the clock, on nothing else in the database.\<close>

lemma append_event_same_log:
  assumes "append_event E d tx ty ac pl = Inr d1"
    and "evidence_events d2 = evidence_events d" and "readings d2 = readings d"
  shows "append_event E d2 tx ty ac pl = Inr (d2\<lparr>evidence_events := evidence_events d1, readings := readings d1\<rparr>)"
  using assms by (auto simp: append_event_def Let_def split: option.splits)

lemma of_transaction_snoc:
  "of_transaction tx (evs @ [e]) = of_transaction tx evs @ (if ev_transaction_id e = tx then [e] else [])"
  by (simp add: of_transaction_def)

lemma ordered_of_transaction: "ordered_events evs \<Longrightarrow> ordered_events (of_transaction tx evs)"
  by (simp add: ordered_events_def of_transaction_def sorted_wrt_filter)

lemma ordered_sort: "ordered_events evs \<Longrightarrow> sort_key ev_created_at evs = evs"
  by (rule sort_key_sorted)
    (auto simp: ordered_events_def sorted_map intro: sorted_wrt_mono_rel [rotated])

lemma ordered_latest:
  "ordered_events evs \<Longrightarrow> latest ev_created_at evs = (if evs = [] then None else Some (last evs))"
proof (induction evs rule: rev_induct)
  case (snoc e evs)
  then have "\<forall>r\<in>set evs. ev_created_at r < ev_created_at e"
    by (auto simp: ordered_events_def sorted_wrt_append)
  then show ?case by (simp add: latest_snoc)
qed simp

lemma get_chain_ready: "log_ready E d \<Longrightarrow> get_chain d tx = of_transaction tx (evidence_events d)"
  by (simp add: get_chain_def log_ready_def ordered_sort ordered_of_transaction)

lemma verify_from_snoc:
  "verify_from E prev (es @ [e]) \<longleftrightarrow> verify_from E prev es \<and>
   hash_json E (ev_payload e) = ev_payload_hash e \<and>
   chain_hash E (if es = [] then prev else ev_chain_hash (last es)) (ev_payload_hash e) = ev_chain_hash e"
  by (induction es arbitrary: prev) auto

lemma append_event_ready:
  assumes "log_ready E d" and "append_event E d tx ty ac pl = Inr d'"
  shows "log_ready E d'"
  using assms(2)
proof (rule append_event_Inr)
  fix e
  assume d': "d' = d\<lparr>evidence_events := evidence_events d @ [e], readings := Suc (readings d)\<rparr>"
    and e: "ev_created_at e = clock E (readings d)"
  have "clock E (readings d) < clock E (Suc (readings d))"
    using assms(1) by (simp add: log_ready_def strict_mono_Suc_iff)
  with assms(1) d' e show ?thesis
    by (fastforce simp: log_ready_def ordered_events_def sorted_wrt_append)
qed

lemma append_event_chain:
  assumes "log_ready E d" and "append_event E d tx ty ac pl = Inr d'"
  obtains e where "get_chain d' tx = get_chain d tx @ [e]"
    "ev_event_type e = ty" "ev_actor e = ac" "ev_payload e = pl"
    "ev_payload_hash e = hash_json E pl"
    "ev_chain_hash e = chain_hash E (if get_chain d tx = [] then genesis_hash
        else ev_chain_hash (last (get_chain d tx))) (ev_payload_hash e)"
proof (rule append_event_Inr [OF assms(2)])
  fix e
  assume d': "d' = d\<lparr>evidence_events := evidence_events d @ [e], readings := Suc (readings d)\<rparr>"
    and tx: "ev_transaction_id e = tx"
    and e: "ev_event_type e = ty" "ev_actor e = ac" "ev_payload e = pl" "ev_payload_hash e = hash_json E pl"
    and ch: "ev_chain_hash e = chain_hash E (ev_prev_hash e) (ev_payload_hash e)"
    and pv: "ev_prev_hash e = (case latest ev_created_at (of_transaction tx (evidence_events d)) of
        Some l \<Rightarrow> ev_chain_hash l | None \<Rightarrow> genesis_hash)"
  have old: "get_chain d tx = of_transaction tx (evidence_events d)"
    by (rule get_chain_ready [OF assms(1)])
  have new: "get_chain d' tx = get_chain d tx @ [e]"
    using get_chain_ready [OF append_event_ready [OF assms]] d' tx old
    by (simp add: of_transaction_snoc)
  have "latest ev_created_at (of_transaction tx (evidence_events d)) =
      (if get_chain d tx = [] then None else Some (last (get_chain d tx)))"
    using assms(1) old by (simp add: ordered_latest ordered_of_transaction log_ready_def)
  with pv have "ev_prev_hash e = (if get_chain d tx = [] then genesis_hash
      else ev_chain_hash (last (get_chain d tx)))"
    by simp
  with new e ch show ?thesis using that by simp
qed

lemma append_event_valid:
  assumes "log_ready E d" and "append_event E d tx ty ac pl = Inr d'"
    and "verify_chain E (get_chain d tx)"
  shows "verify_chain E (get_chain d' tx)"
  by (rule append_event_chain [OF assms(1,2)])
    (use assms(3) in \<open>simp add: verify_chain_def verify_from_snoc\<close>)

interpretation evidence: evidence_log "append_event E" get_chain "verify_chain E" "log_ready E"
  for E
proof
  fix d d' tx tx' ty ac pl
  show "\<exists>e. get_chain d' tx = get_chain d tx @ [e] \<and> ev_event_type e = ty \<and> ev_actor e = ac \<and> ev_payload e = pl"
    if "log_ready E d" "append_event E d tx ty ac pl = Inr d'"
    using append_event_chain [OF that] by metis
  show "get_chain d' tx' = get_chain d tx'"
    if "append_event E d tx ty ac pl = Inr d'" "tx' \<noteq> tx"
    by (rule append_event_Inr [OF that(1)]) (use that(2) in \<open>simp add: get_chain_def of_transaction_snoc\<close>)
  show "verify_chain E (get_chain d' tx)"
    if "log_ready E d" "append_event E d tx ty ac pl = Inr d'" "verify_chain E (get_chain d tx)"
    using that by (rule append_event_valid)
  show "log_ready E d'" if "log_ready E d" "append_event E d tx ty ac pl = Inr d'"
    using that by (rule append_event_ready)
  show "d' = d\<lparr>evidence_events := evidence_events d', readings := readings d'\<rparr> \<and> readings d \<le> readings d'"
    if "append_event E d tx ty ac pl = Inr d'"
    by (rule append_event_Inr [OF that]) simp
  show "log_ready E d'"
    if "log_ready E d" "evidence_events d' = evidence_events d" "readings d \<le> readings d'"
    using that strict_mono_less_eq [of "clock E" "readings d" "readings d'"]
    by (force simp: log_ready_def)
  show "get_chain d' tx = get_chain d tx" if "evidence_events d' = evidence_events d"
    using that by (simp add: get_chain_def)
qed

end
