(* ===== verification/Service.thy ===== *)
theory Service
  imports Evidence
begin

text \<open>
  The stateful evaluation of an agent's request, app/policy/service.py, and the routes that
  expose it and the stateless engine (app/routes/agent.py, app/routes/policy.py). A request is
  authenticated before anything is looked up; every authenticated request leaves a decision
  row and two evidence events, an unauthenticated one a single rejection event.
\<close>

section \<open>Transactions\<close>

text \<open>
  A sequence of statements followed by a commit: when a statement raises, the session is
  closed without a commit and the database stays as it was.
\<close>

definition transact :: "db \<Rightarrow> exn + ('a \<times> db) \<Rightarrow> 'a handled" where
  "transact d x = (case x of Inl e \<Rightarrow> (Inl (Raised e), d) | Inr (v, d') \<Rightarrow> (Inr v, d'))"

definition insert_request :: "agent_request_row \<Rightarrow> db \<Rightarrow> exn + db" where
  "insert_request r d =
     (if list_ex (\<lambda>q. ar_authorization_id q = ar_authorization_id r \<and> ar_nonce q = ar_nonce r) (agent_requests d)
      then Inl IntegrityError
      else case row_insert ar_request_id r (agent_requests d) of
             None \<Rightarrow> Inl IntegrityError
           | Some rows \<Rightarrow> Inr (d\<lparr>agent_requests := rows\<rparr>))"

definition insert_decision :: "policy_decision \<Rightarrow> db \<Rightarrow> exn + db" where
  "insert_decision r d =
     (case row_insert pd_decision_id r (policy_decisions d) of
        None \<Rightarrow> Inl IntegrityError
      | Some rows \<Rightarrow> Inr (d\<lparr>policy_decisions := rows\<rparr>))"

text \<open>\<^verbatim>\<open>uuid4().hex[:12]\<close> with a prefix.\<close>

definition short_id :: "env \<Rightarrow> string \<Rightarrow> nat \<Rightarrow> string" where
  "short_id E prefix n = prefix @ take 12 (uuid_hex E n)"

section \<open>Authentication of the sender\<close>

text \<open>The reason for a 401, if any. The mandate's own signature is checked first.\<close>

definition rejection_reason :: "env \<Rightarrow> envelope \<Rightarrow> agent_request \<Rightarrow> string option" where
  "rejection_reason E auth req =
     (let mandate_hash = compute_evidence_hash E (unsigned_dict auth) in
      if mandate_hash \<noteq> evidence_hash auth \<or> \<not> truthy (signature auth)
         \<or> \<not> verify E mandate_hash (the (signature auth)) (public_key (agent auth)) then
        Some ''SIGNATURE_INVALID''
      else if req_agent_id req \<noteq> agent_id (agent auth) then Some ''AGENT_ID_MISMATCH''
      else if \<not> truthy (request_public_key (agent auth)) then Some ''AGENT_KEY_MISSING''
      else if \<not> truthy (agent_signature req)
         \<or> \<not> verify E (request_hash E (req_authorization_id req) (req_agent_id req) (req_nonce req) (req_cart req))
                (the (agent_signature req)) (the (request_public_key (agent auth))) then
        Some ''AGENT_SIGNATURE_INVALID''
      else None)"

section \<open>The evaluation\<close>

record request_outcome =
  out_request_id :: string
  out_decision_id :: string
  out_decision :: decision
  out_reason :: reason
  out_message :: string

definition find_nonce :: "db \<Rightarrow> string \<Rightarrow> string \<Rightarrow> agent_request_row option" where
  "find_nonce d auth_id n =
     find (\<lambda>r. ar_authorization_id r = auth_id \<and> ar_nonce r = n) (agent_requests d)"

text \<open>
  The clock reading taken for \<^verbatim>\<open>current_time\<close> has the number \<^verbatim>\<open>readings d\<close>; the two identifiers
  and the creation times of the two rows have the four numbers after it.
\<close>

definition service_opts :: "env \<Rightarrow> db \<Rightarrow> authorization_row \<Rightarrow> agent_request \<Rightarrow> eval_opts" where
  "service_opts E d auth_row req =
     default_opts\<lparr>current_time := Some (utc_datetime (clock E (readings d))),
       nonce_already_used := (find_nonce d (req_authorization_id req) (req_nonce req) \<noteq> None),
       transactions_used := au_used_count auth_row\<rparr>"

definition evaluate_or_revoked :: "env \<Rightarrow> db \<Rightarrow> authorization_row \<Rightarrow> agent_request \<Rightarrow> exn + policy_result" where
  "evaluate_or_revoked E d auth_row req =
     (if get_revocation (req_authorization_id req) d \<noteq> None then
        Inr (block MANDATE_REVOKED ''Mandate has been revoked by the operator.'')
      else evaluate_policy E (readings d) (au_envelope auth_row) (req_cart req) (service_opts E d auth_row req))"

definition request_state :: "decision \<Rightarrow> string" where
  "request_state dec = (if dec = ALLOW then ''VERIFIED'' else decision_value dec)"

definition request_row :: "env \<Rightarrow> agent_request \<Rightarrow> decision \<Rightarrow> db \<Rightarrow> agent_request_row" where
  "request_row E req dec d =
     \<lparr>ar_request_id = short_id E ''req-'' (readings d + 1), ar_authorization_id = req_authorization_id req,
      ar_agent_id = req_agent_id req, ar_nonce = req_nonce req, ar_cart = req_cart req,
      ar_state = request_state dec, ar_created_at = clock E (readings d + 3)\<rparr>"

definition store_request ::
  "env \<Rightarrow> agent_request \<Rightarrow> decision \<Rightarrow> agent_request_row option \<Rightarrow> db \<Rightarrow> exn + (string \<times> db)" where
  "store_request E req dec existing d =
     (case existing of
        Some r \<Rightarrow> Inr (ar_request_id r, d)
      | None \<Rightarrow>
          (let row = request_row E req dec d
           in and_then (insert_request row d) (\<lambda>d'. Inr (ar_request_id row, d'))))"

definition decision_row :: "env \<Rightarrow> string \<Rightarrow> string \<Rightarrow> policy_result \<Rightarrow> db \<Rightarrow> policy_decision" where
  "decision_row E auth_id request_id res d =
     \<lparr>pd_decision_id = short_id E ''dec-'' (readings d + 2), pd_request_id = request_id,
      pd_authorization_id = auth_id, pd_decision = decision res, pd_reason = reason res,
      pd_created_at = clock E (readings d + 4)\<rparr>"

definition store_decision ::
  "env \<Rightarrow> string \<Rightarrow> string \<Rightarrow> policy_result \<Rightarrow> db \<Rightarrow> exn + (string \<times> db)" where
  "store_decision E auth_id request_id res d =
     (let row = decision_row E auth_id request_id res d
      in and_then (insert_decision row d) (\<lambda>d'. Inr (pd_decision_id row, d')))"

definition count_use :: "string \<Rightarrow> decision \<Rightarrow> db \<Rightarrow> db" where
  "count_use auth_id dec d =
     (if dec = ALLOW then
        d\<lparr>authorizations := row_update au_authorization_id auth_id
             (\<lambda>a. a\<lparr>au_used_count := au_used_count a + 1\<rparr>) (authorizations d)\<rparr>
      else d)"

definition received_payload :: "string \<Rightarrow> agent_request \<Rightarrow> json" where
  "received_payload request_id req = JObj
     [(''request_id'', JStr request_id), (''nonce'', JStr (req_nonce req)),
      (''cart'', cart_json (req_cart req)), (''agent_signature'', json_opt JStr (agent_signature req)),
      (''signature_verified'', JBool True)]"

definition evaluated_payload :: "policy_result \<Rightarrow> json" where
  "evaluated_payload res = JObj
     [(''decision'', JStr (decision_value (decision res))), (''reason'', JStr (reason_value (reason res))),
      (''message'', JStr (message res))]"

definition record_evaluation ::
  "env \<Rightarrow> agent_request \<Rightarrow> policy_result \<Rightarrow> agent_request_row option \<Rightarrow> db \<Rightarrow> exn + (request_outcome \<times> db)" where
  "record_evaluation E req res existing d =
     (let auth_id = req_authorization_id req in
      and_then (store_request E req (decision res) existing d) (\<lambda>(request_id, d1).
      and_then (store_decision E auth_id request_id res d1) (\<lambda>(decision_id, d2).
      and_then (append_event E ((count_use auth_id (decision res) d2)\<lparr>readings := readings d + 5\<rparr>) auth_id
                  (if existing = None then ''AGENT_REQUEST_RECEIVED'' else ''REPLAY_ATTEMPT_BLOCKED'')
                  (req_agent_id req) (received_payload request_id req)) (\<lambda>d3.
      and_then (append_event E d3 auth_id ''POLICY_EVALUATED'' ''policy-engine'' (evaluated_payload res)) (\<lambda>d4.
        Inr (\<lparr>out_request_id = request_id, out_decision_id = decision_id, out_decision = decision res,
              out_reason = reason res, out_message = message res\<rparr>, d4))))))"

definition rejection_message :: string where
  "rejection_message =
     ''Agent request authentication failed. Confirm the mandate and sign the complete request.''"

definition evaluate_agent_request :: "env \<Rightarrow> agent_request \<Rightarrow> db \<Rightarrow> request_outcome handled" where
  "evaluate_agent_request E req d =
     (let auth_id = req_authorization_id req in
      case lock_authorization d auth_id of
        Inl f \<Rightarrow> (Inl f, d)
      | Inr auth_row \<Rightarrow>
          (case rejection_reason E (au_envelope auth_row) req of
             Some why \<Rightarrow>
               (case append_event E d auth_id ''AGENT_REQUEST_REJECTED'' ''agent-verifier''
                       (JObj [(''claimed_agent_id'', JStr (req_agent_id req)), (''reason'', JStr why)]) of
                  Inl e \<Rightarrow> (Inl (Raised e), d)
                | Inr d' \<Rightarrow> (Inl (HTTPException 401 (Verdict ''BLOCK'' why rejection_message)), d'))
           | None \<Rightarrow>
               transact d (and_then (evaluate_or_revoked E d auth_row req) (\<lambda>res.
                 record_evaluation E req res (find_nonce d auth_id (req_nonce req)) d))))"

section \<open>The routes\<close>

record agent_response =
  resp_request_id :: string
  resp_status :: string
  resp_decision :: string
  resp_reason :: string
  resp_message :: string

definition submit_agent_request :: "env \<Rightarrow> agent_request \<Rightarrow> db \<Rightarrow> agent_response handled" where
  "submit_agent_request E req d =
     (let (result, d') = evaluate_agent_request E req d in
      (map_sum id (\<lambda>r. \<lparr>resp_request_id = out_request_id r, resp_status = ''RECEIVED'',
         resp_decision = decision_value (out_decision r), resp_reason = reason_value (out_reason r),
         resp_message = out_message r\<rparr>) result, d'))"

text \<open>\<^verbatim>\<open>POST /policy/evaluate\<close>: the engine alone, at the time of the \<^verbatim>\<open>n\<close>-th clock reading or at a given time.\<close>

definition evaluate_route :: "env \<Rightarrow> nat \<Rightarrow> envelope \<Rightarrow> cart \<Rightarrow> string option \<Rightarrow> exn + (string \<times> string \<times> string)" where
  "evaluate_route E n auth c given_time =
     and_then (case given_time of
                 Some s \<Rightarrow>
                   if s \<noteq> [] then (case fromisoformat E s of None \<Rightarrow> Inl ValueError | Some t \<Rightarrow> Inr t)
                   else Inr (utc_datetime (clock E n))
               | None \<Rightarrow> Inr (utc_datetime (clock E n)))
       (\<lambda>now. and_then (evaluate_policy E n auth c (default_opts\<lparr>current_time := Some now\<rparr>))
         (\<lambda>r. Inr (decision_value (decision r), reason_value (reason r), message r)))"

section \<open>What a request does to the database\<close>

lemma insert_request_Inr:
  "insert_request r d = Inr d' \<longleftrightarrow>
     d' = d\<lparr>agent_requests := agent_requests d @ [r]\<rparr> \<and>
     ar_request_id r \<notin> ar_request_id ` set (agent_requests d) \<and>
     (\<forall>q\<in>set (agent_requests d). \<not> (ar_authorization_id q = ar_authorization_id r \<and> ar_nonce q = ar_nonce r))"
  by (auto simp: insert_request_def list_ex_iff row_insert_def)

lemma insert_decision_Inr:
  "insert_decision r d = Inr d' \<longleftrightarrow>
     d' = d\<lparr>policy_decisions := policy_decisions d @ [r]\<rparr> \<and>
     pd_decision_id r \<notin> pd_decision_id ` set (policy_decisions d)"
  by (auto simp: insert_decision_def row_insert_def)

lemma transact_cases:
  "transact d x = (r, d') \<Longrightarrow> (\<And>e. x = Inl e \<Longrightarrow> r = Inl (Raised e) \<Longrightarrow> d' = d \<Longrightarrow> P) \<Longrightarrow>
   (\<And>v. x = Inr (v, d') \<Longrightarrow> r = Inr v \<Longrightarrow> P) \<Longrightarrow> P"
  by (auto simp: transact_def split: sum.splits prod.splits)

lemma request_row_simps [simp]:
  "ar_authorization_id (request_row E req dec d) = req_authorization_id req"
  "ar_agent_id (request_row E req dec d) = req_agent_id req" "ar_nonce (request_row E req dec d) = req_nonce req"
  "ar_cart (request_row E req dec d) = req_cart req"
  by (simp_all add: request_row_def)

lemma decision_row_simps [simp]:
  "pd_request_id (decision_row E a i res d) = i" "pd_authorization_id (decision_row E a i res d) = a"
  "pd_decision (decision_row E a i res d) = decision res" "pd_reason (decision_row E a i res d) = reason res"
  by (simp_all add: decision_row_def)

lemma evaluate_agent_request_cases:
  assumes "evaluate_agent_request E req d = (r, d')"
  obtains
    (failed) f where "r = Inl f" "d' = d" "\<And>n w. f \<noteq> HTTPException n (Verdict ''BLOCK'' w rejection_message)"
  | (rejected) auth_row why where "get_authorization (req_authorization_id req) d = Some auth_row"
      "rejection_reason E (au_envelope auth_row) req = Some why"
      "append_event E d (req_authorization_id req) ''AGENT_REQUEST_REJECTED'' ''agent-verifier''
         (JObj [(''claimed_agent_id'', JStr (req_agent_id req)), (''reason'', JStr why)]) = Inr d'"
      "r = Inl (HTTPException 401 (Verdict ''BLOCK'' why rejection_message))"
  | (recorded) auth_row res out where "get_authorization (req_authorization_id req) d = Some auth_row"
      "rejection_reason E (au_envelope auth_row) req = None"
      "evaluate_or_revoked E d auth_row req = Inr res"
      "record_evaluation E req res (find_nonce d (req_authorization_id req) (req_nonce req)) d = Inr (out, d')"
      "r = Inr out"
proof (cases "lock_authorization d (req_authorization_id req)")
  case (Inl f)
  then have "f = HTTPException 404 (Text ''Unknown authorization_id'')"
    by (simp add: lock_authorization_def split: option.splits)
  with Inl assms failed show ?thesis by (auto simp: evaluate_agent_request_def Let_def)
next
  case (Inr auth_row)
  then have row: "get_authorization (req_authorization_id req) d = Some auth_row"
    by (simp add: lock_authorization_Inr)
  show ?thesis
  proof (cases "rejection_reason E (au_envelope auth_row) req")
    case (Some why)
    with assms Inr row failed rejected show ?thesis
      by (auto simp: evaluate_agent_request_def Let_def split: sum.splits)
  next
    case None
    with assms Inr have "transact d (and_then (evaluate_or_revoked E d auth_row req) (\<lambda>res.
        record_evaluation E req res (find_nonce d (req_authorization_id req) (req_nonce req)) d)) = (r, d')"
      by (simp add: evaluate_agent_request_def Let_def)
    then show ?thesis
      by (rule transact_cases) (use row None failed recorded in \<open>auto simp: sequence_simps\<close>)
  qed
qed

text \<open>A recorded evaluation, table by table.\<close>

lemma record_evaluation_effect:
  assumes "record_evaluation E req res existing d = Inr (out, d')"
  obtains evs k request_id d1 d2 where
    "d' = d\<lparr>authorizations := authorizations (count_use (req_authorization_id req) (decision res) d),
       agent_requests := agent_requests d @
         (case existing of None \<Rightarrow> [request_row E req (decision res) d] | Some _ \<Rightarrow> []),
       policy_decisions := policy_decisions d @ [decision_row E (req_authorization_id req) request_id res d],
       evidence_events := evs, readings := k\<rparr>"
    "request_id = (case existing of None \<Rightarrow> ar_request_id (request_row E req (decision res) d)
       | Some x \<Rightarrow> ar_request_id x)"
    "readings d < k"
    "existing = None \<Longrightarrow> ar_request_id (request_row E req (decision res) d) \<notin> ar_request_id ` set (agent_requests d)"
    "existing = None \<Longrightarrow> \<forall>q\<in>set (agent_requests d).
       \<not> (ar_authorization_id q = req_authorization_id req \<and> ar_nonce q = req_nonce req)"
    "pd_decision_id (decision_row E (req_authorization_id req) request_id res d)
       \<notin> pd_decision_id ` set (policy_decisions d)"
    "out = \<lparr>out_request_id = request_id,
       out_decision_id = pd_decision_id (decision_row E (req_authorization_id req) request_id res d),
       out_decision = decision res, out_reason = reason res, out_message = message res\<rparr>"
    "evidence_events d1 = evidence_events d" "readings d \<le> readings d1"
    "append_event E d1 (req_authorization_id req)
       (if existing = None then ''AGENT_REQUEST_RECEIVED'' else ''REPLAY_ATTEMPT_BLOCKED'')
       (req_agent_id req) (received_payload request_id req) = Inr d2"
    "append_event E d2 (req_authorization_id req) ''POLICY_EVALUATED'' ''policy-engine''
       (evaluated_payload res) = Inr d'"
proof -
  let ?a = "req_authorization_id req"
  from assms obtain request_id e1 e2 e3 where
    s: "store_request E req (decision res) existing d = Inr (request_id, e1)"
    and i: "insert_decision (decision_row E ?a request_id res e1) e1 = Inr e2"
    and a1: "append_event E ((count_use ?a (decision res) e2)\<lparr>readings := readings d + 5\<rparr>) ?a
       (if existing = None then ''AGENT_REQUEST_RECEIVED'' else ''REPLAY_ATTEMPT_BLOCKED'')
       (req_agent_id req) (received_payload request_id req) = Inr e3"
    and a2: "append_event E e3 ?a ''POLICY_EVALUATED'' ''policy-engine'' (evaluated_payload res) = Inr d'"
    and out: "out = \<lparr>out_request_id = request_id,
       out_decision_id = pd_decision_id (decision_row E ?a request_id res e1),
       out_decision = decision res, out_reason = reason res, out_message = message res\<rparr>"
    by (auto simp: record_evaluation_def store_decision_def Let_def sequence_simps split: prod.splits)
  have e1: "e1 = d\<lparr>agent_requests := agent_requests d @
      (case existing of None \<Rightarrow> [request_row E req (decision res) d] | Some _ \<Rightarrow> [])\<rparr>"
    and rid: "request_id = (case existing of None \<Rightarrow> ar_request_id (request_row E req (decision res) d)
       | Some x \<Rightarrow> ar_request_id x)"
    and new: "existing = None \<Longrightarrow> ar_request_id (request_row E req (decision res) d) \<notin> ar_request_id ` set (agent_requests d)"
    and uniq: "existing = None \<Longrightarrow> \<forall>q\<in>set (agent_requests d).
       \<not> (ar_authorization_id q = ?a \<and> ar_nonce q = req_nonce req)"
    using s by (auto simp: store_request_def Let_def sequence_simps insert_request_Inr split: option.splits)
  have row: "decision_row E ?a request_id res e1 = decision_row E ?a request_id res d"
    by (simp add: decision_row_def e1)
  from i have e2: "e2 = e1\<lparr>policy_decisions := policy_decisions d @ [decision_row E ?a request_id res d]\<rparr>"
    and newd: "pd_decision_id (decision_row E ?a request_id res d) \<notin> pd_decision_id ` set (policy_decisions d)"
    unfolding row insert_decision_Inr by (simp_all add: e1)
  let ?c = "(count_use ?a (decision res) e2)\<lparr>readings := readings d + 5\<rparr>"
  have c: "evidence_events ?c = evidence_events d"
    by (simp add: count_use_def e2 e1)
  have d': "d' = ?c\<lparr>evidence_events := evidence_events d', readings := readings d'\<rparr>"
    and "readings ?c \<le> readings d'"
    using evidence.append_two_frame [OF a1 a2] by (rule conjunct1, rule conjunct2)
  then have k: "readings d < readings d'" by simp
  have eff: "d' = d\<lparr>authorizations := authorizations (count_use ?a (decision res) d),
       agent_requests := agent_requests d @
         (case existing of None \<Rightarrow> [request_row E req (decision res) d] | Some _ \<Rightarrow> []),
       policy_decisions := policy_decisions d @ [decision_row E ?a request_id res d],
       evidence_events := evidence_events d', readings := readings d'\<rparr>"
    by (rule trans [OF d']) (simp add: count_use_def e1 e2)
  have "readings d \<le> readings ?c" by simp
  then show thesis
    using that [OF eff rid k new uniq newd out [unfolded row] c _ a1 a2] by blast
qed

end
