(* ===== verification/Evidence_Properties.thy ===== *)
theory Evidence_Properties
  imports Evidence Demo
begin

text \<open>
  What the hash chain of app/evidence/log.py protects and what it does not: appends keep
  every chain valid while the clock advances; two valid chains that end in the same hash
  have the same payloads unless one of the strings hashed for them collides; the columns
  outside the payload, and a removed tail, are not covered.
\<close>

section \<open>What a verification hashes\<close>

fun chain_inputs :: "string \<Rightarrow> evidence_event list \<Rightarrow> bytes list" where
  "chain_inputs prev [] = []"
| "chain_inputs prev (e # es) = chain_input prev (ev_payload_hash e) # chain_inputs (ev_chain_hash e) es"

definition hashed_strings :: "evidence_event list \<Rightarrow> bytes set" where
  "hashed_strings es = set (chain_inputs genesis_hash es) \<union> set (map (json_blob \<circ> ev_payload) es)"

text \<open>
  The hypothesis about SHA-256, for two given logs: no two of the strings hashed for them
  have one digest, and no event has the genesis value as its hash.
\<close>

definition no_collision :: "env \<Rightarrow> evidence_event list \<Rightarrow> evidence_event list \<Rightarrow> bool" where
  "no_collision E xs ys \<longleftrightarrow> inj_on (sha256_hex E) (hashed_strings xs \<union> hashed_strings ys) \<and>
     genesis_hash \<notin> ev_chain_hash ` (set xs \<union> set ys)"

definition last_hash :: "string \<Rightarrow> evidence_event list \<Rightarrow> string" where
  "last_hash prev es = (if es = [] then prev else ev_chain_hash (last es))"

lemma last_hash_snoc [simp]: "last_hash prev (es @ [e]) = ev_chain_hash e"
  by (simp add: last_hash_def)

lemma chain_inputs_snoc:
  "chain_inputs prev (es @ [e]) = chain_inputs prev es @ [chain_input (last_hash prev es) (ev_payload_hash e)]"
  by (induction es arbitrary: prev) (auto simp: last_hash_def)

lemma verify_chain_snoc:
  "verify_chain E (es @ [e]) \<longleftrightarrow> verify_chain E es \<and> hash_json E (ev_payload e) = ev_payload_hash e \<and>
   chain_hash E (last_hash genesis_hash es) (ev_payload_hash e) = ev_chain_hash e"
  by (simp add: verify_chain_def verify_from_snoc last_hash_def)

lemma genesis_no_colon: "CHR '':'' \<notin> set genesis_hash"
  by (simp add: genesis_hash_def)

lemma last_hash_no_colon:
  assumes "digests_hex E" and "verify_chain E es"
  shows "CHR '':'' \<notin> set (last_hash genesis_hash es)"
proof (cases es rule: rev_cases)
  case Nil
  then show ?thesis by (simp add: last_hash_def genesis_no_colon)
next
  case (snoc xs e)
  with assms(2) have "ev_chain_hash e = chain_hash E (last_hash genesis_hash xs) (ev_payload_hash e)"
    by (simp add: verify_chain_snoc)
  then show ?thesis
    using snoc hex_digest_no_colon [OF chain_hash_hex [OF assms(1)]] by simp
qed

lemma no_collision_snoc: "no_collision E (xs @ [x]) (ys @ [y]) \<Longrightarrow> no_collision E xs ys"
  by (auto simp: no_collision_def hashed_strings_def chain_inputs_snoc intro: inj_on_subset)

lemma chain_determines_payloads:
  assumes "digests_hex E" and "verify_chain E xs" and "verify_chain E ys"
    and "no_collision E xs ys" and "last_hash genesis_hash xs = last_hash genesis_hash ys"
  shows "map (sort_keys \<circ> ev_payload) xs = map (sort_keys \<circ> ev_payload) ys"
  using assms(2-5)
proof (induction xs arbitrary: ys rule: rev_induct)
  case Nil
  then show ?case
    by (cases ys rule: rev_cases) (auto simp: no_collision_def last_hash_def)
next
  case (snoc x xs)
  obtain y ys' where ys: "ys = ys' @ [y]"
    using snoc.prems by (cases ys rule: rev_cases) (auto simp: no_collision_def last_hash_def)
  let ?in = "\<lambda>es e. chain_input (last_hash genesis_hash es) (ev_payload_hash e)"
  have vx: "verify_chain E xs" "hash_json E (ev_payload x) = ev_payload_hash x"
    "chain_hash E (last_hash genesis_hash xs) (ev_payload_hash x) = ev_chain_hash x"
    and vy: "verify_chain E ys'" "hash_json E (ev_payload y) = ev_payload_hash y"
    "chain_hash E (last_hash genesis_hash ys') (ev_payload_hash y) = ev_chain_hash y"
    using snoc.prems(1,2) ys by (auto simp: verify_chain_snoc)
  have inj: "inj_on (sha256_hex E) (hashed_strings (xs @ [x]) \<union> hashed_strings ys)"
    using snoc.prems(3) by (simp add: no_collision_def)
  have "sha256_hex E (?in xs x) = sha256_hex E (?in ys' y)"
    using vx(3) vy(3) snoc.prems(4) ys by (simp add: chain_hash_def)
  then have "?in xs x = ?in ys' y"
    by (rule inj_onD [OF inj]) (auto simp: ys hashed_strings_def chain_inputs_snoc)
  then have eq: "last_hash genesis_hash xs = last_hash genesis_hash ys'" "ev_payload_hash x = ev_payload_hash y"
    using chain_input_inject last_hash_no_colon [OF assms(1) vx(1)] last_hash_no_colon [OF assms(1) vy(1)]
    by blast+
  have "sha256_hex E (json_blob (ev_payload x)) = sha256_hex E (json_blob (ev_payload y))"
    using vx(2) vy(2) eq(2) by (simp add: hash_json_def)
  then have "json_blob (ev_payload x) = json_blob (ev_payload y)"
    by (rule inj_onD [OF inj]) (auto simp: ys hashed_strings_def)
  then have "sort_keys (ev_payload x) = sort_keys (ev_payload y)" by (simp add: json_blob_inject)
  moreover have "map (sort_keys \<circ> ev_payload) xs = map (sort_keys \<circ> ev_payload) ys'"
    using snoc.IH vx(1) vy(1) no_collision_snoc snoc.prems(3) ys eq(1) by blast
  ultimately show ?case using ys by (simp add: comp_def)
qed

section \<open>Properties\<close>

text \<open>
  Appending keeps every transaction's chain valid, adds exactly the requested event to
  the end of its own chain and touches no other, as long as the clock strictly advances.
\<close>

theorem append_event_keeps_chains:
  assumes "log_ready E d" and "\<forall>t. verify_chain E (get_chain d t)"
    and "append_event E d tx ty ac pl = Inr d'"
  shows "log_ready E d' \<and> (\<forall>t. verify_chain E (get_chain d' t)) \<and>
    (\<forall>t. t \<noteq> tx \<longrightarrow> get_chain d' t = get_chain d t) \<and>
    (\<exists>e. get_chain d' tx = get_chain d tx @ [e] \<and> ev_event_type e = ty \<and> ev_actor e = ac \<and> ev_payload e = pl)"
  using evidence.append_all_valid [OF assms] evidence.append_other [OF assms(3)]
    evidence.append_extends [OF assms(1,3)]
  by blast

text \<open>
  C16. Tamper evidence: two non-empty logs that both verify and end in the same chain hash
  carry the same payloads in the same order, up to the order of object keys, unless the
  strings hashed for them collide. Changing, removing, inserting or reordering payloads
  under a known last hash is therefore detected.
\<close>

theorem verify_chain_tamper_evident:
  assumes "digests_hex E" and "verify_chain E xs" and "verify_chain E ys"
    and "xs \<noteq> []" and "ys \<noteq> []" and "ev_chain_hash (last xs) = ev_chain_hash (last ys)"
    and "no_collision E xs ys"
  shows "map (sort_keys \<circ> ev_payload) xs = map (sort_keys \<circ> ev_payload) ys"
  by (rule chain_determines_payloads [OF assms(1-3,7)]) (use assms(4-6) in \<open>simp add: last_hash_def\<close>)

text \<open>
  The chain covers payloads only: rewriting the type, the actor, the stored previous
  hash, the identifier or the timestamp of every event changes no verification.
\<close>

theorem verify_chain_ignores_metadata:
  "verify_chain E (map (\<lambda>e. e\<lparr>ev_event_type := ty e, ev_actor := ac e, ev_prev_hash := ph e,
      ev_evidence_id := i e, ev_transaction_id := tx e, ev_created_at := at e\<rparr>) es) = verify_chain E es"
proof -
  have "verify_from E prev (map (\<lambda>e. e\<lparr>ev_event_type := ty e, ev_actor := ac e, ev_prev_hash := ph e,
      ev_evidence_id := i e, ev_transaction_id := tx e, ev_created_at := at e\<rparr>) es) = verify_from E prev es"
    for prev
    by (induction es arbitrary: prev) auto
  then show ?thesis by (simp add: verify_chain_def)
qed

text \<open>Removing the newest events is not detected: every prefix of a valid chain is valid.\<close>

theorem verify_chain_prefix:
  assumes "verify_chain E (es @ fs)"
  shows "verify_chain E es"
  using assms
  by (induction fs rule: rev_induct) (auto simp: verify_chain_snoc simp flip: append_assoc)

text \<open>
  When the clock steps back between two appends to a fresh log, the two events come out
  in the wrong order and the untampered chain does not verify.
\<close>

theorem clock_step_back_breaks_chain:
  assumes "clock E (Suc (readings d)) < clock E (readings d)"
    and "get_chain d tx = []"
    and "append_event E d tx t1 a1 p1 = Inr d1" and "append_event E d1 tx t2 a2 p2 = Inr d2"
    and "chain_hash E genesis_hash (hash_json E p2) \<noteq>
         chain_hash E (chain_hash E genesis_hash (hash_json E p1)) (hash_json E p2)"
  shows "\<not> verify_chain E (get_chain d2 tx)"
proof (rule append_event_Inr [OF assms(3)], rule append_event_Inr [OF assms(4)])
  fix e f
  have none: "of_transaction tx (evidence_events d) = []"
    using assms(2) by (metis get_chain_def set_empty set_sort)
  assume d1: "d1 = d\<lparr>evidence_events := evidence_events d @ [e], readings := Suc (readings d)\<rparr>"
    and e: "ev_transaction_id e = tx" "ev_created_at e = clock E (readings d)"
      "ev_payload_hash e = hash_json E p1" "ev_chain_hash e = chain_hash E (ev_prev_hash e) (ev_payload_hash e)"
      "ev_prev_hash e = (case latest ev_created_at (of_transaction tx (evidence_events d)) of
        Some l \<Rightarrow> ev_chain_hash l | None \<Rightarrow> genesis_hash)"
    and d2: "d2 = d1\<lparr>evidence_events := evidence_events d1 @ [f], readings := Suc (readings d1)\<rparr>"
    and f: "ev_transaction_id f = tx" "ev_created_at f = clock E (readings d1)"
      "ev_payload_hash f = hash_json E p2" "ev_chain_hash f = chain_hash E (ev_prev_hash f) (ev_payload_hash f)"
      "ev_prev_hash f = (case latest ev_created_at (of_transaction tx (evidence_events d1)) of
        Some l \<Rightarrow> ev_chain_hash l | None \<Rightarrow> genesis_hash)"
  have "of_transaction tx (evidence_events d2) = [e, f]"
    using none d1 d2 e(1) f(1) by (simp add: of_transaction_def)
  then have "get_chain d2 tx = [f, e]"
    using assms(1) e(2) f(2) d1 by (simp add: get_chain_def)
  moreover have "ev_chain_hash f = chain_hash E (chain_hash E genesis_hash (hash_json E p1)) (hash_json E p2)"
    using e f none d1 by (simp add: of_transaction_snoc)
  ultimately show ?thesis
    using assms(5) f(3) by (simp add: verify_chain_def)
qed


section \<open>Witnesses\<close>

text \<open>A digest that depends on every byte, small enough to compute with.\<close>

definition toy_digest :: "bytes \<Rightarrow> string" where
  "toy_digest b = (let n = fold (\<lambda>c a. (5 * a + of_char c) mod 64) b (7::nat)
     in replicate n CHR ''a'' @ replicate (64 - n) CHR ''b'')"

definition toy_env :: env where
  "toy_env = demo_env\<lparr>sha256_hex := toy_digest\<rparr>"

definition backward_env :: env where
  "backward_env = toy_env\<lparr>clock := (\<lambda>n. - int n)\<rparr>"

lemma toy_digests_hex: "digests_hex toy_env"
proof -
  have bound: "fold (\<lambda>c a. (5 * a + of_char c) mod 64) b n < 64" if "n < 64" for b and n :: nat
    using that by (induction b arbitrary: n) auto
  have "hex_digest (toy_digest b)" for b
    using bound [of 7 b]
    by (simp add: toy_digest_def hex_digest_def Let_def list_all_iff set_replicate_conv_if)
  then show ?thesis by (simp add: digests_hex_def toy_env_def)
qed

definition sample_event :: "json \<Rightarrow> evidence_event" where
  "sample_event p =
     \<lparr>ev_evidence_id = ''e'', ev_transaction_id = ''t'', ev_prev_hash = genesis_hash,
      ev_payload_hash = hash_json toy_env p,
      ev_chain_hash = chain_hash toy_env genesis_hash (hash_json toy_env p),
      ev_event_type = ''MANDATE_SIGNED'', ev_actor = ''u'', ev_payload = p, ev_created_at = 0\<rparr>"

definition sample_payload :: json where
  "sample_payload = JObj [(''a'', JInt 1), (''b'', JInt 2)]"

definition sample_payload' :: json where
  "sample_payload' = JObj [(''b'', JInt 2), (''a'', JInt 1)]"

lemma sample_verifies: "verify_chain toy_env [sample_event p]"
  by (simp add: verify_chain_def sample_event_def)

lemma demo_log_ready: "log_ready demo_env empty_db"
  by (simp add: log_ready_def demo_env_def empty_db_def ordered_events_def strict_mono_def)

lemma empty_chain [simp]: "get_chain empty_db t = []"
  by (simp add: get_chain_def empty_db_def of_transaction_def)

theorem append_event_keeps_chains_witness:
  "\<exists>d'. append_event demo_env empty_db ''t'' ''MANDATE_SIGNED'' ''u'' sample_payload = Inr d' \<and>
     verify_chain demo_env (get_chain d' ''t'')"
proof -
  obtain d' where d': "append_event demo_env empty_db ''t'' ''MANDATE_SIGNED'' ''u'' sample_payload = Inr d'"
    by (simp add: append_event_def Let_def row_insert_def empty_db_def)
  moreover have "\<forall>t. verify_chain demo_env (get_chain empty_db t)" by (simp add: verify_chain_def)
  ultimately show ?thesis using append_event_keeps_chains [OF demo_log_ready] by blast
qed

theorem verify_chain_tamper_evident_witness:
  "map (sort_keys \<circ> ev_payload) [sample_event sample_payload] =
   map (sort_keys \<circ> ev_payload) [sample_event sample_payload']"
proof (rule verify_chain_tamper_evident [OF toy_digests_hex sample_verifies sample_verifies])
  have blob: "json_blob sample_payload' = json_blob sample_payload"
    by code_simp
  then have hash: "hash_json toy_env sample_payload' = hash_json toy_env sample_payload"
    by (simp add: hash_json_def)
  show "ev_chain_hash (last [sample_event sample_payload]) = ev_chain_hash (last [sample_event sample_payload'])"
    by (simp add: sample_event_def hash)
  have "sha256_hex toy_env (json_blob sample_payload) \<noteq>
      sha256_hex toy_env (chain_input genesis_hash (hash_json toy_env sample_payload))"
    "chain_hash toy_env genesis_hash (hash_json toy_env sample_payload) \<noteq> genesis_hash"
    by code_simp+
  then show "no_collision toy_env [sample_event sample_payload] [sample_event sample_payload']"
    by (auto simp: no_collision_def hashed_strings_def sample_event_def blob hash inj_on_def)
qed simp_all

theorem verify_chain_prefix_witness: "verify_chain toy_env []"
  by (rule verify_chain_prefix [of toy_env "[]" "[sample_event sample_payload]"])
    (simp add: sample_verifies)

theorem clock_step_back_breaks_chain_witness:
  "\<exists>d1 d2. append_event backward_env empty_db ''t'' ''A'' ''u'' sample_payload = Inr d1 \<and>
     append_event backward_env d1 ''t'' ''B'' ''u'' JNull = Inr d2 \<and>
     \<not> verify_chain backward_env (get_chain d2 ''t'')"
proof -
  obtain d1 where d1: "append_event backward_env empty_db ''t'' ''A'' ''u'' sample_payload = Inr d1"
    by (simp add: append_event_def Let_def row_insert_def empty_db_def)
  have uuids: "uuid_str (uuid_hex backward_env 1) \<noteq> uuid_str (uuid_hex backward_env 0)"
    by code_simp
  obtain d2 where d2: "append_event backward_env d1 ''t'' ''B'' ''u'' JNull = Inr d2"
    using d1 uuids by (auto simp: append_event_def Let_def row_insert_def empty_db_def)
  have "chain_hash backward_env genesis_hash (hash_json backward_env JNull) \<noteq>
      chain_hash backward_env (chain_hash backward_env genesis_hash (hash_json backward_env sample_payload))
        (hash_json backward_env JNull)"
    by code_simp
  then have "\<not> verify_chain backward_env (get_chain d2 ''t'')"
    by (intro clock_step_back_breaks_chain [OF _ _ d1 d2])
      (simp_all add: backward_env_def)
  with d1 d2 show ?thesis by blast
qed

end
