(* ===== verification/Service_Properties.thy ===== *)
theory Service_Properties
  imports Service Policy_Properties Evidence_Properties
begin

text \<open>
  What a call of \<^verbatim>\<open>evaluate_agent_request\<close> guarantees: an unauthenticated sender changes
  nothing but the evidence log, ALLOW is exactly the mandate's specification evaluated on the
  stored state, a replay is blocked and leaves requests and use counts alone, a raised
  exception leaves the database as it was, and the evidence chain records what happened.
\<close>

section \<open>Authentication\<close>

definition authentic :: "env \<Rightarrow> envelope \<Rightarrow> agent_request \<Rightarrow> bool" where
  "authentic E auth req \<longleftrightarrow>
     signature_ok E auth (public_key (agent auth)) \<and> req_agent_id req = agent_id (agent auth) \<and>
     (\<exists>key s. request_public_key (agent auth) = Some key \<and> agent_signature req = Some s \<and> key \<noteq> [] \<and> s \<noteq> [] \<and>
        verify E (request_hash E (req_authorization_id req) (req_agent_id req) (req_nonce req) (req_cart req)) s key)"

lemma truthy_iff: "truthy v \<longleftrightarrow> (\<exists>s. v = Some s \<and> s \<noteq> [])"
  by (simp add: truthy_def split: option.split)

lemma rejection_reason_None: "rejection_reason E auth req = None \<longleftrightarrow> authentic E auth req"
  by (auto simp: rejection_reason_def authentic_def signature_ok_def truthy_iff Let_def)

lemma rejection_reason_genuine:
  "rejection_reason E auth req = None \<Longrightarrow> verification_public_key opts = None \<Longrightarrow> genuine E auth opts"
  by (simp add: rejection_reason_None authentic_def genuine_def opts_public_key_def truthy_def)



section \<open>The decision\<close>

lemma evaluate_or_revoked_Inr:
  "evaluate_or_revoked E d row req = Inr res \<Longrightarrow>
     get_revocation (req_authorization_id req) d \<noteq> None \<and> decision res = BLOCK \<and> reason res = MANDATE_REVOKED
   \<or> get_revocation (req_authorization_id req) d = None \<and>
     evaluate_policy E (readings d) (au_envelope row) (req_cart req) (service_opts E d row req) = Inr res"
  by (auto simp: evaluate_or_revoked_def split: if_splits)

lemma verdict_Inr: "x = Inr res \<Longrightarrow> verdict x = Inr (decision res)"
  by (simp add: verdict_def)

lemma find_nonce_None:
  "find_nonce d a n = None \<longleftrightarrow> (\<forall>r\<in>set (agent_requests d). \<not> (ar_authorization_id r = a \<and> ar_nonce r = n))"
  by (auto simp: find_nonce_def find_None_iff)

lemma find_nonce_Some:
  "find_nonce d a n = Some r \<Longrightarrow> r \<in> set (agent_requests d) \<and> ar_authorization_id r = a \<and> ar_nonce r = n"
  by (auto simp: find_nonce_def find_Some_iff)

text \<open>Whatever else is wrong with a replay, the decision on it is BLOCK.\<close>

lemma replay_decision:
  assumes "evaluate_or_revoked E d auth_row req = Inr res"
    and "find_nonce d (req_authorization_id req) (req_nonce req) = Some first"
  shows "decision res = BLOCK"
  using evaluate_or_revoked_Inr [OF assms(1)]
proof
  let ?o = "service_opts E d auth_row req" and ?a = "au_envelope auth_row"
  assume "get_revocation (req_authorization_id req) d = None \<and>
    evaluate_policy E (readings d) ?a (req_cart req) ?o = Inr res"
  then have "verdict (evaluate_policy E (readings d) ?a (req_cart req) ?o) = Inr (decision res)"
    by (simp add: verdict_def)
  moreover have "\<not> use_permitted ?a (req_cart req) ?o"
    using assms(2) by (simp add: use_permitted_def service_opts_def)
  ultimately show ?thesis
    using allow_char reconsent_char by (cases "decision res") metis+
qed simp

lemma evaluate_or_revoked_allow:
  assumes "rejection_reason E (au_envelope row) req = None" and "evaluate_or_revoked E d row req = Inr res"
  shows "decision res = ALLOW \<longleftrightarrow>
     get_revocation (req_authorization_id req) d = None \<and>
     find_nonce d (req_authorization_id req) (req_nonce req) = None \<and>
     in_validity_window E (au_envelope row) (utc_datetime (clock E (readings d))) \<and>
     cart_currency (req_cart req) = currency (financial_scope (au_envelope row)) \<and>
     (merchant_ids (merchant_scope (au_envelope row)) = [] \<or>
      merchant_id (req_cart req) \<in> set (merchant_ids (merchant_scope (au_envelope row)))) \<and>
     0 < max_transactions (execution_scope (au_envelope row)) \<and>
     au_used_count row < max_transactions (execution_scope (au_envelope row)) \<and>
     contents_permitted (au_envelope row) (req_cart req) \<and>
     total (req_cart req) \<le> max_total (financial_scope (au_envelope row))"
proof (cases "get_revocation (req_authorization_id req) d")
  case (Some x)
  then show ?thesis using evaluate_or_revoked_Inr [OF assms(2)] by auto
next
  case None
  let ?o = "service_opts E d row req"
  have "evaluate_policy E (readings d) (au_envelope row) (req_cart req) ?o = Inr res"
    using evaluate_or_revoked_Inr [OF assms(2)] None by simp
  then have "decision res = ALLOW \<longleftrightarrow>
      verdict (evaluate_policy E (readings d) (au_envelope row) (req_cart req) ?o) = Inr ALLOW"
    by (simp add: verdict_def)
  moreover have "genuine E (au_envelope row) ?o"
    by (rule rejection_reason_genuine [OF assms(1)]) (simp add: service_opts_def default_opts_def)
  moreover have "eval_now E (readings d) ?o = utc_datetime (clock E (readings d))"
    by (simp add: eval_now_def service_opts_def)
  ultimately show ?thesis
    using None by (auto simp: allow_char use_permitted_def service_opts_def default_opts_def)
qed

text \<open>
  C3. ALLOW, exactly: when a request is answered, the answer is ALLOW if and only if the sender
  is authentic, the mandate is not revoked, its window contains the time of the call, the nonce
  was never seen for this mandate, the stored use count is below the mandate's limit, and cart
  and total are within the mandate.
\<close>

theorem service_allow_iff:
  assumes "evaluate_agent_request E req d = (Inr out, d')"
    and "get_authorization (req_authorization_id req) d = Some row"
  shows "out_decision out = ALLOW \<longleftrightarrow>
     authentic E (au_envelope row) req \<and>
     get_revocation (req_authorization_id req) d = None \<and>
     find_nonce d (req_authorization_id req) (req_nonce req) = None \<and>
     in_validity_window E (au_envelope row) (utc_datetime (clock E (readings d))) \<and>
     cart_currency (req_cart req) = currency (financial_scope (au_envelope row)) \<and>
     (merchant_ids (merchant_scope (au_envelope row)) = [] \<or>
      merchant_id (req_cart req) \<in> set (merchant_ids (merchant_scope (au_envelope row)))) \<and>
     0 < max_transactions (execution_scope (au_envelope row)) \<and>
     au_used_count row < max_transactions (execution_scope (au_envelope row)) \<and>
     contents_permitted (au_envelope row) (req_cart req) \<and>
     total (req_cart req) \<le> max_total (financial_scope (au_envelope row))"
  using assms(1)
proof (cases rule: evaluate_agent_request_cases)
  case (recorded auth_row res out')
  have row: "auth_row = row" and out: "out' = out" using recorded(1,5) assms(2) by auto
  have "out_decision out = decision res"
    by (rule record_evaluation_effect [OF recorded(4)]) (simp add: out)
  then show ?thesis
    using evaluate_or_revoked_allow [OF recorded(2,3)] recorded(2) unfolding rejection_reason_None row
    by (simp only: simp_thms)
qed auto

text \<open>
  C19. Replays: when the nonce was seen before for this mandate, an answered request is BLOCKed,
  returns the identifier of the first request, stores no second request and counts no use. A
  decision row and the evidence of the attempt are all it adds.
\<close>

theorem replay_blocked:
  assumes "evaluate_agent_request E req d = (Inr out, d')"
    and "find_nonce d (req_authorization_id req) (req_nonce req) = Some first"
  shows "out_decision out = BLOCK \<and> out_request_id out = ar_request_id first \<and>
     agent_requests d' = agent_requests d \<and> authorizations d' = authorizations d \<and>
     payment_executions d' = payment_executions d"
  using assms(1)
proof (cases rule: evaluate_agent_request_cases)
  case (recorded auth_row res out')
  have block: "decision res = BLOCK" by (rule replay_decision [OF recorded(3) assms(2)])
  show ?thesis
  proof (rule record_evaluation_effect [OF recorded(4)])
    fix evs k request_id
    let ?a = "req_authorization_id req"
    assume d': "d' = d\<lparr>authorizations := authorizations (count_use ?a (decision res) d),
       agent_requests := agent_requests d @ (case find_nonce d ?a (req_nonce req) of
         None \<Rightarrow> [request_row E req (decision res) d] | Some _ \<Rightarrow> []),
       policy_decisions := policy_decisions d @ [decision_row E ?a request_id res d],
       evidence_events := evs, readings := k\<rparr>"
      and rid: "request_id = (case find_nonce d ?a (req_nonce req) of
         None \<Rightarrow> ar_request_id (request_row E req (decision res) d) | Some x \<Rightarrow> ar_request_id x)"
      and out: "out' = \<lparr>out_request_id = request_id,
       out_decision_id = pd_decision_id (decision_row E ?a request_id res d),
       out_decision = decision res, out_reason = reason res, out_message = message res\<rparr>"
    show ?thesis using recorded(5) unfolding d' out rid assms(2) block by (simp add: count_use_def)
  qed
qed auto

text \<open>
  All or nothing: when the evaluation raises (a timestamp that does not parse, a key
  collision) or the mandate is unknown, the database is exactly as it was before the call.
\<close>

theorem service_atomic:
  assumes "evaluate_agent_request E req d = (Inl f, d')"
    and "\<forall>why. f \<noteq> HTTPException 401 (Verdict ''BLOCK'' why rejection_message)"
  shows "d' = d"
  using assms(1) by (cases rule: evaluate_agent_request_cases) (use assms(2) in auto)

section \<open>Evidence\<close>

text \<open>
  The log tells what happened: an answered request extends the chain of its mandate by two
  events, its receipt (or the replay) under the agent's name and the decision with reason and
  message under the policy engine's; a failed authentication extends it by one. Other chains
  are not touched, and all chains that verified still do.
\<close>

theorem service_evidence:
  assumes "log_ready E d" and "\<forall>tx. verify_chain E (get_chain d tx)"
    and "evaluate_agent_request E req d = (r, d')"
  shows "(\<forall>tx. verify_chain E (get_chain d' tx)) \<and> log_ready E d' \<and>
     (\<forall>tx. tx \<noteq> req_authorization_id req \<longrightarrow> get_chain d' tx = get_chain d tx) \<and>
     (\<exists>new. get_chain d' (req_authorization_id req) = get_chain d (req_authorization_id req) @ new \<and>
        (case r of
           Inr out \<Rightarrow> map ev_event_type new =
               [if find_nonce d (req_authorization_id req) (req_nonce req) = None
                then ''AGENT_REQUEST_RECEIVED'' else ''REPLAY_ATTEMPT_BLOCKED'', ''POLICY_EVALUATED''] \<and>
             map ev_actor new = [req_agent_id req, ''policy-engine''] \<and>
             ev_payload (last new) = evaluated_payload (result (out_decision out) (out_reason out) (out_message out))
         | Inl f \<Rightarrow> d' = d \<and> new = [] \<or> map ev_event_type new = [''AGENT_REQUEST_REJECTED'']))"
  using assms(3)
proof (cases rule: evaluate_agent_request_cases)
  case (failed f)
  then show ?thesis using assms(1,2) by simp
next
  case (rejected auth_row why)
  show ?thesis
    using evidence.append_all_valid [OF assms(1,2) rejected(3)] evidence.append_other [OF rejected(3)]
      evidence.append_extends [OF assms(1) rejected(3)] rejected(4) by fastforce
next
  case (recorded auth_row res out)
  let ?a = "req_authorization_id req" and ?x = "find_nonce d (req_authorization_id req) (req_nonce req)"
  show ?thesis
  proof (rule record_evaluation_effect [OF recorded(4)])
    fix request_id d1 d2
    assume e: "evidence_events d1 = evidence_events d" "readings d \<le> readings d1"
      and a1: "append_event E d1 ?a (if ?x = None then ''AGENT_REQUEST_RECEIVED'' else ''REPLAY_ATTEMPT_BLOCKED'')
        (req_agent_id req) (received_payload request_id req) = Inr d2"
      and a2: "append_event E d2 ?a ''POLICY_EVALUATED'' ''policy-engine'' (evaluated_payload res) = Inr d'"
      and out: "out = \<lparr>out_request_id = request_id,
       out_decision_id = pd_decision_id (decision_row E ?a request_id res d),
       out_decision = decision res, out_reason = reason res, out_message = message res\<rparr>"
    have r1: "log_ready E d1" by (rule evidence.ready_frame [OF assms(1) e])
    obtain e1 where e1: "get_chain d2 ?a = get_chain d1 ?a @ [e1]" "ev_actor e1 = req_agent_id req"
      "ev_event_type e1 = (if ?x = None then ''AGENT_REQUEST_RECEIVED'' else ''REPLAY_ATTEMPT_BLOCKED'')"
      using evidence.append_extends [OF r1 a1] by auto
    obtain e2 where e2: "get_chain d' ?a = get_chain d2 ?a @ [e2]" "ev_event_type e2 = ''POLICY_EVALUATED''"
      "ev_actor e2 = ''policy-engine''" "ev_payload e2 = evaluated_payload res"
      using evidence.append_extends [OF evidence.append_ready [OF r1 a1] a2] by auto
    have same: "get_chain d1 tx = get_chain d tx" for tx by (rule evidence.chain_frame [OF e(1)])
    have other: "get_chain d' tx = get_chain d tx" if "tx \<noteq> ?a" for tx
      using evidence.append_other [OF a1 that] evidence.append_other [OF a2 that] same by simp
    have ok: "(\<forall>tx. verify_chain E (get_chain d' tx)) \<and> log_ready E d'"
      using evidence.append_two_all_valid [OF assms(1,2) e a1 a2] by blast
    have pay: "ev_payload e2 = evaluated_payload (result (out_decision out) (out_reason out) (out_message out))"
      by (simp add: e2(4) out evaluated_payload_def)
    show ?thesis
      using ok other recorded(5) e1 e2 same pay
      by (intro conjI exI [of _ "[e1, e2]"]) simp_all
  qed
qed

section \<open>An honest agent is served\<close>

text \<open>The identifiers a call draws are new: the two short ones and the two evidence ones.\<close>

definition fresh_ids :: "env \<Rightarrow> db \<Rightarrow> bool" where
  "fresh_ids E d \<longleftrightarrow>
     (let n = readings d in
      short_id E ''req-'' (n + 1) \<notin> ar_request_id ` set (agent_requests d) \<and>
      short_id E ''dec-'' (n + 2) \<notin> pd_decision_id ` set (policy_decisions d) \<and>
      uuid_str (uuid_hex E (n + 5)) \<notin> ev_evidence_id ` set (evidence_events d) \<and>
      uuid_str (uuid_hex E (n + 6)) \<notin> insert (uuid_str (uuid_hex E (n + 5))) (ev_evidence_id ` set (evidence_events d)))"

lemma append_event_fresh:
  assumes "uuid_str (uuid_hex E (readings d)) \<notin> ev_evidence_id ` set (evidence_events d)"
  obtains e where "append_event E d tx ty ac pl =
      Inr (d\<lparr>evidence_events := evidence_events d @ [e], readings := Suc (readings d)\<rparr>)"
    "ev_evidence_id e = uuid_str (uuid_hex E (readings d))"
  using assms by (auto simp: append_event_def Let_def row_insert_def)

lemma record_evaluation_fresh:
  assumes "fresh_ids E d"
    and "\<forall>q\<in>set (agent_requests d). \<not> (ar_authorization_id q = req_authorization_id req \<and> ar_nonce q = req_nonce req)"
  obtains out e1 e2 where "record_evaluation E req res None d = Inr (out, d\<lparr>
       authorizations := authorizations (count_use (req_authorization_id req) (decision res) d),
       agent_requests := agent_requests d @ [request_row E req (decision res) d],
       policy_decisions := policy_decisions d @ [decision_row E (req_authorization_id req)
         (ar_request_id (request_row E req (decision res) d)) res d],
       evidence_events := evidence_events d @ [e1, e2], readings := readings d + 7\<rparr>)"
    "ev_evidence_id e1 = uuid_str (uuid_hex E (readings d + 5))"
    "ev_evidence_id e2 = uuid_str (uuid_hex E (readings d + 6))"
proof -
  let ?a = "req_authorization_id req" and ?n = "readings d"
  define row where "row = request_row E req (decision res) d"
  define d1 where "d1 = d\<lparr>agent_requests := agent_requests d @ [row]\<rparr>"
  define drow where "drow = decision_row E ?a (ar_request_id row) res d1"
  define d2 where "d2 = d1\<lparr>policy_decisions := policy_decisions d1 @ [drow]\<rparr>"
  define c where "c = (count_use ?a (decision res) d2)\<lparr>readings := ?n + 5\<rparr>"
  have s: "store_request E req (decision res) None d = Inr (ar_request_id row, d1)"
    using assms by (auto simp: store_request_def insert_request_Inr sequence_simps Let_def fresh_ids_def
        row_def d1_def request_row_def)
  have i: "insert_decision drow d1 = Inr d2"
    using assms(1) by (auto simp: insert_decision_Inr d2_def drow_def d1_def decision_row_def fresh_ids_def Let_def)
  have c: "readings c = ?n + 5" "evidence_events c = evidence_events d"
    by (simp_all add: c_def count_use_def d2_def d1_def)
  obtain e1 where e1: "append_event E c ?a ''AGENT_REQUEST_RECEIVED''
       (req_agent_id req) (received_payload (ar_request_id row) req) =
     Inr (c\<lparr>evidence_events := evidence_events c @ [e1], readings := Suc (readings c)\<rparr>)"
    "ev_evidence_id e1 = uuid_str (uuid_hex E (?n + 5))"
  proof -
    have "uuid_str (uuid_hex E (readings c)) \<notin> ev_evidence_id ` set (evidence_events c)"
      using assms(1) c by (simp add: fresh_ids_def Let_def)
    then show ?thesis using append_event_fresh [of E c ?a] that c by metis
  qed
  define d3 where "d3 = c\<lparr>evidence_events := evidence_events c @ [e1], readings := Suc (readings c)\<rparr>"
  have n3: "readings d3 = ?n + 6" by (simp add: d3_def c)
  moreover have "ev_evidence_id ` set (evidence_events d3) =
      insert (uuid_str (uuid_hex E (?n + 5))) (ev_evidence_id ` set (evidence_events d))"
    by (simp add: d3_def c e1(2))
  ultimately have "uuid_str (uuid_hex E (readings d3)) \<notin> ev_evidence_id ` set (evidence_events d3)"
    using assms(1) by (simp only: fresh_ids_def Let_def simp_thms)
  then obtain e2 where e2: "append_event E d3 ?a ''POLICY_EVALUATED'' ''policy-engine'' (evaluated_payload res) =
      Inr (d3\<lparr>evidence_events := evidence_events d3 @ [e2], readings := Suc (readings d3)\<rparr>)"
    "ev_evidence_id e2 = uuid_str (uuid_hex E (readings d3))"
    using append_event_fresh by metis
  have d4: "d3\<lparr>evidence_events := evidence_events d3 @ [e2], readings := Suc (readings d3)\<rparr> = d\<lparr>
       authorizations := authorizations (count_use ?a (decision res) d),
       agent_requests := agent_requests d @ [row], policy_decisions := policy_decisions d @ [drow],
       evidence_events := evidence_events d @ [e1, e2], readings := ?n + 7\<rparr>"
    using n3 by (simp add: d3_def c) (simp add: c_def count_use_def d2_def d1_def)
  have drow: "drow = decision_row E ?a (ar_request_id row) res d"
    by (simp add: drow_def d1_def decision_row_def)
  show thesis
    by (rule that [of "\<lparr>out_request_id = ar_request_id row, out_decision_id = pd_decision_id drow,
          out_decision = decision res, out_reason = reason res, out_message = message res\<rparr>" e1 e2])
      (use s i e1 e2 d4 n3 in \<open>simp_all add: record_evaluation_def Let_def store_decision_def drow_def [symmetric]
        c_def [symmetric] d3_def [symmetric] row_def [symmetric] drow [symmetric]\<close>)
qed

text \<open>
  C20. An honest agent is served: a request inside the mandate, signed by \<^verbatim>\<open>sign_request\<close> with the
  private key of the registered agent key, under a fresh nonce and an unrevoked, unexpired,
  unexhausted mandate with a valid signature, is answered ALLOW, whatever else is stored.
\<close>

theorem honest_request_allowed:
  assumes "ed25519_lawful E" and "fresh_ids E d"
    and "get_authorization (req_authorization_id req) d = Some row"
    and "signature_ok E (au_envelope row) (public_key (agent (au_envelope row)))"
    and "derive_public_key E sk = Inr pk" and "request_public_key (agent (au_envelope row)) = Some pk"
    and "sign_request E req sk = Inr signed" and "req_agent_id req = agent_id (agent (au_envelope row))"
    and "get_revocation (req_authorization_id req) d = None"
    and "find_nonce d (req_authorization_id req) (req_nonce req) = None"
    and "in_validity_window E (au_envelope row) (utc_datetime (clock E (readings d)))"
    and "use_permitted (au_envelope row) (req_cart req) (service_opts E d row req)"
    and "contents_permitted (au_envelope row) (req_cart req)"
    and "total (req_cart req) \<le> max_total (financial_scope (au_envelope row))"
  shows "\<exists>out d'. evaluate_agent_request E signed d = (Inr out, d') \<and> out_decision out = ALLOW"
proof -
  obtain s where s: "sign E (request_hash E (req_authorization_id req) (req_agent_id req) (req_nonce req) (req_cart req)) sk = Inr s"
    and signed: "signed = req\<lparr>agent_signature := Some s\<rparr>"
    using assms(7) by (auto simp: sign_request_def split: sum.splits)
  have v: "verify E (request_hash E (req_authorization_id req) (req_agent_id req) (req_nonce req) (req_cart req)) s pk"
    by (rule sign_verify [OF assms(1) s assms(5)])
  then have nonempty: "s \<noteq> [] \<and> pk \<noteq> []"
    using assms(1,5) s by (auto simp: verify_def sign_def derive_public_key_def private_bytes_def
        ed25519_lawful_def split: option.splits if_splits) (metis list.size(3) zero_neq_numeral)+
  have auth: "rejection_reason E (au_envelope row) signed = None"
    unfolding rejection_reason_None authentic_def using assms(4,6,8) v nonempty by (auto simp: signed)
  have opts: "service_opts E d row signed = service_opts E d row req"
    by (simp add: service_opts_def signed)
  have "verdict (evaluate_policy E (readings d) (au_envelope row) (req_cart req) (service_opts E d row req)) = Inr ALLOW"
    unfolding allow_char
    using assms(4,11-14) by (simp add: genuine_def opts_public_key_def truthy_def service_opts_def
        default_opts_def eval_now_def)
  then obtain res where res: "evaluate_policy E (readings d) (au_envelope row) (req_cart req) (service_opts E d row req) = Inr res"
    "decision res = ALLOW"
    by (auto simp: verdict_def map_sum_def split: sum.splits)
  have ev: "evaluate_or_revoked E d row signed = Inr res"
    using res(1) assms(9) by (simp add: evaluate_or_revoked_def signed service_opts_def)
  obtain out d' where rec: "record_evaluation E signed res None d = Inr (out, d')"
    using record_evaluation_fresh [OF assms(2), of signed res] assms(10)
    by (metis (no_types) find_nonce_None agent_request.select_convs(1,2) agent_request.surjective
        agent_request.update_convs(5) signed)
  have "evaluate_agent_request E signed d = (Inr out, d')"
    using assms(3,10) auth ev rec
    by (simp add: evaluate_agent_request_def lock_authorization_def signed transact_def)
  moreover have "out_decision out = ALLOW"
    by (rule record_evaluation_effect [OF rec]) (simp add: res(2))
  ultimately show ?thesis by blast
qed

section \<open>Witnesses\<close>

definition demo_row :: authorization_row where
  "demo_row =
     \<lparr>au_authorization_id = ''auth-12345'', au_user_id = ''user_789'', au_envelope = demo_mandate,
      au_signature = Some demo_signature, au_issued_at = utc_datetime 202609051809000000,
      au_expires_at = utc_datetime 202609051830000000, au_used_count = 0, au_max_transactions = 1,
      au_nonce = ''nonce-1'', au_created_at = 202609051810000003\<rparr>"

definition demo_db :: db where
  "demo_db = empty_db\<lparr>authorizations := [demo_row]\<rparr>"

definition demo_request :: agent_request where
  "demo_request =
     \<lparr>req_authorization_id = ''auth-12345'', req_nonce = ''n1'', req_agent_id = ''agent_xyz'',
      req_cart = demo_cart, agent_signature = Some demo_signature\<rparr>"

lemma demo_key_bytes: "b64decode strict demo_key = Some (replicate 32 CHR ''k'')"
  by (simp add: demo_key_def b64_round_trip)

lemma demo_signature_bytes: "b64decode strict demo_signature = Some (replicate 32 CHR ''k'' @ replicate 32 CHR ''k'')"
  by (simp add: demo_signature_def b64_round_trip)

lemma demo_nonempty: "demo_key \<noteq> []" "demo_signature \<noteq> []"
  by (simp_all add: demo_key_def demo_signature_def)

lemma demo_verifies: "verify demo_env demo_digest demo_signature demo_key"
  by (simp add: verify_def demo_key_bytes demo_signature_bytes demo_ascii) (simp add: demo_env_def)

lemma demo_hashes: "hash_json demo_env v = demo_digest" "sha256_hex demo_env b = demo_digest"
  by (simp_all add: hash_json_def demo_env_def)

lemma demo_authentic: "authentic demo_env demo_mandate (demo_request\<lparr>req_nonce := n\<rparr>)"
  using demo_signature_ok
  by (simp add: authentic_def demo_request_def request_hash_def demo_hashes demo_verifies demo_nonempty)
    (simp add: demo_mandate_def demo_verifies demo_nonempty)

lemma demo_get: "row_get au_authorization_id ''auth-12345'' [demo_row] = Some demo_row"
  by (simp add: row_get_def demo_row_def)

lemma demo_envelope: "au_envelope demo_row = demo_mandate"
  by (simp add: demo_row_def)

lemma demo_window: "in_validity_window demo_env demo_mandate (utc_datetime (clock demo_env n)) \<longleftrightarrow> n \<le> 20000000"
proof -
  have "parse_iso demo_env (expires_at (temporal_scope demo_mandate)) =
      Inr \<lparr>local_us = 202609051830000000, utc_offset = Some 0\<rparr>"
    "parse_iso demo_env (issued_at (temporal_scope demo_mandate)) =
      Inr \<lparr>local_us = 202609051809000000, utc_offset = Some 0\<rparr>"
    by (simp_all add: parse_iso_def demo_env_def demo_iso_def demo_mandate_def replace_char_def is_digit_def)
  then show ?thesis
    by (auto simp: in_validity_window_def utc_datetime_def demo_env_def)
qed

lemma demo_contents: "contents_permitted demo_mandate demo_cart"
  by (simp add: contents_permitted_def well_formed_cart_def item_permitted_def demo_mandate_def demo_cart_def
      computed_total_def Let_def demo_sku_no_tip)

lemma demo_use: "use_permitted demo_mandate demo_cart (service_opts E d demo_row req) \<longleftrightarrow>
    find_nonce d (req_authorization_id req) (req_nonce req) = None"
  by (simp add: use_permitted_def service_opts_def default_opts_def demo_row_def demo_mandate_def demo_cart_def)

lemma demo_fresh: "fresh_ids demo_env demo_db"
proof -
  have "uuid_str (demo_uuid 6) \<noteq> uuid_str (demo_uuid 5)" by code_simp
  then show ?thesis
    by (simp add: fresh_ids_def demo_db_def empty_db_def Let_def) (simp add: demo_env_def)
qed

lemma honest_request_allowed_witness:
  "\<exists>out d'. evaluate_agent_request demo_env demo_request demo_db = (Inr out, d') \<and> out_decision out = ALLOW"
proof (rule honest_request_allowed [OF demo_lawful demo_fresh, of demo_request demo_row demo_key demo_key])
  show "get_authorization (req_authorization_id demo_request) demo_db = Some demo_row"
    by (simp add: demo_request_def demo_db_def demo_get)
  show "signature_ok demo_env (au_envelope demo_row) (public_key (agent (au_envelope demo_row)))"
    using demo_signature_ok by (simp add: demo_envelope) (simp add: demo_mandate_def)
  show "derive_public_key demo_env demo_key = Inr demo_key"
    by (simp add: derive_public_key_def private_bytes_def demo_key_bytes)
      (simp add: demo_env_def demo_key_def)
  show "request_public_key (agent (au_envelope demo_row)) = Some demo_key"
    by (simp add: demo_envelope demo_mandate_def)
  have "sign demo_env demo_digest demo_key = Inr demo_signature"
    by (simp add: sign_def private_bytes_def demo_key_bytes demo_ascii)
      (simp add: demo_env_def demo_signature_def)
  then show "sign_request demo_env demo_request demo_key = Inr demo_request"
    by (simp add: sign_request_def request_hash_def demo_hashes) (simp add: demo_request_def)
  show "req_agent_id demo_request = agent_id (agent (au_envelope demo_row))"
    by (simp add: demo_request_def demo_envelope demo_mandate_def)
  show "get_revocation (req_authorization_id demo_request) demo_db = None"
    by (simp add: demo_db_def empty_db_def row_get_def)
  show nonce: "find_nonce demo_db (req_authorization_id demo_request) (req_nonce demo_request) = None"
    by (simp add: demo_db_def empty_db_def find_nonce_def)
  show "in_validity_window demo_env (au_envelope demo_row) (utc_datetime (clock demo_env (readings demo_db)))"
    by (simp add: demo_envelope demo_window demo_db_def empty_db_def)
  show "use_permitted (au_envelope demo_row) (req_cart demo_request) (service_opts demo_env demo_db demo_row demo_request)"
    using nonce demo_use by (simp add: demo_envelope demo_request_def)
  show "contents_permitted (au_envelope demo_row) (req_cart demo_request)"
    using demo_contents by (simp add: demo_envelope demo_request_def)
  show "total (req_cart demo_request) \<le> max_total (financial_scope (au_envelope demo_row))"
    by (simp add: demo_request_def demo_cart_def demo_envelope demo_mandate_def)
qed

text \<open>The demo mandate and the demo request on any database that holds the mandate.\<close>

lemma demo_accepted: "rejection_reason demo_env (au_envelope demo_row) demo_request = None"
  using demo_authentic [of "''n1''"] by (simp add: rejection_reason_None demo_envelope demo_request_def)

lemma demo_decided:
  assumes "readings d \<le> 20000000" and "mandate_revocations d = []"
  shows "evaluate_or_revoked demo_env d demo_row demo_request =
    Inr (if find_nonce d ''auth-12345'' ''n1'' = None then result ALLOW NONE ''All policy checks passed.''
         else block NONCE_ALREADY_USED ''This nonce has already been consumed.'')"
proof -
  let ?o = "service_opts demo_env d demo_row demo_request"
  have gen: "genuine demo_env demo_mandate ?o"
    using rejection_reason_genuine [OF demo_accepted] by (simp add: demo_envelope service_opts_def default_opts_def)
  have win: "in_validity_window demo_env demo_mandate (eval_now demo_env (readings d) ?o)"
    using assms(1) by (simp add: eval_now_def service_opts_def demo_window)
  have scopes: "evaluate_scopes demo_mandate demo_cart ?o =
     (if find_nonce d ''auth-12345'' ''n1'' = None then result ALLOW NONE ''All policy checks passed.''
      else block NONCE_ALREADY_USED ''This nonce has already been consumed.'')"
    by (simp add: evaluate_scopes_def evaluate_cart_def demo_mandate_def demo_cart_def default_opts_def service_opts_def
        negative_item_def computed_total_def check_item_def Let_def demo_sku_no_tip demo_row_def demo_request_def)
  have "evaluate_policy demo_env (readings d) demo_mandate demo_cart ?o = Inr (evaluate_scopes demo_mandate demo_cart ?o)"
    using gen win
    by (auto simp: evaluate_policy_def genuine_def in_validity_window_def eval_now_def Let_def
        split: sum.splits bool.splits)
  moreover have "req_cart demo_request = demo_cart" by (simp add: demo_request_def)
  ultimately show ?thesis
    using scopes assms(2) by (simp add: evaluate_or_revoked_def row_get_def demo_envelope)
qed

lemma demo_run:
  assumes "authorizations d = [demo_row]" and "mandate_revocations d = []" and "readings d \<le> 20000000"
    and "record_evaluation demo_env demo_request
      (if find_nonce d ''auth-12345'' ''n1'' = None then result ALLOW NONE ''All policy checks passed.''
       else block NONCE_ALREADY_USED ''This nonce has already been consumed.'')
      (find_nonce d ''auth-12345'' ''n1'') d = Inr (out, d')"
  shows "evaluate_agent_request demo_env demo_request d = (Inr out, d')"
  using assms(4) demo_decided [OF assms(3,2)] demo_accepted assms(1)
  by (simp add: evaluate_agent_request_def lock_authorization_def demo_get transact_def demo_request_def
      split del: if_split)

lemma agent_requests_demo: "agent_requests demo_db = []"
  by (simp add: demo_db_def empty_db_def)

lemma demo_first_run:
  obtains out d' where "evaluate_agent_request demo_env demo_request demo_db = (Inr out, d')"
proof -
  obtain out d' where "record_evaluation demo_env demo_request (result ALLOW NONE ''All policy checks passed.'')
      None demo_db = Inr (out, d')"
    by (rule record_evaluation_fresh [OF demo_fresh, of demo_request "result ALLOW NONE ''All policy checks passed.''"])
      (auto simp: agent_requests_demo)
  then show ?thesis
    using that by (intro that demo_run) (auto simp: demo_db_def empty_db_def find_nonce_def)
qed

lemma service_allow_iff_witness:
  "\<exists>out d'. evaluate_agent_request demo_env demo_request demo_db = (Inr out, d') \<and> out_decision out = ALLOW"
proof -
  obtain out d' where run: "evaluate_agent_request demo_env demo_request demo_db = (Inr out, d')"
    by (rule demo_first_run)
  have "get_authorization (req_authorization_id demo_request) demo_db = Some demo_row"
    by (simp add: demo_request_def demo_db_def demo_get)
  from service_allow_iff [OF run this] have "out_decision out = ALLOW"
    using demo_authentic [of "''n1''"] demo_contents demo_window [of 0]
    by (simp add: demo_envelope demo_request_def demo_db_def empty_db_def row_get_def find_nonce_def)
      (simp add: demo_row_def demo_mandate_def demo_cart_def)
  with run show ?thesis by blast
qed

lemma service_evidence_witness:
  "\<exists>out d'. evaluate_agent_request demo_env demo_request demo_db = (Inr out, d') \<and>
     (\<forall>tx. verify_chain demo_env (get_chain d' tx))"
proof -
  obtain out d' where run: "evaluate_agent_request demo_env demo_request demo_db = (Inr out, d')"
    by (rule demo_first_run)
  have "log_ready demo_env demo_db" "\<forall>tx. verify_chain demo_env (get_chain demo_db tx)"
    using demo_log_ready
    by (simp_all add: demo_db_def log_ready_def get_chain_def of_transaction_def empty_db_def verify_chain_def)
  from service_evidence [OF this run] run show ?thesis by blast
qed



lemma service_atomic_witness:
  "snd (evaluate_agent_request demo_env demo_request empty_db) = empty_db"
proof -
  have "evaluate_agent_request demo_env demo_request empty_db =
      (Inl (HTTPException 404 (Text ''Unknown authorization_id'')), snd (evaluate_agent_request demo_env demo_request empty_db))"
    by (simp add: evaluate_agent_request_def lock_authorization_def empty_db_def row_get_def Let_def)
  then show ?thesis by (rule service_atomic) simp
qed

text \<open>A database in which the demo request's nonce has been used.\<close>

definition demo_used_db :: db where
  "demo_used_db = demo_db\<lparr>agent_requests := [request_row demo_env demo_request ALLOW demo_db], readings := 7\<rparr>"

lemma replay_blocked_witness:
  "\<exists>out d'. evaluate_agent_request demo_env demo_request demo_used_db = (Inr out, d') \<and> out_decision out = BLOCK"
proof -
  let ?row = "request_row demo_env demo_request ALLOW demo_db"
  have nonce: "find_nonce demo_used_db ''auth-12345'' ''n1'' = Some ?row"
    by (simp add: demo_used_db_def find_nonce_def request_row_def demo_request_def)
  have "uuid_str (demo_uuid 13) \<noteq> uuid_str (demo_uuid 12)" by code_simp
  then obtain out d' where "record_evaluation demo_env demo_request
      (block NONCE_ALREADY_USED ''This nonce has already been consumed.'') (Some ?row) demo_used_db = Inr (out, d')"
    by (simp add: record_evaluation_def store_request_def store_decision_def insert_decision_def row_insert_def
        append_event_def Let_def count_use_def demo_used_db_def demo_db_def empty_db_def demo_env_def)
  then have run: "evaluate_agent_request demo_env demo_request demo_used_db = (Inr out, d')"
    by (intro demo_run) (simp_all add: nonce, simp_all add: demo_used_db_def demo_db_def empty_db_def)
  from replay_blocked [OF run, of ?row] nonce have "out_decision out = BLOCK"
    by (simp add: demo_request_def)
  with run show ?thesis by blast
qed

end
