(* ===== verification/Payload.thy ===== *)
theory Payload
  imports Crypto
begin

text \<open>
  Untrusted dictionaries into envelopes: Python's dictionary access and truth values on JSON,
  pydantic's construction of the models, and the two adapters of app/adapters. Every way the
  code raises (a missing key, a value of the wrong type) is a left value, in the code's order.
\<close>

section \<open>Python on JSON values\<close>

type_synonym payload = "(string \<times> json) list"

fun json_truthy :: "json \<Rightarrow> bool" where
  "json_truthy JNull = False"
| "json_truthy (JBool b) = b"
| "json_truthy (JInt i) = (i \<noteq> 0)"
| "json_truthy (JStr s) = (s \<noteq> [])"
| "json_truthy (JList xs) = (xs \<noteq> [])"
| "json_truthy (JObj kvs) = (kvs \<noteq> [])"

text \<open>\<^verbatim>\<open>d.get(k, v)\<close>, \<^verbatim>\<open>d[k]\<close> and \<^verbatim>\<open>d.get(k) or v\<close>.\<close>

definition get_or :: "payload \<Rightarrow> string \<Rightarrow> json \<Rightarrow> json" where
  "get_or kvs k v = (case map_of kvs k of Some w \<Rightarrow> w | None \<Rightarrow> v)"

definition get_item :: "payload \<Rightarrow> string \<Rightarrow> exn + json" where
  "get_item kvs k = (case map_of kvs k of Some w \<Rightarrow> Inr w | None \<Rightarrow> Inl (KeyError k))"

definition get_truthy :: "payload \<Rightarrow> string \<Rightarrow> json \<Rightarrow> json" where
  "get_truthy kvs k v = (let w = get_or kvs k JNull in if json_truthy w then w else v)"

text \<open>\<^verbatim>\<open>v.get(k, w)\<close> on a value that may not be a dictionary.\<close>

definition attr_get :: "json \<Rightarrow> string \<Rightarrow> json \<Rightarrow> exn + json" where
  "attr_get v k w = (case v of JObj kvs \<Rightarrow> Inr (get_or kvs k w) | _ \<Rightarrow> Inl AttributeError)"

section \<open>Pydantic models\<close>

definition checked :: "'a option \<Rightarrow> exn + 'a" where
  "checked v = (case v of None \<Rightarrow> Inl ValidationError | Some x \<Rightarrow> Inr x)"

definition as_str :: "env \<Rightarrow> json \<Rightarrow> exn + string" where
  "as_str E v = checked (validate_str E v)"

definition as_int :: "env \<Rightarrow> json \<Rightarrow> exn + int" where
  "as_int E v = checked (validate_int E v)"

definition as_bool :: "env \<Rightarrow> json \<Rightarrow> exn + bool" where
  "as_bool E v = checked (validate_bool E v)"

definition as_int_option :: "env \<Rightarrow> json \<Rightarrow> exn + int option" where
  "as_int_option E v = (if v = JNull then Inr None else and_then (as_int E v) (\<lambda>i. Inr (Some i)))"

fun traverse :: "('a \<Rightarrow> exn + 'b) \<Rightarrow> 'a list \<Rightarrow> exn + 'b list" where
  "traverse f [] = Inr []"
| "traverse f (x # xs) = and_then (f x) (\<lambda>y. and_then (traverse f xs) (\<lambda>ys. Inr (y # ys)))"

definition as_str_list :: "env \<Rightarrow> json \<Rightarrow> exn + string list" where
  "as_str_list E v = (case v of JList xs \<Rightarrow> traverse (as_str E) xs | _ \<Rightarrow> Inl ValidationError)"

definition make_principal :: "env \<Rightarrow> json \<Rightarrow> json \<Rightarrow> exn + principal" where
  "make_principal E uid ip =
     and_then (as_str E uid) (\<lambda>u. and_then (as_str E ip) (\<lambda>i.
       Inr \<lparr>user_id = u, identity_provider = i\<rparr>))"

definition make_agent :: "env \<Rightarrow> json \<Rightarrow> json \<Rightarrow> json \<Rightarrow> json \<Rightarrow> exn + agent" where
  "make_agent E ag prov pub trust =
     and_then (as_str E ag) (\<lambda>a. and_then (as_str E prov) (\<lambda>p.
     and_then (as_str E pub) (\<lambda>k. and_then (as_str E trust) (\<lambda>t.
       Inr \<lparr>agent_id = a, provider = p, public_key = k, request_public_key = None, trust_level = t\<rparr>))))"

definition make_merchant_scope :: "env \<Rightarrow> json \<Rightarrow> json \<Rightarrow> exn + merchant_scope" where
  "make_merchant_scope E ids cats =
     and_then (as_str_list E ids) (\<lambda>i. and_then (as_str_list E cats) (\<lambda>c.
       Inr \<lparr>merchant_ids = i, merchant_categories = c\<rparr>))"

definition make_product_scope :: "env \<Rightarrow> json \<Rightarrow> json \<Rightarrow> json \<Rightarrow> json \<Rightarrow> exn + product_scope" where
  "make_product_scope E skus cats forbidden subst =
     and_then (as_str_list E skus) (\<lambda>s. and_then (as_str_list E cats) (\<lambda>c.
     and_then (as_str_list E forbidden) (\<lambda>f. and_then (as_bool E subst) (\<lambda>b.
       Inr \<lparr>allowed_skus = s, allowed_categories = c, forbidden_skus = f, substitutions_allowed = b\<rparr>))))"

definition make_financial_scope :: "env \<Rightarrow> json \<Rightarrow> json \<Rightarrow> json \<Rightarrow> json \<Rightarrow> json \<Rightarrow> json \<Rightarrow> exn + financial_scope" where
  "make_financial_scope E cur total_value unit ship tx tips =
     and_then (as_str E cur) (\<lambda>c. and_then (as_int E total_value) (\<lambda>m.
     and_then (as_int_option E unit) (\<lambda>u. and_then (as_bool E ship) (\<lambda>s.
     and_then (as_bool E tx) (\<lambda>x. and_then (as_bool E tips) (\<lambda>t.
       Inr \<lparr>currency = c, max_total = m, max_unit_price = u, shipping_included = s,
            tax_included = x, tips_allowed = t\<rparr>))))))"

definition make_quantity_scope :: "env \<Rightarrow> json \<Rightarrow> exn + quantity_scope" where
  "make_quantity_scope E n = and_then (as_int E n) (\<lambda>m. Inr \<lparr>max_items = m\<rparr>)"

definition make_temporal_scope :: "env \<Rightarrow> json \<Rightarrow> json \<Rightarrow> exn + temporal_scope" where
  "make_temporal_scope E iss expi =
     and_then (as_str E iss) (\<lambda>i. and_then (as_str E expi) (\<lambda>e.
       Inr \<lparr>issued_at = i, expires_at = e\<rparr>))"

definition make_execution_scope :: "env \<Rightarrow> json \<Rightarrow> json \<Rightarrow> exn + execution_scope" where
  "make_execution_scope E n reus =
     and_then (as_int E n) (\<lambda>m. and_then (as_bool E reus) (\<lambda>r.
       Inr \<lparr>max_transactions = m, reusable = r\<rparr>))"

text \<open>The envelope before it is hashed and signed.\<close>

definition make_envelope ::
  "env \<Rightarrow> json \<Rightarrow> json \<Rightarrow> principal \<Rightarrow> agent \<Rightarrow> merchant_scope \<Rightarrow> product_scope \<Rightarrow> financial_scope
   \<Rightarrow> quantity_scope \<Rightarrow> temporal_scope \<Rightarrow> execution_scope \<Rightarrow> json \<Rightarrow> exn + envelope" where
  "make_envelope E ver auth_id p a m pr f q t x n =
     and_then (as_str E ver) (\<lambda>v. and_then (as_str E auth_id) (\<lambda>i. and_then (as_str E n) (\<lambda>nc.
       Inr \<lparr>version = v, authorization_id = i, principal = p, agent = a, merchant_scope = m,
            product_scope = pr, financial_scope = f, quantity_scope = q, temporal_scope = t,
            execution_scope = x, nonce = nc, evidence_hash = [], signature = None\<rparr>)))"

text \<open>
  The request body (app/routes/agent.py) with its cart (app/models/envelope.py): a missing field
  without a default is a \<^verbatim>\<open>ValidationError\<close>, and keys that are no field are dropped.
\<close>

definition required :: "payload \<Rightarrow> string \<Rightarrow> (json \<Rightarrow> exn + 'a) \<Rightarrow> exn + 'a" where
  "required kvs k f = (case map_of kvs k of None \<Rightarrow> Inl ValidationError | Some v \<Rightarrow> f v)"

definition as_str_option :: "env \<Rightarrow> json \<Rightarrow> exn + string option" where
  "as_str_option E v = (if v = JNull then Inr None else and_then (as_str E v) (\<lambda>s. Inr (Some s)))"

definition make_item :: "env \<Rightarrow> json \<Rightarrow> exn + cart_item" where
  "make_item E v =
     (case v of
        JObj kvs \<Rightarrow>
          and_then (required kvs ''sku'' (as_str E)) (\<lambda>s.
          and_then (required kvs ''unit_price'' (as_int E)) (\<lambda>u.
          and_then (required kvs ''quantity'' (as_int E)) (\<lambda>q.
          and_then (as_str_option E (get_or kvs ''category'' JNull)) (\<lambda>c.
            Inr \<lparr>sku = s, unit_price = u, quantity = q, category = c\<rparr>))))
      | _ \<Rightarrow> Inl ValidationError)"

definition make_items :: "env \<Rightarrow> json \<Rightarrow> exn + cart_item list" where
  "make_items E v = (case v of JList xs \<Rightarrow> traverse (make_item E) xs | _ \<Rightarrow> Inl ValidationError)"

definition make_cart :: "env \<Rightarrow> json \<Rightarrow> exn + cart" where
  "make_cart E v =
     (case v of
        JObj kvs \<Rightarrow>
          and_then (required kvs ''merchant_id'' (as_str E)) (\<lambda>m.
          and_then (required kvs ''items'' (make_items E)) (\<lambda>is.
          and_then (as_int E (get_or kvs ''shipping'' (JInt 0))) (\<lambda>s.
          and_then (as_int E (get_or kvs ''tax'' (JInt 0))) (\<lambda>t.
          and_then (required kvs ''total'' (as_int E)) (\<lambda>n.
          and_then (as_str E (get_or kvs ''currency'' (JStr ''INR''))) (\<lambda>c.
            Inr \<lparr>merchant_id = m, items = is, shipping = s, tax = t, total = n, cart_currency = c\<rparr>))))))
      | _ \<Rightarrow> Inl ValidationError)"

definition make_agent_request :: "env \<Rightarrow> payload \<Rightarrow> exn + agent_request" where
  "make_agent_request E kvs =
     and_then (required kvs ''authorization_id'' (as_str E)) (\<lambda>i.
     and_then (required kvs ''nonce'' (as_str E)) (\<lambda>n.
     and_then (required kvs ''agent_id'' (as_str E)) (\<lambda>a.
     and_then (required kvs ''cart'' (make_cart E)) (\<lambda>c.
     and_then (as_str_option E (get_or kvs ''agent_signature'' JNull)) (\<lambda>s.
       Inr \<lparr>req_authorization_id = i, req_nonce = n, req_agent_id = a, req_cart = c, agent_signature = s\<rparr>)))))"

section \<open>The adapters\<close>

definition generic_scopes ::
  "env \<Rightarrow> payload \<Rightarrow> string \<Rightarrow> exn + (merchant_scope \<times> product_scope \<times> financial_scope \<times> quantity_scope)" where
  "generic_scopes E p total_key =
     and_then (make_merchant_scope E (get_or p ''merchant_ids'' (JList []))
                 (get_or p ''merchant_categories'' (JList []))) (\<lambda>m.
     and_then (make_product_scope E (get_or p ''allowed_skus'' (JList []))
                 (get_or p ''allowed_categories'' (JList [])) (get_or p ''forbidden_skus'' (JList []))
                 (get_or p ''substitutions_allowed'' (JBool False))) (\<lambda>pr.
     and_then (get_item p total_key) (\<lambda>max_total_value.
     and_then (make_financial_scope E (get_or p ''currency'' (JStr ''INR'')) max_total_value
                 (get_or p ''max_unit_price'' JNull) (get_or p ''shipping_included'' (JBool True))
                 (get_or p ''tax_included'' (JBool True)) (get_or p ''tips_allowed'' (JBool False))) (\<lambda>f.
     and_then (make_quantity_scope E (get_or p ''max_items'' (JInt 999))) (\<lambda>q.
       Inr (m, pr, f, q))))))"

definition generic_tail ::
  "env \<Rightarrow> payload \<Rightarrow> json \<Rightarrow> json \<Rightarrow> principal \<Rightarrow> agent
   \<Rightarrow> merchant_scope \<times> product_scope \<times> financial_scope \<times> quantity_scope \<Rightarrow> exn + envelope" where
  "generic_tail E p ver auth_id pri ag scopes =
     (let (m, pr, f, q) = scopes in
      and_then (get_item p ''issued_at'') (\<lambda>iss.
      and_then (get_item p ''expires_at'') (\<lambda>expi.
      and_then (make_temporal_scope E iss expi) (\<lambda>t.
      and_then (make_execution_scope E (get_or p ''max_transactions'' (JInt 1))
                  (get_or p ''reusable'' (JBool False))) (\<lambda>x.
      and_then (get_item p ''nonce'') (\<lambda>n.
        make_envelope E ver auth_id pri ag m pr f q t x n))))))"

text \<open>\<^verbatim>\<open>from_generic_delegation\<close> (app/adapters/adapter\_generic.py).\<close>

definition from_generic_delegation :: "env \<Rightarrow> payload \<Rightarrow> exn + envelope" where
  "from_generic_delegation E p =
     and_then (get_item p ''authorization_id'') (\<lambda>auth_id.
     and_then (get_item p ''user_id'') (\<lambda>uid.
     and_then (make_principal E uid (get_or p ''identity_provider'' (JStr ''generic''))) (\<lambda>pri.
     and_then (get_item p ''agent_id'') (\<lambda>aid.
     and_then (make_agent E aid (get_or p ''agent_provider'' (JStr ''generic-agent''))
                 (get_or p ''agent_public_key'' (JStr ''''))
                 (get_or p ''trust_level'' (JStr ''platform_key''))) (\<lambda>ag.
     and_then (generic_scopes E p ''max_amount'') (\<lambda>scopes.
       generic_tail E p (JStr ''1.0'') auth_id pri ag scopes))))))"

text \<open>\<^verbatim>\<open>from_ap2_checkout_mandate\<close> (app/adapters/adapter\_ap2.py).\<close>

definition from_ap2_checkout_mandate :: "env \<Rightarrow> payload \<Rightarrow> exn + envelope" where
  "from_ap2_checkout_mandate E p =
     (let agent_block = get_or p ''agent'' (JObj []) in
     and_then (get_item p ''authorization_id'') (\<lambda>auth_id.
     and_then (get_item p ''user_id'') (\<lambda>uid.
     and_then (make_principal E uid (get_or p ''identity_provider'' (JStr ''ap2''))) (\<lambda>pri.
     and_then (attr_get agent_block ''agent_id'' (get_or p ''agent_id'' (JStr ''unknown''))) (\<lambda>aid.
     and_then (attr_get agent_block ''provider'' (JStr ''ap2-agent'')) (\<lambda>prov.
     and_then (attr_get agent_block ''public_key'' (get_or p ''agent_public_key'' (JStr ''''))) (\<lambda>pub.
     and_then (attr_get agent_block ''trust_level'' (JStr ''user_key'')) (\<lambda>trust.
     and_then (make_agent E aid prov pub trust) (\<lambda>ag.
     and_then (generic_scopes E p ''max_total_amount'') (\<lambda>scopes.
       generic_tail E p (get_or p ''vct'' (JStr ''mandate.checkout.open.1'')) auth_id pri ag scopes))))))))))"

lemma make_envelope_unsigned:
  "make_envelope E ver auth_id p a m pr f q t x n = Inr e \<Longrightarrow> signature e = None \<and> evidence_hash e = []"
  by (auto simp: make_envelope_def sequence_simps)

end
