(* ===== verification/Settings.thy ===== *)
theory Settings
  imports Rate_Limit
begin

text \<open>
  The settings of app/config.py, read from the process environment, and what app/main.py does
  with them at startup: refuse non-positive cleanup settings, then build the limiter.
\<close>

section \<open>Configuration\<close>

text \<open>
  \<^verbatim>\<open>getenv\<close> is \<^verbatim>\<open>os.getenv\<close> after \<^verbatim>\<open>load_dotenv\<close>; \<^verbatim>\<open>parse_int\<close> is Python's \<^verbatim>\<open>int\<close> on text
  (\<^verbatim>\<open>None\<close>: \<^verbatim>\<open>ValueError\<close> while the module is imported).
\<close>

record settings =
  razorpay_key_id :: "string option"
  razorpay_key_secret :: "string option"
  razorpay_webhook_secret :: "string option"
  database_url :: string
  default_mandate_ttl_minutes :: int
  agent_rate_limit :: int
  agent_rate_limit_global :: int
  agent_rate_limit_window_seconds :: int
  agent_rate_limit_max_clients :: int
  payment_stale_after_seconds :: int
  payment_cleanup_interval_seconds :: int
  payment_cleanup_batch_size :: int

text \<open>\<^verbatim>\<open>os.getenv(k) or None\<close>: an empty value counts as missing.\<close>

definition getenv_or_none :: "(string \<Rightarrow> string option) \<Rightarrow> string \<Rightarrow> string option" where
  "getenv_or_none getenv k = (case getenv k of Some v \<Rightarrow> if v = [] then None else Some v | None \<Rightarrow> None)"

definition getenv_int ::
  "(string \<Rightarrow> string option) \<Rightarrow> (string \<Rightarrow> int option) \<Rightarrow> string \<Rightarrow> int \<Rightarrow> exn + int" where
  "getenv_int getenv parse_int k dflt =
     (case getenv k of
        None \<Rightarrow> Inr dflt
      | Some v \<Rightarrow> (case parse_int v of None \<Rightarrow> Inl ValueError | Some i \<Rightarrow> Inr i))"

definition load_settings ::
  "(string \<Rightarrow> string option) \<Rightarrow> (string \<Rightarrow> int option) \<Rightarrow> exn + settings" where
  "load_settings getenv parse_int =
     (let num = getenv_int getenv parse_int in
      and_then (num ''DEFAULT_MANDATE_TTL_MINUTES'' 20) (\<lambda>ttl.
      and_then (num ''AGENT_RATE_LIMIT'' 60) (\<lambda>per_cl.
      and_then (num ''AGENT_RATE_LIMIT_GLOBAL'' 600) (\<lambda>glob.
      and_then (num ''AGENT_RATE_LIMIT_WINDOW_SECONDS'' 60) (\<lambda>window.
      and_then (num ''AGENT_RATE_LIMIT_MAX_CLIENTS'' 4096) (\<lambda>max_cl.
      and_then (num ''PAYMENT_STALE_AFTER_SECONDS'' 1800) (\<lambda>stale.
      and_then (num ''PAYMENT_CLEANUP_INTERVAL_SECONDS'' 60) (\<lambda>interval.
      and_then (num ''PAYMENT_CLEANUP_BATCH_SIZE'' 100) (\<lambda>batch.
        Inr \<lparr>razorpay_key_id = getenv_or_none getenv ''RAZORPAY_KEY_ID'',
             razorpay_key_secret = getenv_or_none getenv ''RAZORPAY_KEY_SECRET'',
             razorpay_webhook_secret = getenv_or_none getenv ''RAZORPAY_WEBHOOK_SECRET'',
             database_url = (case getenv ''DATABASE_URL'' of Some v \<Rightarrow> v | None \<Rightarrow> ''sqlite:///./firewall.db''),
             default_mandate_ttl_minutes = ttl, agent_rate_limit = per_cl,
             agent_rate_limit_global = glob, agent_rate_limit_window_seconds = window,
             agent_rate_limit_max_clients = max_cl, payment_stale_after_seconds = stale,
             payment_cleanup_interval_seconds = interval, payment_cleanup_batch_size = batch\<rparr>)))))))))"

definition razorpay_configured :: "settings \<Rightarrow> bool" where
  "razorpay_configured cfg =
     (razorpay_key_id cfg \<notin> {None, Some []} \<and> razorpay_key_secret cfg \<notin> {None, Some []})"

text \<open>The engine's arguments: SQLite connections are shared between threads.\<close>

definition connect_args :: "settings \<Rightarrow> (string \<times> json) list" where
  "connect_args cfg =
     (if starts_with (database_url cfg) ''sqlite'' then [(''check_same_thread'', JBool False)] else [])"

section \<open>Startup\<close>

text \<open>\<^verbatim>\<open>lifespan\<close> up to the start of the cleanup task: the limiter of the worker, or the error.\<close>

definition lifespan_startup :: "settings \<Rightarrow> exn + limiter" where
  "lifespan_startup cfg =
     (if list_ex (\<lambda>v. v \<le> 0) [payment_stale_after_seconds cfg, payment_cleanup_interval_seconds cfg,
         payment_cleanup_batch_size cfg]
      then Inl ValueError
      else new_limiter (agent_rate_limit cfg) (agent_rate_limit_global cfg)
             (agent_rate_limit_window_seconds cfg) (agent_rate_limit_max_clients cfg))"

lemma lifespan_startup_Inr:
  "lifespan_startup cfg = Inr l \<Longrightarrow>
     0 < payment_stale_after_seconds cfg \<and> 0 < payment_cleanup_interval_seconds cfg \<and>
     0 < payment_cleanup_batch_size cfg \<and> limiter_inv 0 l"
  by (auto simp: lifespan_startup_def new_limiter_def limiter_inv_def split: if_splits)

end
