(* ===== verification/Authorization.thy ===== *)
theory Authorization
  imports Payload Service Settings
begin

text \<open>
  The trusted surface, app/routes/authorization.py: \<^verbatim>\<open>confirm\<close> turns a reviewed proposal into
  a signed mandate and stores it, \<^verbatim>\<open>revoke\<close> withdraws one for good.
\<close>

section \<open>Building the envelope\<close>

text \<open>\<^verbatim>\<open>timedelta(minutes=m)\<close> in microseconds, and adding it to an instant; both can overflow.\<close>

definition timedelta_minutes :: "json \<Rightarrow> exn + int" where
  "timedelta_minutes m =
     (let build = (\<lambda>i. if -999999999 \<le> (i * 60000000) div 86400000000 \<and> (i * 60000000) div 86400000000 \<le> 999999999
                       then Inr (i * 60000000) else Inl OverflowError)
      in case m of JInt i \<Rightarrow> build i | JBool b \<Rightarrow> build (if b then 1 else 0) | _ \<Rightarrow> Inl TypeError)"

definition instant_add :: "int \<Rightarrow> int \<Rightarrow> exn + int" where
  "instant_add t us = (if 0 \<le> t + us \<and> t + us < 315537897600000000 then Inr (t + us) else Inl OverflowError)"

definition singleton_or_empty :: "payload \<Rightarrow> string \<Rightarrow> json" where
  "singleton_or_empty p k =
     (let v = get_or p k JNull in if json_truthy v then JList [v] else JList [])"

text \<open>
  \<^verbatim>\<open>_build_envelope\<close>; the time is the \<^verbatim>\<open>n\<close>-th clock reading, the identifiers that replace missing
  ones have the next two numbers.
\<close>

definition build_envelope :: "env \<Rightarrow> settings \<Rightarrow> nat \<Rightarrow> payload \<Rightarrow> string \<Rightarrow> exn + envelope" where
  "build_envelope E cfg n m agent_public_key =
     (let now = clock E n in
      and_then (timedelta_minutes (get_or m ''expires_in_minutes'' (JInt (default_mandate_ttl_minutes cfg)))) (\<lambda>ttl.
      and_then (make_principal E (get_or m ''user_id'' (JStr ''demo-user''))
                  (get_or m ''identity_provider'' (JStr ''razorpay''))) (\<lambda>pri.
      and_then (make_agent E (get_or m ''agent_id'' (JStr ''demo-agent''))
                  (get_or m ''agent_provider'' (JStr ''demo'')) (JStr agent_public_key)
                  (get_or m ''trust_level'' (JStr ''user_key''))) (\<lambda>ag.
      and_then (make_merchant_scope E (get_truthy m ''merchant_ids'' (singleton_or_empty m ''merchant_name''))
                  (get_or m ''merchant_categories'' (JList []))) (\<lambda>mer.
      and_then (make_product_scope E (get_or m ''allowed_skus'' (JList []))
                  (get_truthy m ''allowed_categories'' (singleton_or_empty m ''category''))
                  (get_or m ''forbidden_skus'' (JList []))
                  (get_or m ''substitutions_allowed'' (JBool False))) (\<lambda>pr.
      and_then (get_item m ''max_total'') (\<lambda>max_total_value.
      and_then (make_financial_scope E (get_or m ''currency'' (JStr ''INR'')) max_total_value
                  (get_or m ''max_unit_price'' JNull) (get_or m ''shipping_included'' (JBool True))
                  (get_or m ''tax_included'' (JBool True)) (get_or m ''tips_allowed'' (JBool False))) (\<lambda>f.
      and_then (make_quantity_scope E (get_truthy m ''quantity'' (get_or m ''max_items'' (JInt 999)))) (\<lambda>q.
      and_then (if json_truthy (get_or m ''expires_at'' JNull) then Inr (get_or m ''expires_at'' JNull)
                else and_then (instant_add now ttl) (\<lambda>t. Inr (JStr (isoformat E t)))) (\<lambda>expi.
      and_then (make_temporal_scope E (get_truthy m ''issued_at'' (JStr (isoformat E now))) expi) (\<lambda>t.
      and_then (make_execution_scope E (get_or m ''max_transactions'' (JInt 1))
                  (get_or m ''reusable'' (JBool False))) (\<lambda>x.
        make_envelope E (JStr ''1.0'')
          (get_truthy m ''authorization_id'' (JStr (short_id E ''auth-'' (n + 1))))
          pri ag mer pr f q t x
          (get_truthy m ''nonce'' (JStr (uuid_hex E (n + 2))))))))))))))))"

text \<open>What evaluating it on a given proposal unfolds.\<close>

lemmas make_simps = get_or_def get_truthy_def get_item_def make_principal_def make_agent_def make_merchant_scope_def
  make_product_scope_def make_financial_scope_def make_quantity_scope_def make_temporal_scope_def
  make_execution_scope_def make_envelope_def as_str_def as_int_def as_bool_def as_int_option_def as_str_list_def
  checked_def singleton_or_empty_def Let_def

lemmas build_envelope_simps = build_envelope_def timedelta_minutes_def make_simps

section \<open>Confirm\<close>

record confirm_request =
  cf_mandate :: payload
  cf_agent_public_key :: string
  cf_signing_private_key :: "string option"

record confirm_response =
  cr_authorization_id :: string
  cr_status :: string
  cr_public_key :: string
  cr_evidence_hash :: string

definition validate_agent_key :: "string \<Rightarrow> exn + string" where
  "validate_agent_key v =
     (case b64decode True v of
        None \<Rightarrow> Inl ValueError
      | Some raw \<Rightarrow> if length raw = 32 then Inr v else Inl ValueError)"

text \<open>The mandate with the approved agent key, hashed and signed.\<close>

definition sign_envelope :: "env \<Rightarrow> envelope \<Rightarrow> string \<Rightarrow> string \<Rightarrow> exn + envelope" where
  "sign_envelope E env0 agent_key private_key =
     (let env1 = env0\<lparr>agent := (agent env0)\<lparr>request_public_key := Some agent_key\<rparr>\<rparr>;
          h = compute_evidence_hash E (unsigned_dict env1)
      in and_then (sign E h private_key) (\<lambda>s. Inr (env1\<lparr>evidence_hash := h, signature := Some s\<rparr>)))"

definition signed_mandate :: "env \<Rightarrow> settings \<Rightarrow> nat \<Rightarrow> confirm_request \<Rightarrow> exn + (envelope \<times> string)" where
  "signed_mandate E cfg n req =
     (let private_key = (if truthy (cf_signing_private_key req) then the (cf_signing_private_key req)
                         else fst (generate_keypair E n)) in
      and_then (derive_public_key E private_key) (\<lambda>public_key_text.
      and_then (build_envelope E cfg n (cf_mandate req) public_key_text) (\<lambda>env0.
      and_then (sign_envelope E env0 (cf_agent_public_key req) private_key) (\<lambda>signed.
        Inr (signed, public_key_text)))))"

definition parse_datetime :: "env \<Rightarrow> string \<Rightarrow> exn + datetime" where
  "parse_datetime E s = (case fromisoformat E s of None \<Rightarrow> Inl ValueError | Some t \<Rightarrow> Inr t)"

definition mandate_row :: "env \<Rightarrow> db \<Rightarrow> envelope \<Rightarrow> exn + authorization_row" where
  "mandate_row E d e =
     and_then (parse_datetime E (issued_at (temporal_scope e))) (\<lambda>iss.
     and_then (parse_datetime E (expires_at (temporal_scope e))) (\<lambda>expi.
       Inr \<lparr>au_authorization_id = authorization_id e, au_user_id = user_id (principal e),
            au_envelope = e, au_signature = signature e, au_issued_at = iss, au_expires_at = expi,
            au_used_count = 0, au_max_transactions = max_transactions (execution_scope e),
            au_nonce = nonce e, au_created_at = clock E (readings d)\<rparr>))"

definition insert_authorization :: "authorization_row \<Rightarrow> db \<Rightarrow> exn + db" where
  "insert_authorization row d =
     (if list_ex (\<lambda>q. au_nonce q = au_nonce row) (authorizations d) then Inl IntegrityError
      else case row_insert au_authorization_id row (authorizations d) of
             None \<Rightarrow> Inl IntegrityError
           | Some rows \<Rightarrow> Inr (d\<lparr>authorizations := rows, readings := Suc (readings d)\<rparr>))"

text \<open>The mandate's time and identifiers are three readings; the row is inserted after them.\<close>

abbreviation after_build :: "db \<Rightarrow> db" where
  "after_build d \<equiv> d\<lparr>readings := readings d + 3\<rparr>"

text \<open>
  The row is committed before the evidence event is appended: an exception of the append
  leaves a stored mandate behind without its \<^verbatim>\<open>MANDATE_SIGNED\<close> event.
\<close>

definition confirm_authorization :: "env \<Rightarrow> settings \<Rightarrow> confirm_request \<Rightarrow> db \<Rightarrow> confirm_response handled" where
  "confirm_authorization E cfg req d =
     (if isl (validate_agent_key (cf_agent_public_key req)) then
        (Inl (HTTPException 422 (Text ''agent_public_key must be a base64 Ed25519 public key'')), d)
      else case signed_mandate E cfg (readings d) req of
        Inl e \<Rightarrow> (Inl (Raised e), d)
      | Inr (signed, public_key_text) \<Rightarrow>
          if get_authorization (authorization_id signed) d \<noteq> None then
            (Inl (HTTPException 409 (Text ''authorization_id already exists'')), d)
          else
            (case and_then (mandate_row E (after_build d) signed) (\<lambda>row. insert_authorization row (after_build d)) of
               Inl e \<Rightarrow> (Inl (Raised e), d)
             | Inr d1 \<Rightarrow>
                 (case append_event E d1 (authorization_id signed) ''MANDATE_SIGNED''
                         (user_id (principal signed)) (JObj (envelope_dump signed)) of
                    Inl e \<Rightarrow> (Inl (Raised e), d1)
                  | Inr d2 \<Rightarrow>
                      (Inr \<lparr>cr_authorization_id = authorization_id signed, cr_status = ''SIGNED'',
                            cr_public_key = public_key_text, cr_evidence_hash = evidence_hash signed\<rparr>, d2))))"

lemma confirm_success:
  assumes "\<not> isl (validate_agent_key (cf_agent_public_key req))" and "signed_mandate E cfg (readings d) req = Inr (e, pk)"
    and "get_authorization (authorization_id e) d = None" and "mandate_row E (after_build d) e = Inr row"
    and "insert_authorization row (after_build d) = Inr d1"
    and "append_event E d1 (authorization_id e) ''MANDATE_SIGNED'' (user_id (principal e)) (JObj (envelope_dump e)) = Inr d2"
  shows "confirm_authorization E cfg req d =
    (Inr \<lparr>cr_authorization_id = authorization_id e, cr_status = ''SIGNED'', cr_public_key = pk, cr_evidence_hash = evidence_hash e\<rparr>, d2)"
  using assms by (simp add: confirm_authorization_def)

section \<open>Revoke\<close>

text \<open>\<^verbatim>\<open>str.strip()\<close> on the first 256 code points.\<close>

definition is_space :: "char \<Rightarrow> bool" where
  "is_space c = (let n = of_char c :: nat in (9 \<le> n \<and> n \<le> 13) \<or> (28 \<le> n \<and> n \<le> 32) \<or> n = 133 \<or> n = 160)"

definition py_strip :: "string \<Rightarrow> string" where
  "py_strip s = rev (dropWhile is_space (rev (dropWhile is_space s)))"

definition validate_reason :: "string \<Rightarrow> exn + string" where
  "validate_reason r =
     (if length r < 1 \<or> length r > 500 then Inl ValidationError
      else if py_strip r = [] then Inl ValueError else Inr (py_strip r))"

record revoke_response =
  rr_authorization_id :: string
  rr_revoke_status :: string
  rr_reason :: string
  rr_revoked_at :: int

definition revoke_answer :: "mandate_revocation \<Rightarrow> revoke_response" where
  "revoke_answer row =
     \<lparr>rr_authorization_id = rv_authorization_id row, rr_revoke_status = ''REVOKED'',
      rr_reason = rv_reason row, rr_revoked_at = rv_revoked_at row\<rparr>"

definition insert_revocation :: "env \<Rightarrow> mandate_revocation \<Rightarrow> db \<Rightarrow> exn + db" where
  "insert_revocation E row d =
     (case row_insert rv_authorization_id row (mandate_revocations d) of
        None \<Rightarrow> Inl IntegrityError
      | Some rows \<Rightarrow>
          append_event E (d\<lparr>mandate_revocations := rows, readings := readings d + 1\<rparr>)
            (rv_authorization_id row) ''MANDATE_REVOKED'' ''trusted-operator''
            (JObj [(''authorization_id'', JStr (rv_authorization_id row)), (''reason'', JStr (rv_reason row)),
                   (''revoked_at'', JStr (isoformat E (rv_revoked_at row)))]))"

definition revoke_authorization :: "env \<Rightarrow> string \<Rightarrow> string \<Rightarrow> db \<Rightarrow> revoke_response handled" where
  "revoke_authorization E auth_id given_reason d =
     (case validate_reason given_reason of
        Inl e \<Rightarrow> (Inl (HTTPException 422 (Text ''reason'')), d)
      | Inr why \<Rightarrow>
          (case lock_authorization d auth_id of
             Inl f \<Rightarrow> (Inl f, d)
           | Inr _ \<Rightarrow>
               (case get_revocation auth_id d of
                  Some row \<Rightarrow> (Inr (revoke_answer row), d)
                | None \<Rightarrow>
                    (let row = \<lparr>rv_authorization_id = auth_id, rv_reason = why,
                                rv_revoked_at = clock E (readings d)\<rparr>
                     in transact d (and_then (insert_revocation E row d) (\<lambda>d'. Inr (revoke_answer row, d')))))))"

section \<open>What confirm and revoke do to the database\<close>

lemma insert_authorization_Inr:
  "insert_authorization row d = Inr d' \<longleftrightarrow>
     d' = d\<lparr>authorizations := authorizations d @ [row], readings := Suc (readings d)\<rparr> \<and>
     au_nonce row \<notin> au_nonce ` set (authorizations d) \<and>
     au_authorization_id row \<notin> au_authorization_id ` set (authorizations d)"
  by (auto simp: insert_authorization_def list_ex_iff row_insert_def image_iff eq_commute [of "au_nonce row"])

lemma mandate_row_Inr:
  "mandate_row E d e = Inr row \<Longrightarrow>
     au_authorization_id row = authorization_id e \<and> au_envelope row = e \<and> au_used_count row = 0 \<and>
     au_nonce row = nonce e \<and> au_signature row = signature e \<and>
     au_max_transactions row = max_transactions (execution_scope e)"
  by (auto simp: mandate_row_def sequence_simps)

lemma confirm_authorization_cases:
  assumes "confirm_authorization E cfg req d = (r, d')"
  obtains
    (unchanged) "d' = d" "isl r"
  | (unlogged) signed pk row e where "signed_mandate E cfg (readings d) req = Inr (signed, pk)"
      "get_authorization (authorization_id signed) d = None" "mandate_row E (after_build d) signed = Inr row"
      "insert_authorization row (after_build d) = Inr d'" "r = Inl (Raised e)"
  | (stored) signed pk row d1 where "signed_mandate E cfg (readings d) req = Inr (signed, pk)"
      "get_authorization (authorization_id signed) d = None" "mandate_row E (after_build d) signed = Inr row"
      "insert_authorization row (after_build d) = Inr d1"
      "append_event E d1 (authorization_id signed) ''MANDATE_SIGNED''
         (user_id (principal signed)) (JObj (envelope_dump signed)) = Inr d'"
      "r = Inr \<lparr>cr_authorization_id = authorization_id signed, cr_status = ''SIGNED'',
         cr_public_key = pk, cr_evidence_hash = evidence_hash signed\<rparr>"
      "\<not> isl (validate_agent_key (cf_agent_public_key req))"
proof (cases "isl (validate_agent_key (cf_agent_public_key req))")
  case True
  with assms unchanged show ?thesis by (auto simp: confirm_authorization_def)
next
  case key: False
  show ?thesis
  proof (cases "signed_mandate E cfg (readings d) req")
    case (Inl e)
    with assms key unchanged show ?thesis by (auto simp: confirm_authorization_def)
  next
    case (Inr v)
    obtain signed pk where v: "v = (signed, pk)" by (cases v)
    show ?thesis
    proof (cases "get_authorization (authorization_id signed) d")
      case (Some x)
      with assms key Inr v unchanged show ?thesis by (auto simp: confirm_authorization_def)
    next
      case None
      show ?thesis
      proof (cases "and_then (mandate_row E (after_build d) signed) (\<lambda>row. insert_authorization row (after_build d))")
        case (Inl e)
        with assms key Inr v None unchanged show ?thesis by (auto simp: confirm_authorization_def)
      next
        case ins: (Inr d1)
        then obtain row where row: "mandate_row E (after_build d) signed = Inr row" "insert_authorization row (after_build d) = Inr d1"
          by (auto simp: sequence_simps)
        show ?thesis
          using assms key Inr v None ins row unlogged [of signed pk row] stored [of signed pk row d1]
          by (auto simp: confirm_authorization_def split: sum.splits)
      qed
    qed
  qed
qed

lemma insert_revocation_effect:
  assumes "insert_revocation E row d = Inr d'"
  shows "d' = d\<lparr>mandate_revocations := mandate_revocations d @ [row], evidence_events := evidence_events d',
           readings := readings d'\<rparr> \<and>
         rv_authorization_id row \<notin> rv_authorization_id ` set (mandate_revocations d)"
proof -
  let ?d = "d\<lparr>mandate_revocations := mandate_revocations d @ [row], readings := readings d + 1\<rparr>"
  from assms obtain ac pl where a: "append_event E ?d (rv_authorization_id row) ''MANDATE_REVOKED'' ac pl = Inr d'"
    and new: "rv_authorization_id row \<notin> rv_authorization_id ` set (mandate_revocations d)"
    by (auto simp: insert_revocation_def row_insert_def split: option.splits if_splits)
  have "d' = ?d\<lparr>evidence_events := evidence_events d', readings := readings d'\<rparr>"
    using evidence.append_frame [OF a] by (rule conjunct1)
  from trans [OF this] new show ?thesis by simp
qed

lemma revoke_authorization_cases:
  assumes "revoke_authorization E auth_id given_reason d = (r, d')"
  obtains
    (failed) f where "r = Inl f" "d' = d"
  | (already) row where "get_revocation auth_id d = Some row" "r = Inr (revoke_answer row)" "d' = d"
  | (revoked) why row where "validate_reason given_reason = Inr why"
      "row = \<lparr>rv_authorization_id = auth_id, rv_reason = why, rv_revoked_at = clock E (readings d)\<rparr>"
      "auth_id \<in> au_authorization_id ` set (authorizations d)"
      "insert_revocation E row d = Inr d'" "r = Inr (revoke_answer row)"
proof (cases "validate_reason given_reason")
  case (Inl e)
  with assms failed show ?thesis by (auto simp: revoke_authorization_def)
next
  case (Inr why)
  show ?thesis
  proof (cases "lock_authorization d auth_id")
    case (Inl f)
    with assms \<open>validate_reason given_reason = Inr why\<close> failed show ?thesis by (auto simp: revoke_authorization_def)
  next
    case lock: (Inr row)
    then have known: "auth_id \<in> au_authorization_id ` set (authorizations d)"
      unfolding lock_authorization_Inr using auth_tab.get_sound by force
    show ?thesis
    proof (cases "get_revocation auth_id d")
      case (Some rv)
      with assms Inr lock have "r = Inr (revoke_answer rv)" "d' = d" by (auto simp: revoke_authorization_def)
      then show ?thesis by (rule already [OF Some])
    next
      case None
      let ?row = "\<lparr>rv_authorization_id = auth_id, rv_reason = why, rv_revoked_at = clock E (readings d)\<rparr>"
      have "transact d (and_then (insert_revocation E ?row d) (\<lambda>d'. Inr (revoke_answer ?row, d'))) = (r, d')"
        using assms Inr lock None by (simp add: revoke_authorization_def Let_def)
      then show ?thesis
        by (rule transact_cases) (use failed revoked [OF Inr _ known] in \<open>auto simp: sequence_simps\<close>)
    qed
  qed
qed

end
