(* ===== verification/Payment.thy ===== *)
theory Payment
  imports Payload Service Settings "HOL-Library.Product_Lexorder"
begin

text \<open>
  Payment: the provider client and its mock (app/payment/razorpay\_client.py), order creation
  (app/routes/payment.py), the provider's webhook (app/routes/webhooks.py) and the sweep that
  flags unconfirmed orders (app/payment/cleanup.py).
\<close>

section \<open>The provider client\<close>

record order_result =
  or_order_id :: string
  or_amount :: int
  or_currency :: string
  or_status :: string
  or_receipt :: string

datatype payment_executor =
    LiveRazorpayClient "string option"
  | MockRazorpayClient

definition get_payment_executor :: "settings \<Rightarrow> payment_executor" where
  "get_payment_executor cfg =
     (if razorpay_configured cfg then LiveRazorpayClient (razorpay_webhook_secret cfg) else MockRazorpayClient)"

definition mock_secret :: string where
  "mock_secret = ''mock-webhook-secret-do-not-use-in-prod''"

text \<open>\<^verbatim>\<open>hmac.compare_digest\<close> on two texts raises \<^verbatim>\<open>TypeError\<close> unless both are ASCII.\<close>

definition compare_digest :: "string \<Rightarrow> string \<Rightarrow> exn + bool" where
  "compare_digest a b = (if ascii a = None \<or> ascii b = None then Inl TypeError else Inr (a = b))"

definition webhook_digest :: "env \<Rightarrow> string \<Rightarrow> bytes \<Rightarrow> string" where
  "webhook_digest E secret raw = hmac_sha256_hex E (utf8 secret) raw"

definition live_verify_webhook :: "env \<Rightarrow> string option \<Rightarrow> bytes \<Rightarrow> string \<Rightarrow> exn + bool" where
  "live_verify_webhook E secret raw given_signature =
     (if \<not> truthy secret then Inr False
      else compare_digest (webhook_digest E (the secret) raw) given_signature)"

definition mock_verify_webhook :: "env \<Rightarrow> bytes \<Rightarrow> string \<Rightarrow> exn + bool" where
  "mock_verify_webhook E raw given_signature = compare_digest (webhook_digest E mock_secret raw) given_signature"

fun verify_webhook :: "env \<Rightarrow> payment_executor \<Rightarrow> bytes \<Rightarrow> string \<Rightarrow> exn + bool" where
  "verify_webhook E (LiveRazorpayClient secret) raw given_signature = live_verify_webhook E secret raw given_signature"
| "verify_webhook E MockRazorpayClient raw given_signature = mock_verify_webhook E raw given_signature"

definition live_create_order :: "env \<Rightarrow> nat \<Rightarrow> int \<Rightarrow> string \<Rightarrow> string \<Rightarrow> exn + order_result" where
  "live_create_order E n amount cur receipt =
     (case order_create E n amount cur receipt of
        None \<Rightarrow> Inl ProviderError
      | Some po \<Rightarrow> Inr \<lparr>or_order_id = po_id po, or_amount = po_amount po, or_currency = po_currency po,
                        or_status = po_status po, or_receipt = receipt\<rparr>)"

definition mock_create_order :: "env \<Rightarrow> nat \<Rightarrow> int \<Rightarrow> string \<Rightarrow> string \<Rightarrow> order_result" where
  "mock_create_order E n amount cur receipt =
     \<lparr>or_order_id = ''order_MOCK'' @ take 14 (uuid_hex E n), or_amount = amount,
      or_currency = cur, or_status = ''created'', or_receipt = receipt\<rparr>"

fun create_order :: "env \<Rightarrow> payment_executor \<Rightarrow> nat \<Rightarrow> int \<Rightarrow> string \<Rightarrow> string \<Rightarrow> exn + order_result" where
  "create_order E (LiveRazorpayClient secret) n amount cur receipt = live_create_order E n amount cur receipt"
| "create_order E MockRazorpayClient n amount cur receipt = Inr (mock_create_order E n amount cur receipt)"

declare live_verify_webhook_def [simp] mock_verify_webhook_def [simp]
  live_create_order_def [simp] mock_create_order_def [simp]

text \<open>\<^verbatim>\<open>ensure_ascii\<close>, the default of \<^verbatim>\<open>json.dumps\<close>: other characters become escapes.\<close>

definition ensure_ascii :: "string \<Rightarrow> string" where
  "ensure_ascii s = concat (map (\<lambda>c.
     if of_char c < (128::nat) then [c]
     else [CHR 0x5C, CHR ''u'', CHR ''0'', CHR ''0'', hex_digit (of_char c div 16), hex_digit (of_char c mod 16)]) s)"

definition test_webhook_body :: "env \<Rightarrow> nat \<Rightarrow> order_result \<Rightarrow> string \<Rightarrow> json" where
  "test_webhook_body E n order event =
     JObj [(''event'', JStr event), (''payload'', JObj [(''payment'', JObj [(''entity'', JObj
       [(''id'', JStr (''pay_MOCK'' @ take 14 (uuid_hex E n))), (''order_id'', JStr (or_order_id order)),
        (''amount'', JInt (or_amount order)), (''currency'', JStr (or_currency order)),
        (''status'', JStr ''captured'')])])])]"

fun build_test_webhook :: "env \<Rightarrow> payment_executor \<Rightarrow> nat \<Rightarrow> order_result \<Rightarrow> string \<Rightarrow> exn + (bytes \<times> string)" where
  "build_test_webhook E (LiveRazorpayClient secret) n order event = Inl NotImplementedError"
| "build_test_webhook E MockRazorpayClient n order event =
     (let raw = utf8 (ensure_ascii (render (test_webhook_body E n order event)))
      in Inr (raw, webhook_digest E mock_secret raw))"

section \<open>Order creation\<close>

record execute_response =
  ex_order_id :: string
  ex_amount :: int
  ex_currency :: string

definition decisions_for :: "db \<Rightarrow> string \<Rightarrow> string \<Rightarrow> policy_decision list" where
  "decisions_for d auth_id request_id =
     filter (\<lambda>p. pd_request_id p = request_id \<and> pd_authorization_id p = auth_id) (policy_decisions d)"

definition execution_for :: "db \<Rightarrow> string \<Rightarrow> payment_execution option" where
  "execution_for d decision_id = find (\<lambda>x. px_decision_id x = decision_id) (payment_executions d)"

definition insert_execution :: "payment_execution \<Rightarrow> db \<Rightarrow> exn + db" where
  "insert_execution x d =
     (if list_ex (\<lambda>q. px_razorpay_order_id q = px_razorpay_order_id x) (payment_executions d)
      then Inl IntegrityError
      else case row_insert px_execution_id x (payment_executions d) of
             None \<Rightarrow> Inl IntegrityError
           | Some rows \<Rightarrow> Inr (d\<lparr>payment_executions := rows\<rparr>))"

definition execution_row :: "env \<Rightarrow> db \<Rightarrow> string \<Rightarrow> order_result \<Rightarrow> payment_execution" where
  "execution_row E d dec_id order =
     \<lparr>px_execution_id = short_id E ''exec-'' (readings d + 1), px_decision_id = dec_id,
      px_razorpay_order_id = or_order_id order, px_amount = or_amount order,
      px_currency = or_currency order, px_status = CREATED, px_created_at = clock E (readings d + 2)\<rparr>"

definition store_order :: "env \<Rightarrow> string \<Rightarrow> string \<Rightarrow> order_result \<Rightarrow> db \<Rightarrow> exn + db" where
  "store_order E auth_id dec_id order d =
     and_then (insert_execution (execution_row E d dec_id order) d) (\<lambda>d1.
       append_event E (d1\<lparr>readings := readings d + 3\<rparr>) auth_id ''ORDER_CREATED'' ''payment-executor''
         (JObj [(''order_id'', JStr (or_order_id order)), (''amount'', JInt (or_amount order)),
                (''currency'', JStr (or_currency order))]))"

definition create_and_store :: "env \<Rightarrow> settings \<Rightarrow> string \<Rightarrow> string \<Rightarrow> cart \<Rightarrow> db \<Rightarrow> exn + (execute_response \<times> db)" where
  "create_and_store E cfg auth_id dec_id c d =
     and_then (create_order E (get_payment_executor cfg) (readings d) (total c) (cart_currency c) auth_id) (\<lambda>order.
     and_then (store_order E auth_id dec_id order d) (\<lambda>d'.
       Inr (\<lparr>ex_order_id = or_order_id order, ex_amount = or_amount order, ex_currency = or_currency order\<rparr>, d')))"

definition execute_payment :: "env \<Rightarrow> settings \<Rightarrow> string \<Rightarrow> string \<Rightarrow> db \<Rightarrow> execute_response handled" where
  "execute_payment E cfg auth_id request_id d =
     (case lock_authorization d auth_id of
        Inl f \<Rightarrow> (Inl f, d)
      | Inr _ \<Rightarrow>
          if get_revocation auth_id d \<noteq> None then
            (Inl (HTTPException 409 (Verdict ''BLOCK'' ''MANDATE_REVOKED''
               ''Cannot execute payment: mandate has been revoked.'')), d)
          else (case latest pd_created_at (decisions_for d auth_id request_id) of
            None \<Rightarrow> (Inl (HTTPException 404 (Text ''No policy decision found for this request_id'')), d)
          | Some dec_row \<Rightarrow>
              if pd_decision dec_row \<noteq> ALLOW then
                (Inl (HTTPException 409 (Text (''Cannot execute payment: last decision was ''
                   @ decision_value (pd_decision dec_row)))), d)
              else (case execution_for d (pd_decision_id dec_row) of
                Some x \<Rightarrow> (Inr \<lparr>ex_order_id = px_razorpay_order_id x, ex_amount = px_amount x,
                                ex_currency = px_currency x\<rparr>, d)
              | None \<Rightarrow>
                  (case get_request request_id d of
                     None \<Rightarrow> (Inl (HTTPException 404 (Text ''agent_request not found'')), d)
                   | Some req_row \<Rightarrow>
                       transact d (create_and_store E cfg auth_id (pd_decision_id dec_row) (ar_cart req_row) d)))))"

section \<open>The webhook\<close>

text \<open>
  A JSON value bound to a text column, or compared with one, is the text SQLite converts it to;
  a list or a dictionary cannot be bound.
\<close>

fun sql_text :: "json \<Rightarrow> exn + string" where
  "sql_text (JStr s) = Inr s"
| "sql_text (JInt i) = Inr (show_int i)"
| "sql_text (JBool b) = Inr (if b then ''1'' else ''0'')"
| "sql_text JNull = Inl IntegrityError"
| "sql_text _ = Inl StatementError"

text \<open>\<^verbatim>\<open>f"{v}"\<close> of a scalar.\<close>

fun py_str :: "json \<Rightarrow> string" where
  "py_str (JStr s) = s"
| "py_str (JInt i) = show_int i"
| "py_str (JBool b) = (if b then ''True'' else ''False'')"
| "py_str _ = ''None''"

text \<open>\<^verbatim>\<open>v == n\<close> for an integer \<^verbatim>\<open>n\<close>: Python's booleans are the integers 0 and 1.\<close>

fun equals_int :: "json \<Rightarrow> int \<Rightarrow> bool" where
  "equals_int (JInt i) n = (i = n)"
| "equals_int (JBool b) n = ((if b then 1 else 0) = n)"
| "equals_int _ n = False"

definition amount_mismatch :: "json \<Rightarrow> int \<Rightarrow> bool" where
  "amount_mismatch amount expected = (amount \<noteq> JNull \<and> \<not> equals_int amount expected)"

definition payment_entity :: "json \<Rightarrow> exn + json" where
  "payment_entity event =
     and_then (attr_get event ''payload'' (JObj [])) (\<lambda>p.
     and_then (attr_get p ''payment'' (JObj [])) (\<lambda>q. attr_get q ''entity'' (JObj [])))"

text \<open>The verified and parsed delivery: event, payment id, order id and amount.\<close>

definition read_delivery :: "env \<Rightarrow> bytes \<Rightarrow> exn + (json \<times> json \<times> json \<times> json)" where
  "read_delivery E raw =
     and_then (case json_loads E raw of None \<Rightarrow> Inl ValueError | Some v \<Rightarrow> Inr v) (\<lambda>event.
     and_then (payment_entity event) (\<lambda>ent.
     and_then (attr_get ent ''id'' JNull) (\<lambda>pid.
     and_then (attr_get ent ''order_id'' JNull) (\<lambda>oid.
     and_then (attr_get ent ''amount'' JNull) (\<lambda>amount.
       Inr (event, pid, oid, amount))))))"

definition execution_for_order :: "db \<Rightarrow> string \<Rightarrow> payment_execution option" where
  "execution_for_order d order_id = find (\<lambda>x. px_razorpay_order_id x = order_id) (payment_executions d)"

definition seen_payment :: "db \<Rightarrow> string \<Rightarrow> bool" where
  "seen_payment d pid = (row_get sw_razorpay_payment_id pid (seen_webhook_events d) \<noteq> None)"

definition insert_seen :: "seen_webhook_event \<Rightarrow> db \<Rightarrow> exn + db" where
  "insert_seen r d =
     (case row_insert sw_razorpay_payment_id r (seen_webhook_events d) of
        None \<Rightarrow> Inl IntegrityError | Some rows \<Rightarrow> Inr (d\<lparr>seen_webhook_events := rows\<rparr>))"

definition insert_payment_event :: "payment_event \<Rightarrow> db \<Rightarrow> exn + db" where
  "insert_payment_event r d =
     (case row_insert pe_event_id r (payment_events d) of
        None \<Rightarrow> Inl IntegrityError | Some rows \<Rightarrow> Inr (d\<lparr>payment_events := rows\<rparr>))"

definition set_status :: "string \<Rightarrow> payment_status \<Rightarrow> db \<Rightarrow> db" where
  "set_status execution_id st d =
     d\<lparr>payment_executions := row_update px_execution_id execution_id (\<lambda>x. x\<lparr>px_status := st\<rparr>) (payment_executions d)\<rparr>"

definition seen_row :: "env \<Rightarrow> db \<Rightarrow> string \<Rightarrow> string \<Rightarrow> seen_webhook_event" where
  "seen_row E d pid_text ty_text =
     \<lparr>sw_razorpay_payment_id = pid_text, sw_event_type = ty_text, sw_created_at = clock E (readings d)\<rparr>"

definition event_row :: "env \<Rightarrow> db \<Rightarrow> payment_execution \<Rightarrow> json \<Rightarrow> json \<Rightarrow> string \<Rightarrow> payment_event" where
  "event_row E d x event pid ty_text =
     \<lparr>pe_event_id = ''evt-'' @ py_str pid, pe_execution_id = px_execution_id x, pe_event_type = ty_text,
      pe_payload = event, pe_signature_verified = True, pe_created_at = clock E (readings d + 1)\<rparr>"

definition new_status :: "payment_execution \<Rightarrow> json \<Rightarrow> payment_status" where
  "new_status x amount = (if amount_mismatch amount (px_amount x) then AMOUNT_MISMATCH else CAPTURED)"

definition record_delivery ::
  "env \<Rightarrow> string \<Rightarrow> payment_execution \<Rightarrow> json \<Rightarrow> json \<Rightarrow> json \<Rightarrow> json \<Rightarrow> db \<Rightarrow> exn + (string \<times> db)" where
  "record_delivery E auth_id x event pid oid amount d =
     and_then (sql_text pid) (\<lambda>pid_text.
     and_then (attr_get event ''event'' (JStr ''unknown'')) (\<lambda>ty.
     and_then (sql_text ty) (\<lambda>ty_text.
     and_then (insert_seen (seen_row E d pid_text ty_text) d) (\<lambda>d1.
     and_then (insert_payment_event (event_row E d x event pid ty_text)
                (set_status (px_execution_id x) (new_status x amount) d1)) (\<lambda>d2.
     and_then (append_event E (d2\<lparr>readings := readings d + 2\<rparr>) auth_id
                 (if new_status x amount = AMOUNT_MISMATCH then ''PAYMENT_AMOUNT_MISMATCH'' else ''PAYMENT_CAPTURED'')
                 ''razorpay-webhook''
                 (JObj [(''payment_id'', pid), (''order_id'', oid), (''amount'', amount)])) (\<lambda>d3.
       Inr (''ok'', d3)))))))"

text \<open>The detail of the 404 has an em dash, written here in UTF-8.\<close>

definition unknown_order_detail :: string where
  "unknown_order_detail = ''Unknown order_id '' @ [CHR 0xE2, CHR 0x80, CHR 0x94] @ '' ignoring webhook''"

definition handle_delivery :: "env \<Rightarrow> json \<times> json \<times> json \<times> json \<Rightarrow> db \<Rightarrow> string handled" where
  "handle_delivery E delivery d =
     (let (event, pid, oid, amount) = delivery in
      if \<not> json_truthy pid \<or> \<not> json_truthy oid then (Inl (HTTPException 400 (Text ''Malformed webhook payload'')), d)
      else case sql_text oid of
        Inl e \<Rightarrow> (Inl (Raised e), d)
      | Inr oid_text \<Rightarrow>
          (case execution_for_order d oid_text of
             None \<Rightarrow> (Inl (HTTPException 404 (Text unknown_order_detail)), d)
           | Some x \<Rightarrow>
               (case get_decision (px_decision_id x) d of
                  None \<Rightarrow> (Inl (HTTPException 404 (Text ''Unknown order decision'')), d)
                | Some dec_row \<Rightarrow>
                    (case lock_authorization d (pd_authorization_id dec_row) of
                       Inl f \<Rightarrow> (Inl f, d)
                     | Inr _ \<Rightarrow>
                         (case sql_text pid of
                            Inl _ \<Rightarrow> (Inl (Raised TypeError), d)
                          | Inr pid_text \<Rightarrow>
                              if seen_payment d pid_text then (Inr ''duplicate_ignored'', d)
                              else transact d (record_delivery E (pd_authorization_id dec_row) x event pid oid amount d))))))"

definition razorpay_webhook :: "env \<Rightarrow> settings \<Rightarrow> bytes \<Rightarrow> string option \<Rightarrow> db \<Rightarrow> string handled" where
  "razorpay_webhook E cfg raw given_signature d =
     (let invalid = Inl (HTTPException 400 (Text ''Invalid webhook signature'')) in
      if \<not> truthy given_signature then (invalid, d)
      else case verify_webhook E (get_payment_executor cfg) raw (the given_signature) of
        Inl e \<Rightarrow> (Inl (Raised e), d)
      | Inr False \<Rightarrow> (invalid, d)
      | Inr True \<Rightarrow>
          (case read_delivery E raw of
             Inl e \<Rightarrow> (Inl (Raised e), d)
           | Inr delivery \<Rightarrow> handle_delivery E delivery d))"

section \<open>The sweep for unconfirmed orders\<close>

text \<open>\<^verbatim>\<open>utc\<close>: a naive time is taken as UTC.\<close>

definition utc :: "datetime \<Rightarrow> int" where
  "utc t = (case utc_offset t of None \<Rightarrow> local_us t | Some off \<Rightarrow> local_us t - off)"

definition has_webhook :: "db \<Rightarrow> string \<Rightarrow> bool" where
  "has_webhook d execution_id = list_ex (\<lambda>e. pe_execution_id e = execution_id) (payment_events d)"

definition stale_candidates :: "int \<Rightarrow> int \<Rightarrow> db \<Rightarrow> (string \<times> string) list" where
  "stale_candidates cutoff batch_size d =
     take (nat batch_size)
       (concat (map (\<lambda>x. case get_decision (px_decision_id x) d of
            None \<Rightarrow> [] | Some p \<Rightarrow> [(px_execution_id x, pd_authorization_id p)])
          (sort_key (\<lambda>x. (px_created_at x, px_execution_id x))
            (filter (\<lambda>x. px_status x = CREATED \<and> px_created_at x \<le> cutoff \<and> \<not> has_webhook d (px_execution_id x))
              (payment_executions d)))))"

definition stale_payload :: "env \<Rightarrow> payment_execution \<Rightarrow> int \<Rightarrow> int \<Rightarrow> json" where
  "stale_payload E x observed_at timeout_seconds = JObj
     [(''execution_id'', JStr (px_execution_id x)), (''order_id'', JStr (px_razorpay_order_id x)),
      (''previous_status'', JStr ''CREATED''), (''status'', JStr ''STALE''),
      (''created_at'', JStr (isoformat E (px_created_at x))), (''observed_at'', JStr (isoformat E observed_at)),
      (''timeout_seconds'', JInt timeout_seconds)]"

text \<open>One candidate, rechecked under the lock that the webhook takes.\<close>

definition flag_candidate :: "env \<Rightarrow> int \<Rightarrow> int \<Rightarrow> string \<times> string \<Rightarrow> db \<Rightarrow> bool handled" where
  "flag_candidate E observed_at timeout_seconds candidate d =
     (let (execution_id, auth_id) = candidate; cutoff = observed_at - timeout_seconds * 1000000 in
      case lock_authorization d auth_id of
        Inl f \<Rightarrow> (Inl f, d)
      | Inr _ \<Rightarrow>
          (case get_execution execution_id d of
             None \<Rightarrow> (Inr False, d)
           | Some x \<Rightarrow>
               if px_status x \<noteq> CREATED \<or> px_created_at x > cutoff \<or> has_webhook d execution_id then (Inr False, d)
               else transact d
                 (and_then (append_event E (set_status execution_id STALE d) auth_id ''PAYMENT_STALE'' ''payment-cleanup''
                    (stale_payload E x observed_at timeout_seconds)) (\<lambda>d'. Inr (True, d')))))"

fun flag_candidates :: "env \<Rightarrow> int \<Rightarrow> int \<Rightarrow> (string \<times> string) list \<Rightarrow> int \<Rightarrow> db \<Rightarrow> int handled" where
  "flag_candidates E observed_at timeout_seconds [] flagged d = (Inr flagged, d)"
| "flag_candidates E observed_at timeout_seconds (c # cs) flagged d =
     (case flag_candidate E observed_at timeout_seconds c d of
        (Inl f, d') \<Rightarrow> (Inl f, d')
      | (Inr b, d') \<Rightarrow> flag_candidates E observed_at timeout_seconds cs (if b then flagged + 1 else flagged) d')"

definition flag_stale_payments :: "env \<Rightarrow> int \<Rightarrow> int \<Rightarrow> datetime option \<Rightarrow> db \<Rightarrow> int handled" where
  "flag_stale_payments E timeout_seconds batch_size now d =
     (if timeout_seconds \<le> 0 \<or> batch_size \<le> 0 then (Inl (Raised ValueError), d)
      else
        let observed_at = (case now of Some t \<Rightarrow> utc t | None \<Rightarrow> clock E (readings d));
            cutoff = observed_at - timeout_seconds * 1000000;
            d1 = d\<lparr>readings := readings d + 1\<rparr>
        in flag_candidates E observed_at timeout_seconds (stale_candidates cutoff batch_size d1) 0 d1)"

text \<open>
  The background task, which may run for ever. The n-th round of its loop sees the stop event,
  before or after its wait, or the interval runs out; \<^verbatim>\<open>Interval g\<close> is a wait during which the other
  handlers changed the database by \<^verbatim>\<open>g\<close>. An error of a sweep is logged and the task goes on.
\<close>

datatype wait_end = Stopped | Interval "db \<Rightarrow> db"

definition cleanup_round :: "env \<Rightarrow> settings \<Rightarrow> (db \<Rightarrow> db) \<Rightarrow> db \<Rightarrow> db" where
  "cleanup_round E cfg g d =
     snd (flag_stale_payments E (payment_stale_after_seconds cfg) (payment_cleanup_batch_size cfg) None (g d))"

partial_function (option) run_payment_cleanup ::
  "env \<Rightarrow> settings \<Rightarrow> (nat \<Rightarrow> wait_end) \<Rightarrow> nat \<Rightarrow> db \<Rightarrow> db option" where
  "run_payment_cleanup E cfg waits n d =
     (case waits n of
        Stopped \<Rightarrow> Some d
      | Interval g \<Rightarrow> run_payment_cleanup E cfg waits (Suc n) (cleanup_round E cfg g d))"

section \<open>What the inserts do\<close>

lemma insert_execution_Inr:
  "insert_execution x d = Inr d' \<longleftrightarrow>
     d' = d\<lparr>payment_executions := payment_executions d @ [x]\<rparr> \<and>
     px_razorpay_order_id x \<notin> px_razorpay_order_id ` set (payment_executions d) \<and>
     px_execution_id x \<notin> px_execution_id ` set (payment_executions d)"
  by (auto simp: insert_execution_def list_ex_iff row_insert_def image_iff eq_commute [of "px_razorpay_order_id x"])

lemma insert_seen_Inr:
  "insert_seen w d = Inr d' \<longleftrightarrow>
     d' = d\<lparr>seen_webhook_events := seen_webhook_events d @ [w]\<rparr> \<and>
     sw_razorpay_payment_id w \<notin> sw_razorpay_payment_id ` set (seen_webhook_events d)"
  by (auto simp: insert_seen_def row_insert_def)

lemma insert_payment_event_Inr:
  "insert_payment_event v d = Inr d' \<longleftrightarrow>
     d' = d\<lparr>payment_events := payment_events d @ [v]\<rparr> \<and>
     pe_event_id v \<notin> pe_event_id ` set (payment_events d)"
  by (auto simp: insert_payment_event_def row_insert_def)

lemma set_status_other [simp]:
  "authorizations (set_status i st s) = authorizations s" "mandate_revocations (set_status i st s) = mandate_revocations s"
  "agent_requests (set_status i st s) = agent_requests s" "policy_decisions (set_status i st s) = policy_decisions s"
  "payment_events (set_status i st s) = payment_events s" "seen_webhook_events (set_status i st s) = seen_webhook_events s"
  "evidence_events (set_status i st s) = evidence_events s" "readings (set_status i st s) = readings s"
  by (simp_all add: set_status_def)

lemma set_status_update:
  "set_status i st (d\<lparr>seen_webhook_events := w\<rparr>) = (set_status i st d)\<lparr>seen_webhook_events := w\<rparr>"
  by (simp add: set_status_def)

lemma execution_row_simps [simp]:
  "px_decision_id (execution_row E d i order) = i" "px_razorpay_order_id (execution_row E d i order) = or_order_id order"
  "px_amount (execution_row E d i order) = or_amount order" "px_currency (execution_row E d i order) = or_currency order"
  "px_status (execution_row E d i order) = CREATED"
  by (simp_all add: execution_row_def)

lemma delivery_row_simps [simp]:
  "sw_razorpay_payment_id (seen_row E d pid_text ty_text) = pid_text"
  "pe_event_id (event_row E d x event pid ty_text) = ''evt-'' @ py_str pid"
  "pe_execution_id (event_row E d x event pid ty_text) = px_execution_id x"
  "pe_signature_verified (event_row E d x event pid ty_text)"
  by (simp_all add: seen_row_def event_row_def)

section \<open>Outcomes of the handlers\<close>

text \<open>What an order creation that succeeds or fails means for the database.\<close>

lemma execute_payment_cases:
  assumes "execute_payment E cfg auth_id request_id d = (r, d')"
  obtains
    (failed) f where "r = Inl f" "d' = d"
  | (repeated) p x where "latest pd_created_at (decisions_for d auth_id request_id) = Some p" "pd_decision p = ALLOW"
      "get_revocation auth_id d = None"
      "execution_for d (pd_decision_id p) = Some x" "d' = d"
      "r = Inr \<lparr>ex_order_id = px_razorpay_order_id x, ex_amount = px_amount x, ex_currency = px_currency x\<rparr>"
  | (created) p q order where "latest pd_created_at (decisions_for d auth_id request_id) = Some p" "pd_decision p = ALLOW"
      "get_revocation auth_id d = None"
      "execution_for d (pd_decision_id p) = None" "get_request request_id d = Some q"
      "create_order E (get_payment_executor cfg) (readings d) (total (ar_cart q)) (cart_currency (ar_cart q)) auth_id = Inr order"
      "store_order E auth_id (pd_decision_id p) order d = Inr d'"
      "r = Inr \<lparr>ex_order_id = or_order_id order, ex_amount = or_amount order, ex_currency = or_currency order\<rparr>"
proof (cases "lock_authorization d auth_id")
  case (Inl f)
  with assms failed show ?thesis by (auto simp: execute_payment_def)
next
  case lock: (Inr row)
  show ?thesis
  proof (cases "get_revocation auth_id d = None \<and> (\<exists>p. latest pd_created_at (decisions_for d auth_id request_id) = Some p \<and> pd_decision p = ALLOW)")
    case False
    then have "isl r \<and> d' = d"
      using assms lock by (auto simp: execute_payment_def split: option.splits if_splits)
    then show ?thesis using failed by (cases r) auto
  next
    case True
    then obtain p where p: "get_revocation auth_id d = None"
      "latest pd_created_at (decisions_for d auth_id request_id) = Some p" "pd_decision p = ALLOW" by blast
    show ?thesis
    proof (cases "execution_for d (pd_decision_id p)")
      case (Some x)
      have "r = Inr \<lparr>ex_order_id = px_razorpay_order_id x, ex_amount = px_amount x, ex_currency = px_currency x\<rparr>" "d' = d"
        using assms lock p Some by (auto simp: execute_payment_def)
      then show ?thesis by (intro repeated [OF p(2,3,1) Some])
    next
      case None
      show ?thesis
      proof (cases "get_request request_id d")
        case no: None
        have "r = Inl (HTTPException 404 (Text ''agent_request not found''))" "d' = d"
          using assms lock p None no by (auto simp: execute_payment_def)
        then show ?thesis by (rule failed)
      next
        case (Some q)
        have "transact d (create_and_store E cfg auth_id (pd_decision_id p) (ar_cart q) d) = (r, d')"
          using assms lock p None Some by (simp add: execute_payment_def)
        then show ?thesis
          by (rule transact_cases)
            (use failed created [OF p(2,3,1) None Some] in \<open>auto simp: create_and_store_def sequence_simps\<close>)
      qed
    qed
  qed
qed

lemma store_order_effect:
  assumes "store_order E auth_id dec_id order d = Inr d'"
  shows "d' = d\<lparr>payment_executions := payment_executions d @ [execution_row E d dec_id order],
           evidence_events := evidence_events d', readings := readings d'\<rparr>"
    and "px_razorpay_order_id (execution_row E d dec_id order) \<notin> px_razorpay_order_id ` set (payment_executions d)"
    and "px_execution_id (execution_row E d dec_id order) \<notin> px_execution_id ` set (payment_executions d)"
proof -
  let ?x = "execution_row E d dec_id order"
  let ?d = "d\<lparr>payment_executions := payment_executions d @ [?x], readings := readings d + 3\<rparr>"
  from assms obtain pl where a: "append_event E ?d auth_id ''ORDER_CREATED'' ''payment-executor'' pl = Inr d'"
    and new: "px_razorpay_order_id ?x \<notin> px_razorpay_order_id ` set (payment_executions d)"
      "px_execution_id ?x \<notin> px_execution_id ` set (payment_executions d)"
    by (auto simp: store_order_def insert_execution_Inr sequence_simps)
  have "d' = ?d\<lparr>evidence_events := evidence_events d', readings := readings d'\<rparr>"
    using evidence.append_frame [OF a] by (rule conjunct1)
  from trans [OF this] show "d' = d\<lparr>payment_executions := payment_executions d @ [?x],
           evidence_events := evidence_events d', readings := readings d'\<rparr>" by simp
  from new show "px_razorpay_order_id ?x \<notin> px_razorpay_order_id ` set (payment_executions d)"
    "px_execution_id ?x \<notin> px_execution_id ` set (payment_executions d)" .
qed

lemma execution_for_None: "execution_for d i = None \<longleftrightarrow> i \<notin> px_decision_id ` set (payment_executions d)"
  by (auto simp: execution_for_def find_None_iff)

text \<open>A delivery that is recorded, table by table.\<close>

lemma record_delivery_effect:
  assumes "record_delivery E auth_id x event pid oid amount d = Inr (v, d')"
  obtains pid_text ty_text where
    "d' = (set_status (px_execution_id x) (new_status x amount) d)
       \<lparr>seen_webhook_events := seen_webhook_events d @ [seen_row E d pid_text ty_text],
        payment_events := payment_events d @ [event_row E d x event pid ty_text],
        evidence_events := evidence_events d', readings := readings d'\<rparr>"
    "sql_text pid = Inr pid_text" "v = ''ok''"
    "pid_text \<notin> sw_razorpay_payment_id ` set (seen_webhook_events d)"
    "''evt-'' @ py_str pid \<notin> pe_event_id ` set (payment_events d)"
    "append_event E ((set_status (px_execution_id x) (new_status x amount) d)
       \<lparr>seen_webhook_events := seen_webhook_events d @ [seen_row E d pid_text ty_text],
        payment_events := payment_events d @ [event_row E d x event pid ty_text]\<rparr>\<lparr>readings := readings d + 2\<rparr>) auth_id
       (if new_status x amount = AMOUNT_MISMATCH then ''PAYMENT_AMOUNT_MISMATCH'' else ''PAYMENT_CAPTURED'')
       ''razorpay-webhook'' (JObj [(''payment_id'', pid), (''order_id'', oid), (''amount'', amount)]) = Inr d'"
proof -
  from assms obtain pid_text ty_text d1 d2 where
    pid: "sql_text pid = Inr pid_text" "v = ''ok''"
    and w: "insert_seen (seen_row E d pid_text ty_text) d = Inr d1"
    and ev: "insert_payment_event (event_row E d x event pid ty_text)
        (set_status (px_execution_id x) (new_status x amount) d1) = Inr d2"
    and a: "append_event E (d2\<lparr>readings := readings d + 2\<rparr>) auth_id
        (if new_status x amount = AMOUNT_MISMATCH then ''PAYMENT_AMOUNT_MISMATCH'' else ''PAYMENT_CAPTURED'')
        ''razorpay-webhook'' (JObj [(''payment_id'', pid), (''order_id'', oid), (''amount'', amount)]) = Inr d'"
    unfolding record_delivery_def and_then_Inr by (elim exE conjE) (auto simp del: delivery_row_simps)
  from w ev have d2: "d2 = (set_status (px_execution_id x) (new_status x amount) d)
       \<lparr>seen_webhook_events := seen_webhook_events d @ [seen_row E d pid_text ty_text],
        payment_events := payment_events d @ [event_row E d x event pid ty_text]\<rparr>"
    and new: "pid_text \<notin> sw_razorpay_payment_id ` set (seen_webhook_events d)"
      "''evt-'' @ py_str pid \<notin> pe_event_id ` set (payment_events d)"
    by (simp_all add: insert_seen_Inr insert_payment_event_Inr) (simp_all add: set_status_def)
  have "d' = (d2\<lparr>readings := readings d + 2\<rparr>)\<lparr>evidence_events := evidence_events d', readings := readings d'\<rparr>"
    using evidence.append_frame [OF a] by (rule conjunct1)
  then have "d' = (set_status (px_execution_id x) (new_status x amount) d)
       \<lparr>seen_webhook_events := seen_webhook_events d @ [seen_row E d pid_text ty_text],
        payment_events := payment_events d @ [event_row E d x event pid ty_text],
        evidence_events := evidence_events d', readings := readings d'\<rparr>"
    by (rule trans) (simp add: d2)
  then show thesis using pid new a [unfolded d2] by (rule that)
qed

lemma razorpay_webhook_cases:
  assumes "razorpay_webhook E cfg raw given_signature d = (r, d')"
  obtains
    (refused) f where "r = Inl f" "d' = d"
  | (duplicate) pid_text where "seen_payment d pid_text" "r = Inr ''duplicate_ignored''" "d' = d"
  | (recorded) sig event pid oid amount oid_text x p where
      "given_signature = Some sig" "verify_webhook E (get_payment_executor cfg) raw sig = Inr True"
      "read_delivery E raw = Inr (event, pid, oid, amount)" "sql_text oid = Inr oid_text"
      "execution_for_order d oid_text = Some x" "get_decision (px_decision_id x) d = Some p"
      "record_delivery E (pd_authorization_id p) x event pid oid amount d = Inr (''ok'', d')" "r = Inr ''ok''"
proof (cases "truthy given_signature \<and> verify_webhook E (get_payment_executor cfg) raw (the given_signature) = Inr True
    \<and> \<not> isl (read_delivery E raw)")
  case False
  then have "isl r \<and> d' = d"
    using assms by (auto simp: razorpay_webhook_def Let_def split: if_splits sum.splits bool.splits)
  then show ?thesis using refused by (cases r) auto
next
  case True
  then obtain event pid oid amount where del: "read_delivery E raw = Inr (event, pid, oid, amount)"
    by (cases "read_delivery E raw") auto
  from True obtain sig where sig: "given_signature = Some sig"
    "verify_webhook E (get_payment_executor cfg) raw sig = Inr True"
    by (auto simp: truthy_def split: option.splits)
  have h: "handle_delivery E (event, pid, oid, amount) d = (r, d')"
    using assms True del sig by (simp add: razorpay_webhook_def)
  have failed: "isl r \<and> d' = d \<Longrightarrow> thesis" using refused by (cases r) auto
  show ?thesis
  proof (cases "json_truthy pid \<and> json_truthy oid \<and> (\<exists>oid_text x p. sql_text oid = Inr oid_text \<and>
      execution_for_order d oid_text = Some x \<and> get_decision (px_decision_id x) d = Some p \<and>
      \<not> isl (lock_authorization d (pd_authorization_id p)) \<and> \<not> isl (sql_text pid))")
    case False
    with h have "isl r \<and> d' = d"
      by (auto simp: handle_delivery_def split: if_splits sum.splits option.splits)
    then show ?thesis by (rule failed)
  next
    case True
    then obtain oid_text x p row pid_text where oid: "sql_text oid = Inr oid_text"
      "execution_for_order d oid_text = Some x" "get_decision (px_decision_id x) d = Some p"
      and l: "lock_authorization d (pd_authorization_id p) = Inr row" "sql_text pid = Inr pid_text"
      by (auto simp: isl_def) (metis sum.exhaust)
    show ?thesis
    proof (cases "seen_payment d pid_text")
      case seen: True
      then have "(Inr ''duplicate_ignored'', d) = (r, d')"
        using h True oid l by (simp add: handle_delivery_def)
      then show ?thesis by (intro duplicate [OF seen]) simp_all
    next
      case new: False
      have "transact d (record_delivery E (pd_authorization_id p) x event pid oid amount d) = (r, d')"
        using h True oid l new by (simp add: handle_delivery_def)
      then show ?thesis
      proof (rule transact_cases)
        fix v
        assume rec: "record_delivery E (pd_authorization_id p) x event pid oid amount d = Inr (v, d')" and r: "r = Inr v"
        then have "v = ''ok''" by (auto elim: record_delivery_effect)
        with rec r show thesis using recorded [OF sig del oid] by simp
      qed (use failed in auto)
    qed
  qed
qed

text \<open>A candidate of the sweep is left alone or flagged.\<close>

lemma flag_candidate_cases:
  assumes "flag_candidate E observed_at timeout_seconds (execution_id, auth_id) d = (r, d')"
  obtains
    (kept) "d' = d" "r \<noteq> Inr True"
  | (flagged) x where "get_execution execution_id d = Some x" "px_status x = CREATED"
      "px_created_at x \<le> observed_at - timeout_seconds * 1000000" "\<not> has_webhook d execution_id"
      "d' = (set_status execution_id STALE d)\<lparr>evidence_events := evidence_events d', readings := readings d'\<rparr>"
      "append_event E (set_status execution_id STALE d) auth_id ''PAYMENT_STALE'' ''payment-cleanup''
         (stale_payload E x observed_at timeout_seconds) = Inr d'"
      "r = Inr True"
proof (cases "\<not> isl (lock_authorization d auth_id) \<and> (\<exists>x. get_execution execution_id d = Some x \<and> px_status x = CREATED \<and>
    px_created_at x \<le> observed_at - timeout_seconds * 1000000 \<and> \<not> has_webhook d execution_id)")
  case False
  then have "d' = d \<and> r \<noteq> Inr True"
    using assms by (auto simp: flag_candidate_def Let_def split: sum.splits option.splits if_splits)
  then show ?thesis using kept by simp
next
  case True
  then obtain x row where x: "get_execution execution_id d = Some x" "px_status x = CREATED"
    "px_created_at x \<le> observed_at - timeout_seconds * 1000000" "\<not> has_webhook d execution_id"
    and l: "lock_authorization d auth_id = Inr row"
    by (auto simp: isl_def) (metis sum.exhaust)
  have "transact d (and_then (append_event E (set_status execution_id STALE d) auth_id ''PAYMENT_STALE'' ''payment-cleanup''
      (stale_payload E x observed_at timeout_seconds)) (\<lambda>d'. Inr (True, d'))) = (r, d')"
    using assms x l by (simp add: flag_candidate_def Let_def)
  then show ?thesis
  proof (rule transact_cases)
    fix v
    assume "and_then (append_event E (set_status execution_id STALE d) auth_id ''PAYMENT_STALE'' ''payment-cleanup''
      (stale_payload E x observed_at timeout_seconds)) (\<lambda>d'. Inr (True, d')) = Inr (v, d')" and r: "r = Inr v"
    then have a: "append_event E (set_status execution_id STALE d) auth_id ''PAYMENT_STALE'' ''payment-cleanup''
      (stale_payload E x observed_at timeout_seconds) = Inr d'" and v: "v = True"
      by (auto simp: sequence_simps)
    show thesis
      by (rule flagged [OF x conjunct1 [OF evidence.append_frame [OF a]] a]) (simp add: r v)
  qed (use kept in auto)
qed

end
