(* ===== verification/Transactions.thy ===== *)
theory Transactions
  imports Payment
begin

text \<open>The read-only views of app/routes/transactions.py.\<close>

fun status_value :: "payment_status \<Rightarrow> string" where
  "status_value CREATED = ''CREATED''"
| "status_value STALE = ''STALE''"
| "status_value CAPTURED = ''CAPTURED''"
| "status_value AMOUNT_MISMATCH = ''AMOUNT_MISMATCH''"

definition request_view :: "agent_request_row \<Rightarrow> json" where
  "request_view r = JObj
     [(''request_id'', JStr (ar_request_id r)), (''agent_id'', JStr (ar_agent_id r)),
      (''nonce'', JStr (ar_nonce r)), (''cart'', cart_json (ar_cart r)), (''state'', JStr (ar_state r))]"

definition decision_view :: "policy_decision \<Rightarrow> json" where
  "decision_view p = JObj
     [(''decision_id'', JStr (pd_decision_id p)), (''request_id'', JStr (pd_request_id p)),
      (''decision'', JStr (decision_value (pd_decision p))), (''reason'', JStr (reason_value (pd_reason p)))]"

definition payment_view :: "payment_execution \<Rightarrow> json" where
  "payment_view x = JObj
     [(''order_id'', JStr (px_razorpay_order_id x)), (''amount'', JInt (px_amount x)),
      (''currency'', JStr (px_currency x)), (''status'', JStr (status_value (px_status x)))]"

definition requests_of :: "db \<Rightarrow> string \<Rightarrow> agent_request_row list" where
  "requests_of d auth_id = filter (\<lambda>r. ar_authorization_id r = auth_id) (agent_requests d)"

definition decisions_of :: "db \<Rightarrow> string \<Rightarrow> policy_decision list" where
  "decisions_of d auth_id = filter (\<lambda>p. pd_authorization_id p = auth_id) (policy_decisions d)"

definition payments_of :: "db \<Rightarrow> string \<Rightarrow> payment_execution list" where
  "payments_of d auth_id =
     filter (\<lambda>x. px_decision_id x \<in> set (map pd_decision_id (decisions_of d auth_id))) (payment_executions d)"

definition get_transaction :: "env \<Rightarrow> db \<Rightarrow> string \<Rightarrow> failure + json" where
  "get_transaction E d auth_id =
     (case get_authorization auth_id d of
        None \<Rightarrow> Inl (HTTPException 404 (Text ''Unknown authorization_id''))
      | Some row \<Rightarrow>
          (let revocation = get_revocation auth_id d in
           Inr (JObj
             [(''authorization_id'', JStr auth_id),
              (''status'', JStr (if revocation = None then ''SIGNED'' else ''REVOKED'')),
              (''revocation'', (case revocation of
                  None \<Rightarrow> JNull
                | Some rv \<Rightarrow> JObj [(''reason'', JStr (rv_reason rv)),
                                  (''revoked_at'', JStr (isoformat E (rv_revoked_at rv)))])),
              (''mandate'', JObj (envelope_dump (au_envelope row))),
              (''used_count'', JInt (au_used_count row)),
              (''requests'', JList (map request_view (requests_of d auth_id))),
              (''decisions'', JList (map decision_view (decisions_of d auth_id))),
              (''payments'', JList (map payment_view (payments_of d auth_id)))])))"

definition event_view :: "env \<Rightarrow> evidence_event \<Rightarrow> json" where
  "event_view E e = JObj
     [(''evidence_id'', JStr (ev_evidence_id e)), (''event_type'', JStr (ev_event_type e)),
      (''actor'', JStr (ev_actor e)), (''prev_hash'', JStr (ev_prev_hash e)),
      (''chain_hash'', JStr (ev_chain_hash e)), (''payload'', ev_payload e),
      (''created_at'', JStr (stored_isoformat E (ev_created_at e)))]"

definition get_evidence :: "env \<Rightarrow> db \<Rightarrow> string \<Rightarrow> json" where
  "get_evidence E d auth_id =
     (let events = get_chain d auth_id in
      JObj [(''authorization_id'', JStr auth_id), (''chain_valid'', JBool (verify_chain E events)),
            (''events'', JList (map (event_view E) events))])"

end
