(* ===== verification/Ledger.thy ===== *)
theory Ledger
  imports Machine Service_Properties Authorization Transactions "HOL-Library.Sublist"
begin

text \<open>
  The abstract machine of the firewall: what may happen to mandates, requests, decisions and
  payments, one rule per kind of change, with the guard the firewall promises for it. The
  evidence log and the readings of clock and \<^verbatim>\<open>uuid4\<close> are not part of its state. Its
  invariants are proved here once; System shows that every handler of the program implements it.
\<close>

section \<open>The abstract state and its steps\<close>

definition ledger :: "db \<Rightarrow> db" where
  "ledger d = d\<lparr>evidence_events := [], readings := 0\<rparr>"

text \<open>What the firewall promises about a cart it allows under an envelope.\<close>

definition cart_allowed :: "envelope \<Rightarrow> cart \<Rightarrow> bool" where
  "cart_allowed e c \<longleftrightarrow>
     cart_currency c = currency (financial_scope e) \<and>
     (merchant_ids (merchant_scope e) = [] \<or> merchant_id c \<in> set (merchant_ids (merchant_scope e))) \<and>
     contents_permitted e c \<and> total c \<le> max_total (financial_scope e)"

inductive ledger_step :: "env \<Rightarrow> settings \<Rightarrow> db \<Rightarrow> db \<Rightarrow> bool" for E cfg where
  mandate:
    "au_authorization_id row \<notin> au_authorization_id ` set (authorizations s) \<Longrightarrow>
     au_nonce row \<notin> au_nonce ` set (authorizations s) \<Longrightarrow>
     au_authorization_id row = authorization_id (au_envelope row) \<Longrightarrow> au_used_count row = 0 \<Longrightarrow>
     ledger_step E cfg s (s\<lparr>authorizations := authorizations s @ [row]\<rparr>)"
| revoke:
    "rv_authorization_id row \<in> au_authorization_id ` set (authorizations s) \<Longrightarrow>
     rv_authorization_id row \<notin> rv_authorization_id ` set (mandate_revocations s) \<Longrightarrow>
     ledger_step E cfg s (s\<lparr>mandate_revocations := mandate_revocations s @ [row]\<rparr>)"
| decide:
    "get_authorization (ar_authorization_id q) s = Some row \<Longrightarrow>
     \<forall>r\<in>set (agent_requests s). \<not> (ar_authorization_id r = ar_authorization_id q \<and> ar_nonce r = ar_nonce q) \<Longrightarrow>
     ar_request_id q \<notin> ar_request_id ` set (agent_requests s) \<Longrightarrow>
     pd_decision_id p \<notin> pd_decision_id ` set (policy_decisions s) \<Longrightarrow>
     pd_request_id p = ar_request_id q \<Longrightarrow> pd_authorization_id p = ar_authorization_id q \<Longrightarrow>
     ar_agent_id q = agent_id (agent (au_envelope row)) \<Longrightarrow>
     (pd_decision p = ALLOW \<longrightarrow> get_revocation (ar_authorization_id q) s = None \<and>
        au_used_count row < max_transactions (execution_scope (au_envelope row)) \<and>
        cart_allowed (au_envelope row) (ar_cart q)) \<Longrightarrow>
     ledger_step E cfg s (s\<lparr>authorizations := authorizations (count_use (ar_authorization_id q) (pd_decision p) s),
       agent_requests := agent_requests s @ [q], policy_decisions := policy_decisions s @ [p]\<rparr>)"
| replay:
    "q \<in> set (agent_requests s) \<Longrightarrow>
     pd_decision_id p \<notin> pd_decision_id ` set (policy_decisions s) \<Longrightarrow>
     pd_request_id p = ar_request_id q \<Longrightarrow> pd_authorization_id p = ar_authorization_id q \<Longrightarrow>
     pd_decision p = BLOCK \<Longrightarrow>
     ledger_step E cfg s (s\<lparr>policy_decisions := policy_decisions s @ [p]\<rparr>)"
| order:
    "p \<in> set (policy_decisions s) \<Longrightarrow> pd_decision p = ALLOW \<Longrightarrow> px_decision_id x = pd_decision_id p \<Longrightarrow>
     get_revocation (pd_authorization_id p) s = None \<Longrightarrow>
     q \<in> set (agent_requests s) \<Longrightarrow> ar_request_id q = pd_request_id p \<Longrightarrow>
     px_decision_id x \<notin> px_decision_id ` set (payment_executions s) \<Longrightarrow>
     px_execution_id x \<notin> px_execution_id ` set (payment_executions s) \<Longrightarrow>
     px_razorpay_order_id x \<notin> px_razorpay_order_id ` set (payment_executions s) \<Longrightarrow>
     create_order E (get_payment_executor cfg) n (total (ar_cart q)) (cart_currency (ar_cart q))
       (pd_authorization_id p) = Inr po \<Longrightarrow>
     px_amount x = or_amount po \<Longrightarrow> px_currency x = or_currency po \<Longrightarrow> px_status x = CREATED \<Longrightarrow>
     ledger_step E cfg s (s\<lparr>payment_executions := payment_executions s @ [x]\<rparr>)"
| deliver:
    "x \<in> set (payment_executions s) \<Longrightarrow>
     sw_razorpay_payment_id w \<notin> sw_razorpay_payment_id ` set (seen_webhook_events s) \<Longrightarrow>
     pe_event_id v \<notin> pe_event_id ` set (payment_events s) \<Longrightarrow> pe_execution_id v = px_execution_id x \<Longrightarrow>
     pe_signature_verified v \<Longrightarrow> st = CAPTURED \<or> st = AMOUNT_MISMATCH \<Longrightarrow>
     ledger_step E cfg s ((set_status (px_execution_id x) st s)\<lparr>
       seen_webhook_events := seen_webhook_events s @ [w], payment_events := payment_events s @ [v]\<rparr>)"
| stale:
    "x \<in> set (payment_executions s) \<Longrightarrow> px_status x = CREATED \<Longrightarrow> \<not> has_webhook s (px_execution_id x) \<Longrightarrow>
     ledger_step E cfg s (set_status (px_execution_id x) STALE s)"

inductive_cases ledger_stepE: "ledger_step E cfg s s'"

section \<open>The invariant\<close>

definition keys_unique :: "db \<Rightarrow> bool" where
  "keys_unique s \<longleftrightarrow>
     distinct (map au_authorization_id (authorizations s)) \<and> distinct (map au_nonce (authorizations s)) \<and>
     distinct (map rv_authorization_id (mandate_revocations s)) \<and>
     distinct (map ar_request_id (agent_requests s)) \<and>
     distinct (map (\<lambda>r. (ar_authorization_id r, ar_nonce r)) (agent_requests s)) \<and>
     distinct (map pd_decision_id (policy_decisions s)) \<and>
     distinct (map px_execution_id (payment_executions s)) \<and>
     distinct (map px_decision_id (payment_executions s)) \<and>
     distinct (map px_razorpay_order_id (payment_executions s)) \<and>
     distinct (map pe_event_id (payment_events s)) \<and>
     distinct (map sw_razorpay_payment_id (seen_webhook_events s))"

definition allowed_decisions :: "db \<Rightarrow> string \<Rightarrow> policy_decision list" where
  "allowed_decisions s auth_id =
     filter (\<lambda>p. pd_authorization_id p = auth_id \<and> pd_decision p = ALLOW) (policy_decisions s)"

definition refs_ok :: "db \<Rightarrow> bool" where
  "refs_ok s \<longleftrightarrow>
     (\<forall>v\<in>set (mandate_revocations s). rv_authorization_id v \<in> au_authorization_id ` set (authorizations s)) \<and>
     (\<forall>q\<in>set (agent_requests s). \<exists>a\<in>set (authorizations s).
        au_authorization_id a = ar_authorization_id q \<and> ar_agent_id q = agent_id (agent (au_envelope a))) \<and>
     (\<forall>p\<in>set (policy_decisions s). \<exists>q\<in>set (agent_requests s).
        ar_request_id q = pd_request_id p \<and> ar_authorization_id q = pd_authorization_id p) \<and>
     (\<forall>x\<in>set (payment_executions s). \<exists>p\<in>set (policy_decisions s).
        pd_decision_id p = px_decision_id x \<and> pd_decision p = ALLOW) \<and>
     (\<forall>v\<in>set (payment_events s). pe_execution_id v \<in> px_execution_id ` set (payment_executions s))"

definition allows_ok :: "db \<Rightarrow> bool" where
  "allows_ok s \<longleftrightarrow>
     distinct (map pd_request_id (filter (\<lambda>p. pd_decision p = ALLOW) (policy_decisions s))) \<and>
     (\<forall>p\<in>set (policy_decisions s). \<forall>q\<in>set (agent_requests s). \<forall>a\<in>set (authorizations s).
        pd_decision p = ALLOW \<and> ar_request_id q = pd_request_id p \<and> au_authorization_id a = pd_authorization_id p
        \<longrightarrow> cart_allowed (au_envelope a) (ar_cart q))"

definition uses_ok :: "db \<Rightarrow> bool" where
  "uses_ok s \<longleftrightarrow> (\<forall>a\<in>set (authorizations s).
     authorization_id (au_envelope a) = au_authorization_id a \<and>
     au_used_count a = int (length (allowed_decisions s (au_authorization_id a))) \<and>
     au_used_count a \<le> max 0 (max_transactions (execution_scope (au_envelope a))))"

definition statuses_ok :: "db \<Rightarrow> bool" where
  "statuses_ok s \<longleftrightarrow> (\<forall>x\<in>set (payment_executions s).
     has_webhook s (px_execution_id x) \<longleftrightarrow> px_status x = CAPTURED \<or> px_status x = AMOUNT_MISMATCH)"

definition ledger_inv :: "db \<Rightarrow> bool" where
  "ledger_inv s \<longleftrightarrow> keys_unique s \<and> refs_ok s \<and> allows_ok s \<and> uses_ok s \<and> statuses_ok s"

lemma count_use_rows:
  "authorizations (count_use a dec s) =
     map (\<lambda>r. if dec = ALLOW \<and> au_authorization_id r = a then r\<lparr>au_used_count := au_used_count r + 1\<rparr> else r)
       (authorizations s)"
  by (simp add: count_use_def row_update_def)

lemma count_use_keys [simp]:
  "map au_authorization_id (authorizations (count_use a dec s)) = map au_authorization_id (authorizations s)"
  "map au_nonce (authorizations (count_use a dec s)) = map au_nonce (authorizations s)"
  "map au_envelope (authorizations (count_use a dec s)) = map au_envelope (authorizations s)"
  by (auto simp: count_use_rows)

lemma set_status_rows:
  "payment_executions (set_status i st s) =
     map (\<lambda>x. if px_execution_id x = i then x\<lparr>px_status := st\<rparr> else x) (payment_executions s)"
  by (simp add: set_status_def row_update_def)

lemma set_status_keys [simp]:
  "map px_execution_id (payment_executions (set_status i st s)) = map px_execution_id (payment_executions s)"
  "map px_decision_id (payment_executions (set_status i st s)) = map px_decision_id (payment_executions s)"
  "map px_razorpay_order_id (payment_executions (set_status i st s)) = map px_razorpay_order_id (payment_executions s)"
  by (auto simp: set_status_rows)

lemma keys_unique_step: "ledger_step E cfg s s' \<Longrightarrow> keys_unique s \<Longrightarrow> keys_unique s'"
  by (erule ledger_stepE) (auto simp: keys_unique_def)

lemma count_use_set:
  "a' \<in> set (authorizations (count_use i dec s)) \<longleftrightarrow>
   (\<exists>a\<in>set (authorizations s). a' = (if dec = ALLOW \<and> au_authorization_id a = i
      then a\<lparr>au_used_count := au_used_count a + 1\<rparr> else a))"
  unfolding count_use_rows set_map image_iff by (rule bex_cong) simp_all

lemma count_use_bex:
  assumes "\<And>a n. P (a\<lparr>au_used_count := n\<rparr>) = P a"
  shows "(\<exists>a\<in>set (authorizations (count_use i dec s)). P a) \<longleftrightarrow> (\<exists>a\<in>set (authorizations s). P a)"
  unfolding count_use_rows set_map bex_simps by (rule bex_cong) (simp_all add: assms)

lemma count_use_ball:
  assumes "\<And>a n. P (a\<lparr>au_used_count := n\<rparr>) = P a"
  shows "(\<forall>a\<in>set (authorizations (count_use i dec s)). P a) \<longleftrightarrow> (\<forall>a\<in>set (authorizations s). P a)"
  unfolding count_use_rows set_map ball_simps by (rule ball_cong) (simp_all add: assms)

lemma count_use_ids [simp]:
  "au_authorization_id ` set (authorizations (count_use i dec s)) = au_authorization_id ` set (authorizations s)"
  by (metis count_use_keys(1) set_map)

lemma set_status_ids [simp]:
  "px_execution_id ` set (payment_executions (set_status i st s)) = px_execution_id ` set (payment_executions s)"
  by (metis set_status_keys(1) set_map)

lemma set_status_ball:
  assumes "\<And>x t. P (x\<lparr>px_status := t\<rparr>) = P x"
  shows "(\<forall>x\<in>set (payment_executions (set_status i st s)). P x) \<longleftrightarrow> (\<forall>x\<in>set (payment_executions s). P x)"
  unfolding set_status_rows set_map ball_simps by (rule ball_cong) (simp_all add: assms)

lemma decision_refs:
  assumes "refs_ok s" and "p \<in> set (policy_decisions s)"
  shows "pd_authorization_id p \<in> au_authorization_id ` set (authorizations s)"
    and "pd_request_id p \<in> ar_request_id ` set (agent_requests s)"
proof -
  obtain q where q: "q \<in> set (agent_requests s)" "ar_request_id q = pd_request_id p"
    "ar_authorization_id q = pd_authorization_id p"
    using assms unfolding refs_ok_def by blast
  then obtain a where "a \<in> set (authorizations s)" "au_authorization_id a = ar_authorization_id q"
    using assms(1) unfolding refs_ok_def by blast
  with q show "pd_authorization_id p \<in> au_authorization_id ` set (authorizations s)"
    "pd_request_id p \<in> ar_request_id ` set (agent_requests s)"
    by (metis image_eqI)+
qed

lemma same_mandate:
  "keys_unique s \<Longrightarrow> a \<in> set (authorizations s) \<Longrightarrow> b \<in> set (authorizations s) \<Longrightarrow>
   au_authorization_id a = au_authorization_id b \<Longrightarrow> a = b"
  by (rule inj_onD [of au_authorization_id "set (authorizations s)"]) (simp_all add: keys_unique_def distinct_map)

lemma refs_ok_step:
  assumes "ledger_step E cfg s s'" and "refs_ok s"
  shows "refs_ok s'"
  using assms(1)
proof cases
  case (decide q row p)
  have "row \<in> set (authorizations s) \<and> au_authorization_id row = ar_authorization_id q"
    using auth_tab.get_sound [OF decide(2)] .
  with decide assms(2) show ?thesis
    by (auto simp: refs_ok_def count_use_bex)
next
  case (deliver x w v st)
  with assms(2) show ?thesis
    by (auto simp: refs_ok_def set_status_ball)
next
  case (stale x)
  with assms(2) show ?thesis
    by (auto simp: refs_ok_def set_status_ball)
qed (use assms(2) in \<open>auto simp: refs_ok_def\<close>)

lemma allows_ok_step:
  assumes "ledger_step E cfg s s'" and "keys_unique s" "refs_ok s" "allows_ok s"
  shows "allows_ok s'"
  using assms(1)
proof cases
  case (mandate row)
  have "au_authorization_id row \<noteq> pd_authorization_id p" if "p \<in> set (policy_decisions s)" for p
    using decision_refs(1) [OF assms(3) that] mandate(2) by metis
  with mandate assms(4) show ?thesis by (auto simp: allows_ok_def)
next
  case (decide q row p)
  have row: "row \<in> set (authorizations s)" "au_authorization_id row = ar_authorization_id q"
    using auth_tab.get_sound [OF decide(2)] by auto
  have same: "a = row" if "a \<in> set (authorizations s)" "au_authorization_id a = ar_authorization_id q" for a
    using same_mandate [OF assms(2) that(1) row(1)] that(2) row(2) by simp
  have new: "pd_request_id p' \<noteq> ar_request_id q" if "p' \<in> set (policy_decisions s)" for p'
    using decision_refs(2) [OF assms(3) that] decide(4) by metis
  have old: "r \<in> set (agent_requests s) \<Longrightarrow> ar_request_id r \<noteq> ar_request_id q" for r
    using decide(4) by (metis image_eqI)
  have "\<forall>p'\<in>set (policy_decisions s'). \<forall>r\<in>set (agent_requests s'). \<forall>a\<in>set (authorizations s).
      pd_decision p' = ALLOW \<and> ar_request_id r = pd_request_id p' \<and> au_authorization_id a = pd_authorization_id p'
      \<longrightarrow> cart_allowed (au_envelope a) (ar_cart r)"
    using decide(1,6,7,9) same new old assms(4) by (auto simp: allows_ok_def dest!: sym [of "ar_request_id q"])
  then have "\<forall>p'\<in>set (policy_decisions s'). \<forall>r\<in>set (agent_requests s'). \<forall>a\<in>set (authorizations s').
      pd_decision p' = ALLOW \<and> ar_request_id r = pd_request_id p' \<and> au_authorization_id a = pd_authorization_id p'
      \<longrightarrow> cart_allowed (au_envelope a) (ar_cart r)"
    using decide(1) by (simp add: count_use_ball)
  moreover have "distinct (map pd_request_id (filter (\<lambda>p. pd_decision p = ALLOW) (policy_decisions s')))"
  proof -
    have "pd_request_id p \<notin> pd_request_id ` set (policy_decisions s)"
      using new decide(6) by (metis imageE)
    then show ?thesis using decide(1) assms(4) by (auto simp: allows_ok_def)
  qed
  ultimately show ?thesis by (simp add: allows_ok_def)
next
  case (deliver x w v st)
  with assms(4) show ?thesis by (simp add: allows_ok_def)
qed (use assms(4) in \<open>auto simp: allows_ok_def\<close>)

lemma uses_ok_step:
  assumes "ledger_step E cfg s s'" and "keys_unique s" "refs_ok s" "uses_ok s"
  shows "uses_ok s'"
  using assms(1)
proof cases
  case (mandate row)
  have "allowed_decisions s (au_authorization_id row) = []"
    using decision_refs(1) [OF assms(3)] mandate(2) by (simp add: allowed_decisions_def filter_empty_conv) metis
  with mandate assms(4) show ?thesis
    by (auto simp: uses_ok_def allowed_decisions_def)
next
  case (decide q row p)
  have row: "row \<in> set (authorizations s)" "au_authorization_id row = ar_authorization_id q"
    using auth_tab.get_sound [OF decide(2)] by auto
  have same: "a = row" if "a \<in> set (authorizations s)" "au_authorization_id a = ar_authorization_id q" for a
    using same_mandate [OF assms(2) that(1) row(1)] that(2) row(2) by simp
  have "allowed_decisions s' i = allowed_decisions s i @ (if ar_authorization_id q = i \<and> pd_decision p = ALLOW then [p] else [])" for i
    using decide(1,7) by (simp add: allowed_decisions_def)
  note allowed = this
  show ?thesis
    unfolding uses_ok_def
  proof
    fix a'
    assume "a' \<in> set (authorizations s')"
    then obtain a where a: "a \<in> set (authorizations s)"
      "a' = (if pd_decision p = ALLOW \<and> au_authorization_id a = ar_authorization_id q
             then a\<lparr>au_used_count := au_used_count a + 1\<rparr> else a)"
      using decide(1) by (auto simp: count_use_set)
    have ids: "au_authorization_id a' = au_authorization_id a" "au_envelope a' = au_envelope a"
      by (simp_all add: a(2))
    have old: "authorization_id (au_envelope a) = au_authorization_id a"
      "au_used_count a = int (length (allowed_decisions s (au_authorization_id a)))"
      "au_used_count a \<le> max 0 (max_transactions (execution_scope (au_envelope a)))"
      using assms(4) a(1) by (auto simp: uses_ok_def)
    show "authorization_id (au_envelope a') = au_authorization_id a' \<and>
        au_used_count a' = int (length (allowed_decisions s' (au_authorization_id a'))) \<and>
        au_used_count a' \<le> max 0 (max_transactions (execution_scope (au_envelope a')))"
    proof (cases "pd_decision p = ALLOW \<and> au_authorization_id a = ar_authorization_id q")
      case True
      with same [OF a(1)] decide(9) old show ?thesis
        unfolding ids allowed by (simp add: a(2))
    next
      case False
      with old show ?thesis unfolding ids allowed by (auto simp: a(2))
    qed
  qed
next
  case (deliver x w v st)
  then have "allowed_decisions s' = allowed_decisions s" "authorizations s' = authorizations s"
    by (simp_all add: allowed_decisions_def fun_eq_iff)
  with assms(4) show ?thesis by (simp only: uses_ok_def)
qed (use assms(4) in \<open>auto simp: uses_ok_def allowed_decisions_def\<close>)

lemma has_webhook_set_status [simp]: "has_webhook (set_status i st s) = has_webhook s"
  by (simp add: has_webhook_def fun_eq_iff)

lemma statuses_ok_step:
  assumes "ledger_step E cfg s s'" and "refs_ok s" "statuses_ok s"
  shows "statuses_ok s'"
  using assms(1)
proof cases
  case (order p x q n po)
  have "\<not> has_webhook s (px_execution_id x)"
  proof
    assume "has_webhook s (px_execution_id x)"
    then obtain v where "v \<in> set (payment_events s)" "pe_execution_id v = px_execution_id x"
      by (auto simp: has_webhook_def list_ex_iff)
    moreover from this have "pe_execution_id v \<in> px_execution_id ` set (payment_executions s)"
      using assms(2) unfolding refs_ok_def by blast
    ultimately show False using order(9) by simp
  qed
  with order assms(3) show ?thesis by (auto simp: statuses_ok_def has_webhook_def)
next
  case (deliver x w v st)
  have hw: "has_webhook s' i \<longleftrightarrow> has_webhook s i \<or> i = px_execution_id x" for i
    using deliver(1,5) by (auto simp: has_webhook_def)
  have "payment_executions s' = payment_executions (set_status (px_execution_id x) st s)"
    using deliver(1) by simp
  with assms(3) deliver(7) show ?thesis
    unfolding statuses_ok_def hw set_status_rows by (simp only: set_map ball_simps) auto
next
  case (stale x)
  have "payment_executions s' = payment_executions (set_status (px_execution_id x) STALE s)"
    "has_webhook s' = has_webhook s"
    using stale(1) by simp_all
  with assms(3) stale(4) show ?thesis
    unfolding statuses_ok_def set_status_rows by (simp only: set_map ball_simps) auto
qed (use assms(3) in \<open>auto simp: statuses_ok_def has_webhook_def\<close>)

lemma ledger_inv_step:
  assumes "ledger_inv s" and "ledger_step E cfg s s'"
  shows "ledger_inv s'"
  using assms(1) keys_unique_step [OF assms(2)] refs_ok_step [OF assms(2)] allows_ok_step [OF assms(2)]
    uses_ok_step [OF assms(2)] statuses_ok_step [OF assms(2)]
  by (simp add: ledger_inv_def)

lemma ledger_inv_empty: "ledger_inv empty_db"
  by (simp add: ledger_inv_def keys_unique_def refs_ok_def allows_ok_def uses_ok_def statuses_ok_def empty_db_def)

section \<open>What is spent\<close>

text \<open>The documented answer of the order API: the order has the amount and currency asked for.\<close>

definition provider_honest :: "env \<Rightarrow> bool" where
  "provider_honest E \<longleftrightarrow> (\<forall>n amount cur receipt po.
     order_create E n amount cur receipt = Some po \<longrightarrow> po_amount po = amount \<and> po_currency po = cur)"

lemma create_order_honest:
  "provider_honest E \<Longrightarrow> create_order E ex n amount cur receipt = Inr po \<Longrightarrow>
   or_amount po = amount \<and> or_currency po = cur"
  by (cases ex) (auto simp: provider_honest_def split: option.splits)

definition priced :: "db \<Rightarrow> bool" where
  "priced s \<longleftrightarrow> (\<forall>x\<in>set (payment_executions s). \<exists>p\<in>set (policy_decisions s). \<exists>q\<in>set (agent_requests s).
     pd_decision_id p = px_decision_id x \<and> pd_decision p = ALLOW \<and> ar_request_id q = pd_request_id p \<and>
     px_amount x = total (ar_cart q) \<and> px_currency x = cart_currency (ar_cart q))"

lemma priced_step:
  assumes "provider_honest E" and "ledger_step E cfg s s'" and "priced s"
  shows "priced s'"
  using assms(2)
proof cases
  case (decide q row p)
  with assms(3) show ?thesis by (fastforce simp: priced_def)
next
  case (replay q p)
  with assms(3) show ?thesis by (fastforce simp: priced_def)
next
  case (order p x q n po)
  have "px_amount x = total (ar_cart q)" "px_currency x = cart_currency (ar_cart q)"
    using create_order_honest [OF assms(1) order(11)] order(12,13) by auto
  with order(2,3,4,6,7) have "\<exists>p\<in>set (policy_decisions s). \<exists>q\<in>set (agent_requests s).
     pd_decision_id p = px_decision_id x \<and> pd_decision p = ALLOW \<and> ar_request_id q = pd_request_id p \<and>
     px_amount x = total (ar_cart q) \<and> px_currency x = cart_currency (ar_cart q)"
    by metis
  with order(1) assms(3) show ?thesis by (simp add: priced_def)
next
  case (deliver x w v st)
  with assms(3) show ?thesis by (simp add: priced_def set_status_ball)
next
  case (stale x)
  with assms(3) show ?thesis by (simp add: priced_def set_status_ball)
qed (use assms(3) in \<open>simp_all add: priced_def\<close>)

lemma ledger_invD:
  assumes "ledger_inv s"
  shows "keys_unique s" and "refs_ok s" and "allows_ok s" and "uses_ok s" and "statuses_ok s"
  using assms by (simp_all add: ledger_inv_def)

lemma allow_within:
  "ledger_inv s \<Longrightarrow> p \<in> set (policy_decisions s) \<Longrightarrow> pd_decision p = ALLOW \<Longrightarrow> q \<in> set (agent_requests s) \<Longrightarrow>
   ar_request_id q = pd_request_id p \<Longrightarrow> a \<in> set (authorizations s) \<Longrightarrow>
   au_authorization_id a = pd_authorization_id p \<Longrightarrow> cart_allowed (au_envelope a) (ar_cart q)"
  by (drule ledger_invD(3)) (simp add: allows_ok_def)

text \<open>Payments under a mandate correspond to distinct ALLOW decisions on it.\<close>

lemma decision_unique:
  "keys_unique s \<Longrightarrow> p \<in> set (policy_decisions s) \<Longrightarrow> p' \<in> set (policy_decisions s) \<Longrightarrow>
   pd_decision_id p = pd_decision_id p' \<Longrightarrow> p = p'"
  by (rule inj_onD [of pd_decision_id "set (policy_decisions s)"]) (simp_all add: keys_unique_def distinct_map)

lemma payment_decision:
  assumes "ledger_inv s" and "x \<in> set (payments_of s a)"
  obtains p where "p \<in> set (allowed_decisions s a)" "pd_decision_id p = px_decision_id x"
proof -
  obtain p where p: "p \<in> set (policy_decisions s)" "pd_authorization_id p = a" "pd_decision_id p = px_decision_id x"
    using assms(2) by (auto simp: payments_of_def decisions_of_def)
  obtain p' where p': "p' \<in> set (policy_decisions s)" "pd_decision_id p' = px_decision_id x" "pd_decision p' = ALLOW"
    using assms by (auto simp: ledger_inv_def refs_ok_def payments_of_def)
  have "p' = p" by (rule decision_unique [OF ledger_invD(1) [OF assms(1)]]) (use p p' in simp_all)
  with p p' show ?thesis using that by (auto simp: allowed_decisions_def)
qed

lemma payments_count:
  assumes "ledger_inv s"
  shows "length (payments_of s a) \<le> length (allowed_decisions s a)"
proof -
  have "px_decision_id ` set (payments_of s a) \<subseteq> pd_decision_id ` set (allowed_decisions s a)"
  proof
    fix i
    assume "i \<in> px_decision_id ` set (payments_of s a)"
    then obtain x where x: "x \<in> set (payments_of s a)" "i = px_decision_id x" by blast
    obtain p where "p \<in> set (allowed_decisions s a)" "pd_decision_id p = px_decision_id x"
      by (rule payment_decision [OF assms x(1)])
    then show "i \<in> pd_decision_id ` set (allowed_decisions s a)" using x(2) by (metis image_eqI)
  qed
  then have "card (px_decision_id ` set (payments_of s a)) \<le> card (pd_decision_id ` set (allowed_decisions s a))"
    by (intro card_mono) simp_all
  also have "\<dots> \<le> card (set (allowed_decisions s a))" by (rule card_image_le) simp
  finally have "card (px_decision_id ` set (payments_of s a)) \<le> card (set (allowed_decisions s a))" .
  moreover have "distinct (map px_decision_id (payments_of s a))"
    using assms by (simp add: ledger_inv_def keys_unique_def payments_of_def distinct_map_filter)
  then have "card (px_decision_id ` set (payments_of s a)) = length (payments_of s a)"
    by (metis distinct_card length_map set_map)
  moreover have "card (set (allowed_decisions s a)) \<le> length (allowed_decisions s a)"
    by (rule card_length)
  ultimately show ?thesis by linarith
qed

lemma payment_within:
  assumes "ledger_inv s" "priced s" and "row \<in> set (authorizations s)"
    and "x \<in> set (payments_of s (au_authorization_id row))"
  shows "0 \<le> px_amount x \<and> px_amount x \<le> max_total (financial_scope (au_envelope row)) \<and>
         px_currency x = currency (financial_scope (au_envelope row))"
proof -
  obtain p where p: "p \<in> set (allowed_decisions s (au_authorization_id row))" "pd_decision_id p = px_decision_id x"
    using payment_decision [OF assms(1,4)] .
  have xs: "x \<in> set (payment_executions s)" using assms(4) by (simp add: payments_of_def)
  obtain p' q where q: "p' \<in> set (policy_decisions s)" "q \<in> set (agent_requests s)" "pd_decision_id p' = px_decision_id x"
    "ar_request_id q = pd_request_id p'" "px_amount x = total (ar_cart q)" "px_currency x = cart_currency (ar_cart q)"
    using assms(2) xs unfolding priced_def by blast
  have "p' = p"
    using decision_unique [of s p' p] assms(1) p q by (simp add: ledger_inv_def allowed_decisions_def)
  with p q have "cart_allowed (au_envelope row) (ar_cart q)"
    using allow_within [OF assms(1) q(1)] assms(3) by (simp add: allowed_decisions_def)
  with q show ?thesis
    by (simp add: cart_allowed_def contents_permitted_def well_formed_cart_def)
qed

lemma sum_list_bound: "(\<And>x. x \<in> set xs \<Longrightarrow> f x \<le> (m::int)) \<Longrightarrow> sum_list (map f xs) \<le> int (length xs) * m"
  by (induction xs) (auto simp: algebra_simps intro: add_mono)

lemma spend_bound:
  assumes "ledger_inv s" "priced s" and "row \<in> set (authorizations s)"
  shows "sum_list (map px_amount (payments_of s (au_authorization_id row)))
     \<le> au_used_count row * max_total (financial_scope (au_envelope row))"
proof -
  let ?xs = "payments_of s (au_authorization_id row)" and ?m = "max_total (financial_scope (au_envelope row))"
  have "sum_list (map px_amount ?xs) \<le> int (length ?xs) * ?m"
    using payment_within [OF assms] by (intro sum_list_bound) blast
  also have "\<dots> \<le> au_used_count row * ?m"
  proof (cases "allowed_decisions s (au_authorization_id row)")
    case Nil
    with payments_count [OF assms(1), of "au_authorization_id row"] assms(1,3) show ?thesis
      by (auto simp: ledger_inv_def uses_ok_def)
  next
    case (Cons p ps)
    then have p: "p \<in> set (policy_decisions s)" "pd_decision p = ALLOW" "pd_authorization_id p = au_authorization_id row"
      by (auto simp: allowed_decisions_def filter_eq_Cons_iff)
    then obtain q where "q \<in> set (agent_requests s)" "ar_request_id q = pd_request_id p"
      using assms(1) by (fastforce simp: ledger_inv_def refs_ok_def)
    with p have "cart_allowed (au_envelope row) (ar_cart q)"
      using allow_within [OF assms(1)] assms(3) by simp
    then have "0 \<le> ?m" by (simp add: cart_allowed_def contents_permitted_def well_formed_cart_def)
    moreover have "int (length ?xs) \<le> au_used_count row"
      using payments_count [OF assms(1), of "au_authorization_id row"] assms(1,3)
      by (simp add: ledger_inv_def uses_ok_def)
    ultimately show ?thesis by (rule mult_right_mono [rotated])
  qed
  finally show ?thesis .
qed

lemma spend_limits:
  assumes "ledger_inv s" "priced s" and "row \<in> set (authorizations s)"
  shows "sum_list (map px_amount (payments_of s (au_authorization_id row)))
           \<le> au_used_count row * max_total (financial_scope (au_envelope row)) \<and>
         int (length (payments_of s (au_authorization_id row))) \<le> au_used_count row \<and>
         au_used_count row \<le> max 0 (max_transactions (execution_scope (au_envelope row))) \<and>
         (\<forall>x\<in>set (payments_of s (au_authorization_id row)).
            0 \<le> px_amount x \<and> px_amount x \<le> max_total (financial_scope (au_envelope row)) \<and>
            px_currency x = currency (financial_scope (au_envelope row)))"
  using spend_bound [OF assms] payment_within [OF assms] payments_count [OF assms(1), of "au_authorization_id row"]
    ledger_invD(4) [OF assms(1)] assms(3)
  by (auto simp: uses_ok_def)

section \<open>What never changes\<close>

text \<open>The terms of a mandate row: everything but the use count.\<close>

definition terms_of :: "authorization_row \<Rightarrow> authorization_row" where
  "terms_of r = r\<lparr>au_used_count := 0\<rparr>"

lemma terms_kept_step:
  assumes "ledger_step E cfg s s'"
  shows "prefix (map terms_of (authorizations s)) (map terms_of (authorizations s'))"
  using assms
proof cases
  case (decide q row p)
  have "map terms_of (authorizations s') = map terms_of (authorizations s)"
    using decide(1) by (auto simp: count_use_rows terms_of_def)
  then show ?thesis by simp
qed simp_all

lemma revocation_kept_step:
  "ledger_step E cfg s s' \<Longrightarrow> get_revocation a s = Some rv \<Longrightarrow> get_revocation a s' = Some rv"
  by (erule ledger_stepE) (simp_all add: row_get_append)

lemma payment_refs:
  "map px_decision_id (payments_of s a) =
     filter (\<lambda>i. i \<in> pd_decision_id ` set (decisions_of s a)) (map px_decision_id (payment_executions s))"
  by (simp add: payments_of_def filter_map comp_def)

text \<open>A revoked mandate is frozen: no further ALLOW, no further payment.\<close>

definition frozen :: "string \<Rightarrow> db \<Rightarrow> db \<Rightarrow> bool" where
  "frozen a s s' \<longleftrightarrow> get_revocation a s' = get_revocation a s \<and>
     allowed_decisions s' a = allowed_decisions s a \<and>
     map px_decision_id (payments_of s' a) = map px_decision_id (payments_of s a)"

lemma frozen_more_decisions:
  assumes "refs_ok s" and "pd_decision_id p \<notin> pd_decision_id ` set (policy_decisions s)"
    and "policy_decisions s' = policy_decisions s @ [p]" "payment_executions s' = payment_executions s"
    and "mandate_revocations s' = mandate_revocations s"
    and "pd_decision p = ALLOW \<longrightarrow> pd_authorization_id p \<noteq> a"
  shows "frozen a s s'"
proof -
  have "i \<noteq> pd_decision_id p" if "i \<in> px_decision_id ` set (payment_executions s)" for i
  proof -
    from that obtain x where "x \<in> set (payment_executions s)" "i = px_decision_id x" by blast
    then obtain p' where "p' \<in> set (policy_decisions s)" "pd_decision_id p' = i"
      using assms(1) unfolding refs_ok_def by blast
    with assms(2) show ?thesis by (metis image_eqI)
  qed
  then have "filter (\<lambda>i. i \<in> pd_decision_id ` set (decisions_of s' a)) (map px_decision_id (payment_executions s)) =
      filter (\<lambda>i. i \<in> pd_decision_id ` set (decisions_of s a)) (map px_decision_id (payment_executions s))"
    using assms(3) by (intro filter_cong [OF refl]) (auto simp: decisions_of_def)
  then show ?thesis
    using assms(3-6) unfolding frozen_def payment_refs by (auto simp: allowed_decisions_def)
qed

lemma frozen_step:
  assumes "ledger_step E cfg s s'" and "ledger_inv s" and "get_revocation a s = Some rv"
  shows "frozen a s s'"
  using assms(1)
proof cases
  case (revoke row)
  then show ?thesis
    using assms(3) by (simp add: frozen_def allowed_decisions_def payment_refs decisions_of_def row_get_append)
next
  case (decide q row p)
  show ?thesis
    by (rule frozen_more_decisions [OF ledger_invD(2) [OF assms(2)] decide(5)])
      (use decide(1,7,9) assms(3) in auto)
next
  case (replay q p)
  show ?thesis
    by (rule frozen_more_decisions [OF ledger_invD(2) [OF assms(2)] replay(3)])
      (use replay(1,6) in simp_all)
next
  case (order p x q n po)
  have "px_decision_id x \<notin> pd_decision_id ` set (decisions_of s a)"
  proof
    assume "px_decision_id x \<in> pd_decision_id ` set (decisions_of s a)"
    then obtain p' where "p' \<in> set (policy_decisions s)" "pd_authorization_id p' = a" "pd_decision_id p' = px_decision_id x"
      by (auto simp: decisions_of_def)
    with decision_unique [OF ledger_invD(1) [OF assms(2)], of p' p] order(2,4,5) assms(3) show False by auto
  qed
  then show ?thesis
    using order(1) unfolding frozen_def payment_refs by (simp add: allowed_decisions_def decisions_of_def)
next
  case (deliver x w v st)
  then have "payment_executions s' = payment_executions (set_status (px_execution_id x) st s)" by simp
  with deliver(1) show ?thesis
    unfolding frozen_def payment_refs by (simp add: allowed_decisions_def decisions_of_def)
next
  case (stale x)
  then show ?thesis
    unfolding frozen_def payment_refs by (simp add: allowed_decisions_def decisions_of_def)
qed (simp add: frozen_def allowed_decisions_def payment_refs decisions_of_def)

text \<open>
  A payment keeps its identity, decision, order, amount and currency, and its status only moves
  on: created, then possibly stale, then settled by a webhook.
\<close>

definition continues :: "payment_execution \<Rightarrow> payment_execution \<Rightarrow> bool" where
  "continues x y \<longleftrightarrow> y\<lparr>px_status := px_status x\<rparr> = x \<and> px_status x \<le> px_status y"

lemma continues_status:
  "continues x y \<Longrightarrow> px_status y \<le> st \<Longrightarrow> continues x (y\<lparr>px_status := st\<rparr>)"
  by (auto simp: continues_def intro: order_trans)

lemma payment_kept_step:
  assumes "ledger_step E cfg s s'" and "ledger_inv s" and "y \<in> set (payment_executions s)" "continues x y"
  shows "\<exists>z\<in>set (payment_executions s'). continues x z"
  using assms(1)
proof cases
  case (deliver x0 w v st)
  let ?z = "if px_execution_id y = px_execution_id x0 then y\<lparr>px_status := st\<rparr> else y"
  have "?z \<in> set (payment_executions (set_status (px_execution_id x0) st s))"
    unfolding set_status_rows set_map by (rule image_eqI [OF _ assms(3)]) simp
  moreover have "px_status y \<le> st"
    using deliver(7) by auto
  then have "continues x ?z" using continues_status [OF assms(4)] assms(4) by simp
  ultimately show ?thesis using deliver(1) by auto
next
  case (stale x0)
  let ?z = "if px_execution_id y = px_execution_id x0 then y\<lparr>px_status := STALE\<rparr> else y"
  have "?z \<in> set (payment_executions (set_status (px_execution_id x0) STALE s))"
    unfolding set_status_rows set_map by (rule image_eqI [OF _ assms(3)]) simp
  moreover have "px_status y \<le> STALE" if "px_execution_id y = px_execution_id x0"
    using that stale(4) ledger_invD(5) [OF assms(2)] assms(3)
    by (cases "px_status y") (auto simp: statuses_ok_def)
  then have "continues x ?z" using continues_status [OF assms(4), of STALE] assms(4) by simp
  ultimately show ?thesis using stale(1) by auto
qed (use assms(3,4) in auto)

end
