(* ===== verification/System.thy ===== *)
theory System
  imports Ledger
begin

text \<open>
  All handlers together: a call is one request to the application or one step of the cleanup
  task, \<^verbatim>\<open>handle\<close> is what it does to the database. Every call implements a step of the abstract
  machine of Ledger or leaves its state alone, so the ledger's invariants hold of every
  database the program reaches.
\<close>

section \<open>Calls\<close>

datatype call =
    Confirm confirm_request
  | Revoke string string
  | Agent_Request agent_request
  | Execute string string
  | Webhook bytes "string option"
  | Flag_Candidate int int "string \<times> string"
  | Other_Readings nat

text \<open>\<^verbatim>\<open>Other_Readings\<close>: reads of the clock and \<^verbatim>\<open>uuid4\<close> by code that changes no table.\<close>

fun handle :: "env \<Rightarrow> settings \<Rightarrow> call \<Rightarrow> db \<Rightarrow> db" where
  "handle E cfg (Confirm req) d = snd (confirm_authorization E cfg req d)"
| "handle E cfg (Revoke auth_id given_reason) d = snd (revoke_authorization E auth_id given_reason d)"
| "handle E cfg (Agent_Request req) d = snd (evaluate_agent_request E req d)"
| "handle E cfg (Execute auth_id request_id) d = snd (execute_payment E cfg auth_id request_id d)"
| "handle E cfg (Webhook raw given_signature) d = snd (razorpay_webhook E cfg raw given_signature d)"
| "handle E cfg (Flag_Candidate observed_at timeout candidate) d =
     snd (flag_candidate E observed_at timeout candidate d)"
| "handle E cfg (Other_Readings k) d = d\<lparr>readings := readings d + k\<rparr>"

definition run_calls :: "env \<Rightarrow> settings \<Rightarrow> call list \<Rightarrow> db \<Rightarrow> db" where
  "run_calls E cfg calls d = fold (handle E cfg) calls d"

inductive system_step :: "env \<Rightarrow> settings \<Rightarrow> db \<Rightarrow> db \<Rightarrow> bool" for E cfg where
  call: "system_step E cfg d (handle E cfg c d)"

inductive_simps system_step_iff: "system_step E cfg d d'"

abbreviation reachable :: "env \<Rightarrow> settings \<Rightarrow> db \<Rightarrow> bool" where
  "reachable E cfg \<equiv> reach (\<lambda>d. d = empty_db) (system_step E cfg)"

lemma run_calls_steps: "(system_step E cfg)\<^sup>*\<^sup>* d (run_calls E cfg calls d)"
proof (induction calls arbitrary: d)
  case (Cons c calls)
  have "system_step E cfg d (handle E cfg c d)" by (rule system_step.call)
  with Cons [of "handle E cfg c d"] show ?case
    by (simp add: run_calls_def converse_rtranclp_into_rtranclp)
qed (simp add: run_calls_def)

lemma reachable_run: "reachable E cfg (run_calls E cfg calls empty_db)"
proof -
  have "reachable E cfg d \<Longrightarrow> reachable E cfg (fold (handle E cfg) calls d)" for d
    by (induction calls arbitrary: d) (auto intro: reach.next_state system_step.call)
  then show ?thesis by (simp add: run_calls_def reach.start)
qed

section \<open>The handlers implement the ledger\<close>

lemma ledger_simps [simp]:
  "authorizations (ledger d) = authorizations d" "mandate_revocations (ledger d) = mandate_revocations d"
  "agent_requests (ledger d) = agent_requests d" "policy_decisions (ledger d) = policy_decisions d"
  "payment_executions (ledger d) = payment_executions d" "payment_events (ledger d) = payment_events d"
  "seen_webhook_events (ledger d) = seen_webhook_events d"
  by (simp_all add: ledger_def)

lemma ledger_frame: "d' = d\<lparr>evidence_events := evs, readings := k\<rparr> \<Longrightarrow> ledger d' = ledger d"
  by (simp add: ledger_def)

lemma ledger_readings [simp]: "ledger (d\<lparr>readings := k\<rparr>) = ledger d"
  by (simp add: ledger_def)

text \<open>An append changes nothing of the ledger.\<close>

lemma append_event_ledger: "append_event E d tx ty ac pl = Inr d' \<Longrightarrow> ledger d' = ledger d"
  using evidence.append_frame [of E d tx ty ac pl d'] ledger_frame by blast

definition implements_step :: "env \<Rightarrow> settings \<Rightarrow> db \<Rightarrow> db \<Rightarrow> bool" where
  "implements_step E cfg d d' \<longleftrightarrow> ledger d' = ledger d \<or> ledger_step E cfg (ledger d) (ledger d')"

lemma evaluate_implements: "implements_step E cfg d (snd (evaluate_agent_request E req d))"
proof -
  obtain r d' where run: "evaluate_agent_request E req d = (r, d')" by force
  from run have "implements_step E cfg d d'"
  proof (cases rule: evaluate_agent_request_cases)
    case (rejected auth_row why)
    then show ?thesis by (simp add: implements_step_def append_event_ledger)
  next
    case (recorded row res out)
    let ?a = "req_authorization_id req" and ?x = "find_nonce d (req_authorization_id req) (req_nonce req)"
    let ?q = "request_row E req (decision res) d"
    show ?thesis
    proof (rule record_evaluation_effect [OF recorded(4)])
      fix evs k request_id
      let ?p = "decision_row E ?a request_id res d"
      assume d': "d' = d\<lparr>authorizations := authorizations (count_use ?a (decision res) d),
         agent_requests := agent_requests d @ (case ?x of None \<Rightarrow> [?q] | Some _ \<Rightarrow> []),
         policy_decisions := policy_decisions d @ [?p], evidence_events := evs, readings := k\<rparr>"
        and rid: "request_id = (case ?x of None \<Rightarrow> ar_request_id ?q | Some x \<Rightarrow> ar_request_id x)"
        and newq: "?x = None \<Longrightarrow> ar_request_id ?q \<notin> ar_request_id ` set (agent_requests d)"
        and uniq: "?x = None \<Longrightarrow> \<forall>q\<in>set (agent_requests d).
           \<not> (ar_authorization_id q = ?a \<and> ar_nonce q = req_nonce req)"
        and newp: "pd_decision_id ?p \<notin> pd_decision_id ` set (policy_decisions d)"
      show ?thesis
      proof (cases ?x)
        case None
        have agent: "req_agent_id req = agent_id (agent (au_envelope row))"
          using recorded(2) by (simp add: rejection_reason_None authentic_def)
        have allow: "decision res = ALLOW \<longrightarrow> get_revocation ?a d = None \<and>
            au_used_count row < max_transactions (execution_scope (au_envelope row)) \<and>
            cart_allowed (au_envelope row) (req_cart req)"
          using evaluate_or_revoked_allow [OF recorded(2,3)] unfolding cart_allowed_def by blast
        have "ledger d' = (ledger d)\<lparr>
            authorizations := authorizations (count_use (ar_authorization_id ?q) (pd_decision ?p) (ledger d)),
            agent_requests := agent_requests (ledger d) @ [?q],
            policy_decisions := policy_decisions (ledger d) @ [?p]\<rparr>"
          unfolding d' using None by (simp add: ledger_def count_use_def)
        moreover have "ledger_step E cfg (ledger d) ((ledger d)\<lparr>
            authorizations := authorizations (count_use (ar_authorization_id ?q) (pd_decision ?p) (ledger d)),
            agent_requests := agent_requests (ledger d) @ [?q],
            policy_decisions := policy_decisions (ledger d) @ [?p]\<rparr>)"
          using recorded(1) newq [OF None] uniq [OF None] newp rid None agent allow
          by (intro ledger_step.decide [of _ _ row]) simp_all
        ultimately show ?thesis by (simp add: implements_step_def)
      next
        case (Some q)
        have q: "q \<in> set (agent_requests d)" "ar_authorization_id q = ?a"
          using find_nonce_Some [OF Some] by auto
        have block: "decision res = BLOCK"
          using replay_decision [OF recorded(3) Some] .
        have "ledger d' = (ledger d)\<lparr>policy_decisions := policy_decisions (ledger d) @ [?p]\<rparr>"
          unfolding d' using Some block by (simp add: ledger_def count_use_def)
        moreover have "ledger_step E cfg (ledger d) ((ledger d)\<lparr>policy_decisions := policy_decisions (ledger d) @ [?p]\<rparr>)"
          using q newp rid Some block by (intro ledger_step.replay [of q]) simp_all
        ultimately show ?thesis by (simp add: implements_step_def)
      qed
    qed
  qed (simp add: implements_step_def)
  then show ?thesis by (simp add: run)
qed

lemma implements_readings [simp]: "implements_step E cfg (d\<lparr>readings := k\<rparr>) d' = implements_step E cfg d d'"
  by (simp add: implements_step_def)

lemma mandate_added:
  assumes "mandate_row E d e = Inr row" and "insert_authorization row d = Inr d'"
  shows "implements_step E cfg d d'"
proof -
  have "ledger d' = (ledger d)\<lparr>authorizations := authorizations (ledger d) @ [row]\<rparr>"
    using assms(2) by (simp add: insert_authorization_Inr ledger_def)
  moreover have "ledger_step E cfg (ledger d) ((ledger d)\<lparr>authorizations := authorizations (ledger d) @ [row]\<rparr>)"
    using assms mandate_row_Inr [OF assms(1)] by (intro ledger_step.mandate) (simp_all add: insert_authorization_Inr)
  ultimately show ?thesis by (simp add: implements_step_def)
qed

lemma confirm_implements: "implements_step E cfg d (snd (confirm_authorization E cfg req d))"
proof -
  obtain r d' where run: "confirm_authorization E cfg req d = (r, d')" by force
  from run have "implements_step E cfg d d'"
  proof (cases rule: confirm_authorization_cases)
    case (unlogged signed pk row e)
    then show ?thesis using mandate_added [OF unlogged(3,4)] by simp
  next
    case (stored signed pk row d1)
    then show ?thesis
      using mandate_added [OF stored(3,4), of cfg] append_event_ledger [OF stored(5)] by (simp add: implements_step_def)
  qed (simp add: implements_step_def)
  then show ?thesis by (simp add: run)
qed

lemma revoke_implements: "implements_step E cfg d (snd (revoke_authorization E auth_id given_reason d))"
proof -
  obtain r d' where run: "revoke_authorization E auth_id given_reason d = (r, d')" by force
  from run have "implements_step E cfg d d'"
  proof (cases rule: revoke_authorization_cases)
    case (revoked why row)
    have eff: "d' = d\<lparr>mandate_revocations := mandate_revocations d @ [row], evidence_events := evidence_events d',
        readings := readings d'\<rparr>"
      and new: "rv_authorization_id row \<notin> rv_authorization_id ` set (mandate_revocations d)"
      using insert_revocation_effect [OF revoked(4)] by (rule conjunct1, rule conjunct2)
    have "ledger d' = (ledger d)\<lparr>mandate_revocations := mandate_revocations (ledger d) @ [row]\<rparr>"
      by (subst eff) (simp add: ledger_def)
    moreover have "ledger_step E cfg (ledger d) ((ledger d)\<lparr>mandate_revocations := mandate_revocations (ledger d) @ [row]\<rparr>)"
      using revoked(2,3) new by (intro ledger_step.revoke) simp_all
    ultimately show ?thesis by (simp add: implements_step_def)
  qed (simp_all add: implements_step_def)
  then show ?thesis by (simp add: run)
qed

lemma execute_implements: "implements_step E cfg d (snd (execute_payment E cfg auth_id request_id d))"
proof -
  obtain r d' where run: "execute_payment E cfg auth_id request_id d = (r, d')" by force
  from run have "implements_step E cfg d d'"
  proof (cases rule: execute_payment_cases)
    case (created p q order)
    let ?x = "execution_row E d (pd_decision_id p) order"
    have p: "p \<in> set (policy_decisions d)" "pd_request_id p = request_id" "pd_authorization_id p = auth_id"
      using latest_Some [OF created(1)] by (auto simp: decisions_for_def)
    have q: "q \<in> set (agent_requests d)" "ar_request_id q = request_id"
      using request_tab.get_sound [OF created(5)] by auto
    have "ledger d' = (ledger d)\<lparr>payment_executions := payment_executions (ledger d) @ [?x]\<rparr>"
      by (subst store_order_effect(1) [OF created(7)]) (simp add: ledger_def)
    moreover have "ledger_step E cfg (ledger d) ((ledger d)\<lparr>payment_executions := payment_executions (ledger d) @ [?x]\<rparr>)"
      using p q created(2,3,4,6) store_order_effect(2,3) [OF created(7)]
      by (intro ledger_step.order [where p = p and x = ?x and q = q and n = "readings d" and po = order]) (simp_all add: execution_for_None)
    ultimately show ?thesis by (simp add: implements_step_def)
  qed (simp_all add: implements_step_def)
  then show ?thesis by (simp add: run)
qed

lemma execution_for_order_Some:
  "execution_for_order d i = Some x \<Longrightarrow> x \<in> set (payment_executions d) \<and> px_razorpay_order_id x = i"
  by (auto simp: execution_for_order_def find_Some_iff)

lemma ledger_set_status [simp]: "ledger (set_status i st d) = set_status i st (ledger d)"
  by (simp add: ledger_def set_status_def)

lemma delivery_implements:
  assumes "record_delivery E i x event pid oid amount d = Inr (v, d')" and "x \<in> set (payment_executions d)"
  shows "implements_step E cfg d d'"
proof (rule record_delivery_effect [OF assms(1)])
  fix pid_text ty_text
  let ?w = "seen_row E d pid_text ty_text" and ?v = "event_row E d x event pid ty_text"
  assume d': "d' = (set_status (px_execution_id x) (new_status x amount) d)
      \<lparr>seen_webhook_events := seen_webhook_events d @ [?w], payment_events := payment_events d @ [?v],
       evidence_events := evidence_events d', readings := readings d'\<rparr>"
    and new: "pid_text \<notin> sw_razorpay_payment_id ` set (seen_webhook_events d)"
      "''evt-'' @ py_str pid \<notin> pe_event_id ` set (payment_events d)"
  have "ledger d' = (set_status (px_execution_id x) (new_status x amount) (ledger d))
      \<lparr>seen_webhook_events := seen_webhook_events (ledger d) @ [?w],
       payment_events := payment_events (ledger d) @ [?v]\<rparr>"
    by (subst d') (simp add: ledger_def set_status_def)
  moreover have "ledger_step E cfg (ledger d) ((set_status (px_execution_id x) (new_status x amount) (ledger d))
      \<lparr>seen_webhook_events := seen_webhook_events (ledger d) @ [?w],
       payment_events := payment_events (ledger d) @ [?v]\<rparr>)"
    using assms(2) new by (intro ledger_step.deliver) (simp_all add: new_status_def)
  ultimately show ?thesis by (simp add: implements_step_def)
qed

lemma webhook_implements: "implements_step E cfg d (snd (razorpay_webhook E cfg raw given_signature d))"
proof -
  obtain r d' where run: "razorpay_webhook E cfg raw given_signature d = (r, d')" by force
  from run have "implements_step E cfg d d'"
  proof (cases rule: razorpay_webhook_cases)
    case (recorded sig event pid oid amount oid_text x p)
    then show ?thesis using execution_for_order_Some [OF recorded(5)] delivery_implements by blast
  qed (simp_all add: implements_step_def)
  then show ?thesis by (simp add: run)
qed

lemma flag_implements: "implements_step E cfg d (snd (flag_candidate E observed_at timeout_seconds candidate d))"
proof -
  obtain execution_id auth_id where c: "candidate = (execution_id, auth_id)" by (cases candidate)
  obtain r d' where run: "flag_candidate E observed_at timeout_seconds (execution_id, auth_id) d = (r, d')" by force
  from run have "implements_step E cfg d d'"
  proof (cases rule: flag_candidate_cases)
    case (flagged x)
    have x: "x \<in> set (payment_executions d)" "px_execution_id x = execution_id"
      using execution_tab.get_sound [OF flagged(1)] by auto
    have "ledger d' = set_status (px_execution_id x) STALE (ledger d)"
      by (subst flagged(5)) (simp add: ledger_def set_status_def x(2))
    moreover have "ledger_step E cfg (ledger d) (set_status (px_execution_id x) STALE (ledger d))"
      using x flagged(2,4) by (intro ledger_step.stale) (simp_all add: has_webhook_def)
    ultimately show ?thesis by (simp add: implements_step_def)
  qed (simp add: implements_step_def)
  then show ?thesis by (simp add: run c)
qed

lemmas handler_implements = confirm_implements revoke_implements evaluate_implements execute_implements
  webhook_implements flag_implements

lemma handle_implements: "implements_step E cfg d (handle E cfg c d)"
  by (cases c) (simp_all add: handler_implements, simp add: implements_step_def)

interpretation firewall: refinement "\<lambda>d. d = empty_db" "system_step E cfg" "\<lambda>s. s = empty_db" "ledger_step E cfg" ledger
  for E cfg
proof
  show "ledger c = empty_db" if "c = empty_db" for c using that by (simp add: ledger_def empty_db_def)
  show "ledger c' = ledger c \<or> ledger_step E cfg (ledger c) (ledger c')" if "system_step E cfg c c'" for c c'
    using that handle_implements by (auto simp: system_step_iff implements_step_def)
qed

text \<open>The invariant of the ledger holds of every database the program reaches.\<close>

lemma ledger_inv_ledger [simp]: "ledger_inv (ledger d) = ledger_inv d"
  by (simp add: ledger_inv_def keys_unique_def refs_ok_def allows_ok_def uses_ok_def statuses_ok_def
      allowed_decisions_def has_webhook_def)

lemma reachable_inv: "reachable E cfg d \<Longrightarrow> ledger_inv d"
  using firewall.transfer [of ledger_inv E cfg d] ledger_inv_empty ledger_inv_step by fastforce

section \<open>The evidence log\<close>

definition chains_ok :: "env \<Rightarrow> db \<Rightarrow> bool" where
  "chains_ok E d \<longleftrightarrow> log_ready E d \<and> (\<forall>tx. verify_chain E (get_chain d tx))"

definition logged :: "string \<Rightarrow> db \<Rightarrow> evidence_event list" where
  "logged ty d = filter (\<lambda>e. ev_event_type e = ty) (evidence_events d)"

text \<open>
  What one call adds to the log: the type and payload of its events, in order. An append under
  a lock adds one event.
\<close>

definition log_grows :: "env \<Rightarrow> db \<Rightarrow> (string \<times> json) list \<Rightarrow> db \<Rightarrow> bool" where
  "log_grows E d new d' \<longleftrightarrow>
     (chains_ok E d \<longrightarrow> chains_ok E d') \<and>
     map (\<lambda>e. (ev_event_type e, ev_payload e)) (evidence_events d') =
     map (\<lambda>e. (ev_event_type e, ev_payload e)) (evidence_events d) @ new"

lemma log_grows_none: "evidence_events d' = evidence_events d \<Longrightarrow> readings d \<le> readings d' \<Longrightarrow> log_grows E d [] d'"
  using evidence.ready_frame [of E d d'] evidence.chain_frame [of d' d]
  by (simp add: log_grows_def chains_ok_def)

lemma log_grows_append:
  assumes "append_event E d tx ty ac pl = Inr d'"
  shows "log_grows E d [(ty, pl)] d'"
proof -
  have "chains_ok E d \<longrightarrow> chains_ok E d'"
    using evidence.append_all_valid [OF _ _ assms] unfolding chains_ok_def by blast
  moreover have "map (\<lambda>e. (ev_event_type e, ev_payload e)) (evidence_events d') =
      map (\<lambda>e. (ev_event_type e, ev_payload e)) (evidence_events d) @ [(ty, pl)]"
    by (rule append_event_Inr [OF assms]) simp
  ultimately show ?thesis by (simp add: log_grows_def)
qed

lemma log_grows_trans: "log_grows E d xs d1 \<Longrightarrow> log_grows E d1 ys d2 \<Longrightarrow> log_grows E d (xs @ ys) d2"
  by (simp add: log_grows_def)

lemma log_grows_append_after:
  assumes "evidence_events d1 = evidence_events d" and "readings d \<le> readings d1"
    and "append_event E d1 tx ty ac pl = Inr d'"
  shows "log_grows E d [(ty, pl)] d'"
  using log_grows_trans [OF log_grows_none [OF assms(1,2)] log_grows_append [OF assms(3)]] by simp

lemma logged_grows:
  "log_grows E d new d' \<Longrightarrow> map ev_payload (logged ty d') =
     map ev_payload (logged ty d) @ map snd (filter (\<lambda>(t, p). t = ty) new)"
proof -
  have *: "map ev_payload (filter (\<lambda>e. ev_event_type e = ty) es) =
      map snd (filter (\<lambda>(t, p). t = ty) (map (\<lambda>e. (ev_event_type e, ev_payload e)) es))" for es
    by (induction es) auto
  show "log_grows E d new d' \<Longrightarrow> map ev_payload (logged ty d') =
     map ev_payload (logged ty d) @ map snd (filter (\<lambda>(t, p). t = ty) new)"
    by (simp add: log_grows_def logged_def *)
qed

text \<open>
  The audit trail is complete: one event per decision, request, revocation and delivery, the
  order events list the stored orders, and every signing event belongs to a stored mandate.
\<close>

definition order_payload :: "payment_execution \<Rightarrow> json" where
  "order_payload x = JObj
     [(''order_id'', JStr (px_razorpay_order_id x)), (''amount'', JInt (px_amount x)),
      (''currency'', JStr (px_currency x))]"

definition audit_ok :: "db \<Rightarrow> bool" where
  "audit_ok d \<longleftrightarrow>
     length (logged ''POLICY_EVALUATED'' d) = length (policy_decisions d) \<and>
     length (logged ''AGENT_REQUEST_RECEIVED'' d) = length (agent_requests d) \<and>
     map ev_payload (logged ''ORDER_CREATED'' d) = map order_payload (payment_executions d) \<and>
     length (logged ''PAYMENT_CAPTURED'' d) + length (logged ''PAYMENT_AMOUNT_MISMATCH'' d) = length (payment_events d) \<and>
     length (logged ''MANDATE_REVOKED'' d) = length (mandate_revocations d) \<and>
     length (logged ''MANDATE_SIGNED'' d) \<le> length (authorizations d)"

lemma logged_length:
  "log_grows E d new d' \<Longrightarrow> length (logged ty d') =
     length (logged ty d) + length (filter (\<lambda>(t, p). t = ty) new)"
  using logged_grows [of E d new d' ty] by (metis length_append length_map)

lemma audit_grows:
  assumes "audit_ok d" and "log_grows E d new d'"
    and "length (policy_decisions d') = length (policy_decisions d) + length (filter (\<lambda>(t, p). t = ''POLICY_EVALUATED'') new)"
    and "length (agent_requests d') = length (agent_requests d) + length (filter (\<lambda>(t, p). t = ''AGENT_REQUEST_RECEIVED'') new)"
    and "map order_payload (payment_executions d') = map order_payload (payment_executions d)
      @ map snd (filter (\<lambda>(t, p). t = ''ORDER_CREATED'') new)"
    and "length (payment_events d') = length (payment_events d) + length (filter (\<lambda>(t, p). t = ''PAYMENT_CAPTURED'') new)
      + length (filter (\<lambda>(t, p). t = ''PAYMENT_AMOUNT_MISMATCH'') new)"
    and "length (mandate_revocations d') = length (mandate_revocations d) + length (filter (\<lambda>(t, p). t = ''MANDATE_REVOKED'') new)"
    and "length (authorizations d) + length (filter (\<lambda>(t, p). t = ''MANDATE_SIGNED'') new) \<le> length (authorizations d')"
  shows "audit_ok d'"
  using assms(1,3-8) logged_length [OF assms(2)] logged_grows [OF assms(2)]
  by (simp add: audit_ok_def)

text \<open>Each handler keeps the chains valid and the audit trail complete.\<close>

lemma ledger_eq:
  "ledger d' = ledger d \<Longrightarrow> authorizations d' = authorizations d \<and> mandate_revocations d' = mandate_revocations d \<and>
     agent_requests d' = agent_requests d \<and> policy_decisions d' = policy_decisions d \<and>
     payment_executions d' = payment_executions d \<and> payment_events d' = payment_events d"
  by (cases d; cases d') (simp add: ledger_def)

definition keeps_log :: "env \<Rightarrow> db \<Rightarrow> db \<Rightarrow> bool" where
  "keeps_log E d d' \<longleftrightarrow> (chains_ok E d \<longrightarrow> chains_ok E d') \<and> (audit_ok d \<longrightarrow> audit_ok d')"

lemma keeps_logI:
  assumes "log_grows E d new d'" and "audit_ok d \<Longrightarrow> audit_ok d'"
  shows "keeps_log E d d'"
  using assms by (simp add: keeps_log_def log_grows_def)

lemma keeps_log_refl [simp]: "keeps_log E d d"
  by (simp add: keeps_log_def)

lemma evaluate_keeps_log: "keeps_log E d (snd (evaluate_agent_request E req d))"
proof -
  obtain r d' where run: "evaluate_agent_request E req d = (r, d')" by force
  from run have "keeps_log E d d'"
  proof (cases rule: evaluate_agent_request_cases)
    case (rejected row why)
    have g: "log_grows E d [(''AGENT_REQUEST_REJECTED'',
        JObj [(''claimed_agent_id'', JStr (req_agent_id req)), (''reason'', JStr why)])] d'"
      by (rule log_grows_append [OF rejected(3)])
    have l: "ledger d' = ledger d" by (rule append_event_ledger [OF rejected(3)])
    show ?thesis
      by (rule keeps_logI [OF g], erule audit_grows [OF _ g]) (use ledger_eq [OF l] in simp_all)
  next
    case (recorded row res out)
    let ?a = "req_authorization_id req" and ?x = "find_nonce d (req_authorization_id req) (req_nonce req)"
    show ?thesis
    proof (rule record_evaluation_effect [OF recorded(4)])
      fix evs k request_id d1 d2
      assume d': "d' = d\<lparr>authorizations := authorizations (count_use ?a (decision res) d),
         agent_requests := agent_requests d @ (case ?x of None \<Rightarrow> [request_row E req (decision res) d] | Some _ \<Rightarrow> []),
         policy_decisions := policy_decisions d @ [decision_row E ?a request_id res d],
         evidence_events := evs, readings := k\<rparr>"
        and e: "evidence_events d1 = evidence_events d" "readings d \<le> readings d1"
        and a1: "append_event E d1 ?a (if ?x = None then ''AGENT_REQUEST_RECEIVED'' else ''REPLAY_ATTEMPT_BLOCKED'')
          (req_agent_id req) (received_payload request_id req) = Inr d2"
        and a2: "append_event E d2 ?a ''POLICY_EVALUATED'' ''policy-engine'' (evaluated_payload res) = Inr d'"
      have g: "log_grows E d ([(if ?x = None then ''AGENT_REQUEST_RECEIVED'' else ''REPLAY_ATTEMPT_BLOCKED'',
          received_payload request_id req)] @ [(''POLICY_EVALUATED'', evaluated_payload res)]) d'"
        by (rule log_grows_trans [OF log_grows_append_after [OF e a1] log_grows_append [OF a2]])
      show ?thesis
        by (rule keeps_logI [OF g], erule audit_grows [OF _ g])
          (auto simp: d' count_use_rows split: option.split)
    qed
  qed simp
  then show ?thesis by (simp add: run)
qed

lemma confirm_keeps_log: "keeps_log E d (snd (confirm_authorization E cfg req d))"
proof -
  obtain r d' where run: "confirm_authorization E cfg req d = (r, d')" by force
  from run have "keeps_log E d d'"
  proof (cases rule: confirm_authorization_cases)
    case (unlogged signed pk row e)
    have g: "log_grows E d [] d'"
      using unlogged(4) by (intro log_grows_none) (simp_all add: insert_authorization_Inr)
    show ?thesis
      by (rule keeps_logI [OF g], erule audit_grows [OF _ g]) (use unlogged(4) in \<open>simp_all add: insert_authorization_Inr\<close>)
  next
    case (stored signed pk row d1)
    have g: "log_grows E d [(''MANDATE_SIGNED'', JObj (envelope_dump signed))] d'"
      by (rule log_grows_append_after [OF _ _ stored(5)]) (use stored(4) in \<open>simp_all add: insert_authorization_Inr\<close>)
    have l: "ledger d' = ledger d1" by (rule append_event_ledger [OF stored(5)])
    show ?thesis
      by (rule keeps_logI [OF g], erule audit_grows [OF _ g])
        (use stored(4) ledger_eq [OF l] in \<open>simp_all add: insert_authorization_Inr\<close>)
  qed simp
  then show ?thesis by (simp add: run)
qed

lemma revoke_keeps_log: "keeps_log E d (snd (revoke_authorization E auth_id given_reason d))"
proof -
  obtain r d' where run: "revoke_authorization E auth_id given_reason d = (r, d')" by force
  from run have "keeps_log E d d'"
  proof (cases rule: revoke_authorization_cases)
    case (revoked why row)
    obtain ac pl where a: "append_event E (d\<lparr>mandate_revocations := mandate_revocations d @ [row], readings := readings d + 1\<rparr>)
        (rv_authorization_id row) ''MANDATE_REVOKED'' ac pl = Inr d'"
      using revoked(4) by (auto simp: insert_revocation_def row_insert_def split: option.splits if_splits)
    have g: "log_grows E d [(''MANDATE_REVOKED'', pl)] d'"
      by (rule log_grows_append_after [OF _ _ a]) simp_all
    show ?thesis
      by (rule keeps_logI [OF g], erule audit_grows [OF _ g])
        (use ledger_eq [OF append_event_ledger [OF a]] in simp_all)
  qed simp_all
  then show ?thesis by (simp add: run)
qed

lemma execute_keeps_log: "keeps_log E d (snd (execute_payment E cfg auth_id request_id d))"
proof -
  obtain r d' where run: "execute_payment E cfg auth_id request_id d = (r, d')" by force
  from run have "keeps_log E d d'"
  proof (cases rule: execute_payment_cases)
    case (created p q order)
    let ?x = "execution_row E d (pd_decision_id p) order"
    have a: "append_event E (d\<lparr>payment_executions := payment_executions d @ [?x], readings := readings d + 3\<rparr>)
        auth_id ''ORDER_CREATED'' ''payment-executor'' (order_payload ?x) = Inr d'"
      using created(7) by (auto simp: store_order_def insert_execution_Inr sequence_simps order_payload_def)
    have g: "log_grows E d [(''ORDER_CREATED'', order_payload ?x)] d'"
      by (rule log_grows_append_after [OF _ _ a]) simp_all
    show ?thesis
      by (rule keeps_logI [OF g], erule audit_grows [OF _ g])
        (use ledger_eq [OF append_event_ledger [OF a]] in simp_all)
  qed simp_all
  then show ?thesis by (simp add: run)
qed

lemma order_payload_status: "map order_payload (payment_executions (set_status i st d)) = map order_payload (payment_executions d)"
  by (auto simp: set_status_rows order_payload_def)

lemma webhook_keeps_log: "keeps_log E d (snd (razorpay_webhook E cfg raw given_signature d))"
proof -
  obtain r d' where run: "razorpay_webhook E cfg raw given_signature d = (r, d')" by force
  from run have "keeps_log E d d'"
  proof (cases rule: razorpay_webhook_cases)
    case (recorded sig event pid oid amount oid_text x p)
    show ?thesis
    proof (rule record_delivery_effect [OF recorded(7)])
      fix pid_text ty_text pl
      let ?d = "(set_status (px_execution_id x) (new_status x amount) d)
          \<lparr>seen_webhook_events := seen_webhook_events d @ [seen_row E d pid_text ty_text],
           payment_events := payment_events d @ [event_row E d x event pid ty_text]\<rparr>"
      let ?ty = "if new_status x amount = AMOUNT_MISMATCH then ''PAYMENT_AMOUNT_MISMATCH'' else ''PAYMENT_CAPTURED''"
      let ?pl = "JObj [(''payment_id'', pid), (''order_id'', oid), (''amount'', amount)]"
      assume a: "append_event E (?d\<lparr>readings := readings d + 2\<rparr>) (pd_authorization_id p) ?ty ''razorpay-webhook'' ?pl = Inr d'"
      have g: "log_grows E d [(?ty, ?pl)] d'"
        by (rule log_grows_append_after [OF _ _ a]) simp_all
      show ?thesis
        by (rule keeps_logI [OF g], erule audit_grows [OF _ g])
          (use ledger_eq [OF append_event_ledger [OF a]] in \<open>simp_all add: order_payload_status\<close>)
    qed
  qed simp_all
  then show ?thesis by (simp add: run)
qed

lemma flag_keeps_log: "keeps_log E d (snd (flag_candidate E observed_at timeout_seconds candidate d))"
proof -
  obtain execution_id auth_id where c: "candidate = (execution_id, auth_id)" by (cases candidate)
  obtain r d' where run: "flag_candidate E observed_at timeout_seconds (execution_id, auth_id) d = (r, d')" by force
  from run have "keeps_log E d d'"
  proof (cases rule: flag_candidate_cases)
    case (flagged x)
    have g: "log_grows E d [(''PAYMENT_STALE'', stale_payload E x observed_at timeout_seconds)] d'"
      by (rule log_grows_append_after [OF _ _ flagged(6)]) simp_all
    show ?thesis
      by (rule keeps_logI [OF g], erule audit_grows [OF _ g])
        (use ledger_eq [OF append_event_ledger [OF flagged(6)]] in \<open>simp_all add: order_payload_status\<close>)
  qed simp
  then show ?thesis by (simp add: run c)
qed

lemma handle_keeps_log: "keeps_log E d (handle E cfg c d)"
proof (cases c)
  case (Other_Readings k)
  have g: "log_grows E d [] (d\<lparr>readings := readings d + k\<rparr>)" by (rule log_grows_none) simp_all
  show ?thesis
    unfolding Other_Readings handle.simps
    by (rule keeps_logI [OF g]) (simp add: audit_ok_def logged_def)
qed (simp_all add: evaluate_keeps_log confirm_keeps_log revoke_keeps_log execute_keeps_log webhook_keeps_log flag_keeps_log)

lemma reachable_chains: "strict_mono (clock E) \<Longrightarrow> reachable E cfg d \<Longrightarrow> chains_ok E d"
  by (erule reach_invariant)
    (use handle_keeps_log in \<open>auto simp: system_step_iff keeps_log_def chains_ok_def log_ready_def
      empty_db_def ordered_events_def verify_chain_def get_chain_def of_transaction_def\<close>)

lemma reachable_audit: "reachable E cfg d \<Longrightarrow> audit_ok d"
  by (erule reach_invariant)
    (use handle_keeps_log in \<open>auto simp: system_step_iff keeps_log_def audit_ok_def logged_def empty_db_def\<close>)

end
