(* ===== verification/Demo_Run.thy ===== *)
theory Demo_Run
  imports System
begin

text \<open>
  A complete run of the demo: the mandate is confirmed, the agent's request allowed, the order
  created and its webhook delivered, from the empty database. The witnesses of the properties
  of the whole system are read off its states.
\<close>

definition demo_settings :: settings where
  "demo_settings =
     \<lparr>razorpay_key_id = None, razorpay_key_secret = None, razorpay_webhook_secret = None,
      database_url = ''sqlite:///./firewall.db'', default_mandate_ttl_minutes = 20,
      agent_rate_limit = 60, agent_rate_limit_global = 600, agent_rate_limit_window_seconds = 60,
      agent_rate_limit_max_clients = 4096, payment_stale_after_seconds = 1800,
      payment_cleanup_interval_seconds = 60, payment_cleanup_batch_size = 100\<rparr>"

definition demo_proposal :: payload where
  "demo_proposal =
     [(''authorization_id'', JStr ''auth-12345''), (''user_id'', JStr ''user_789''),
      (''agent_id'', JStr ''agent_xyz''), (''agent_provider'', JStr ''MyAssistant''),
      (''merchant_ids'', JList [JStr ''MerchantA'']), (''allowed_skus'', JList [JStr ''CHAIR1'']),
      (''category'', JStr ''chair''), (''max_total'', JInt 25000), (''quantity'', JInt 3),
      (''issued_at'', JStr ''2026-09-05T18:09:00+00:00''),
      (''expires_at'', JStr ''2026-09-05T18:30:00+00:00''), (''nonce'', JStr ''nonce-1'')]"

definition demo_confirm :: confirm_request where
  "demo_confirm =
     \<lparr>cf_mandate = demo_proposal, cf_agent_public_key = demo_key, cf_signing_private_key = Some demo_key\<rparr>"

lemma demo_build: "build_envelope demo_env demo_settings 0 demo_proposal demo_key =
  Inr (demo_mandate\<lparr>agent := (agent demo_mandate)\<lparr>request_public_key := None\<rparr>, evidence_hash := [], signature := None\<rparr>)"
  by (simp add: build_envelope_simps demo_proposal_def demo_settings_def)
    (simp add: demo_env_def demo_mandate_def)

lemma demo_derive: "derive_public_key demo_env demo_key = Inr demo_key"
  by (simp add: derive_public_key_def private_bytes_def demo_key_bytes) (simp add: demo_env_def demo_key_def)

lemma demo_sign: "sign demo_env demo_digest demo_key = Inr demo_signature"
  by (simp add: sign_def private_bytes_def demo_key_bytes demo_ascii) (simp add: demo_env_def demo_signature_def)

lemma demo_signed: "signed_mandate demo_env demo_settings 0 demo_confirm = Inr (demo_mandate, demo_key)"
  by (simp add: signed_mandate_def demo_confirm_def truthy_def demo_nonempty demo_derive demo_build
      sign_envelope_def compute_evidence_hash_def demo_hashes demo_sign)
    (simp add: demo_mandate_def)

lemma demo_parse:
  "parse_datetime demo_env ''2026-09-05T18:09:00+00:00'' = Inr (utc_datetime 202609051809000000)"
  "parse_datetime demo_env ''2026-09-05T18:30:00+00:00'' = Inr (utc_datetime 202609051830000000)"
  by (simp_all add: parse_datetime_def demo_env_def demo_iso_def is_digit_def utc_datetime_def)

lemma demo_mandate_row: "mandate_row demo_env (empty_db\<lparr>readings := 3\<rparr>) demo_mandate = Inr demo_row"
  by (simp add: mandate_row_def demo_mandate_def demo_parse)
    (simp add: demo_row_def demo_mandate_def demo_env_def empty_db_def)

lemma empty_simps [simp]:
  "authorizations empty_db = []" "mandate_revocations empty_db = []" "agent_requests empty_db = []"
  "policy_decisions empty_db = []" "payment_executions empty_db = []" "payment_events empty_db = []"
  "evidence_events empty_db = []" "seen_webhook_events empty_db = []" "readings empty_db = 0"
  by (simp_all add: empty_db_def)

lemma demo_confirmed:
  obtains d e where "confirm_authorization demo_env demo_settings demo_confirm empty_db =
      (Inr \<lparr>cr_authorization_id = ''auth-12345'', cr_status = ''SIGNED'', cr_public_key = demo_key,
        cr_evidence_hash = demo_digest\<rparr>, d)"
    "d = empty_db\<lparr>authorizations := [demo_row], evidence_events := [e], readings := 5\<rparr>"
    "ev_evidence_id e = uuid_str (uuid_hex demo_env 4)"
proof -
  have valid: "\<not> isl (validate_agent_key (cf_agent_public_key demo_confirm))"
    by (simp add: validate_agent_key_def demo_confirm_def demo_key_bytes)
  have none: "get_authorization ''auth-12345'' empty_db = None"
    by (simp add: row_get_def)
  let ?d = "empty_db\<lparr>authorizations := [demo_row], readings := 4\<rparr>"
  have ins: "insert_authorization demo_row (empty_db\<lparr>readings := 3\<rparr>) = Inr ?d"
    by (simp add: insert_authorization_def row_insert_def)
  have new: "uuid_str (uuid_hex demo_env (readings ?d)) \<notin> ev_evidence_id ` set (evidence_events ?d)"
    by simp
  obtain e where e: "append_event demo_env ?d ''auth-12345'' ''MANDATE_SIGNED'' ''user_789'' (JObj (envelope_dump demo_mandate)) =
      Inr (?d\<lparr>evidence_events := evidence_events ?d @ [e], readings := Suc (readings ?d)\<rparr>)"
    "ev_evidence_id e = uuid_str (uuid_hex demo_env (readings ?d))"
    by (rule append_event_fresh [OF new])
  have id: "authorization_id demo_mandate = ''auth-12345''" "user_id (principal demo_mandate) = ''user_789''"
    "evidence_hash demo_mandate = demo_digest"
    by (simp_all add: demo_mandate_def)
  have "confirm_authorization demo_env demo_settings demo_confirm empty_db =
      (Inr \<lparr>cr_authorization_id = ''auth-12345'', cr_status = ''SIGNED'', cr_public_key = demo_key,
        cr_evidence_hash = demo_digest\<rparr>, ?d\<lparr>evidence_events := [e], readings := 5\<rparr>)"
    using valid none e
    by (simp add: confirm_authorization_def demo_signed demo_mandate_row ins id)
  then show ?thesis by (rule that) (use e(2) in simp_all)
qed

text \<open>The states of the run; the evidence events are left unspecified but for their identifiers.\<close>

definition demo_allow :: policy_result where
  "demo_allow = result ALLOW NONE ''All policy checks passed.''"

definition demo_used_row :: authorization_row where
  "demo_used_row = demo_row\<lparr>au_used_count := 1\<rparr>"

definition demo_stored_request :: agent_request_row where
  "demo_stored_request = request_row demo_env demo_request ALLOW (empty_db\<lparr>readings := 5\<rparr>)"

definition demo_decision :: policy_decision where
  "demo_decision = decision_row demo_env ''auth-12345'' (ar_request_id demo_stored_request) demo_allow (empty_db\<lparr>readings := 5\<rparr>)"

definition demo_payment :: payment_execution where
  "demo_payment = \<lparr>px_execution_id = short_id demo_env ''exec-'' 13, px_decision_id = pd_decision_id demo_decision,
     px_razorpay_order_id = demo_order_id, px_amount = 23700, px_currency = ''INR'', px_status = CREATED,
     px_created_at = clock demo_env 14\<rparr>"

lemma demo_uuids_distinct:
  "distinct (map (\<lambda>n. uuid_str (demo_uuid n)) [4, 10, 11, 15, 18])"
  "distinct (map (\<lambda>n. uuid_str (demo_uuid n)) [18, 15, 11, 10, 4])"
  by code_simp+

lemma demo_uuid_hex: "uuid_hex demo_env = demo_uuid"
  by (simp add: demo_env_def)

definition demo_state2 :: "evidence_event \<Rightarrow> evidence_event \<Rightarrow> evidence_event \<Rightarrow> db" where
  "demo_state2 e e1 e2 = empty_db\<lparr>authorizations := [demo_used_row], agent_requests := [demo_stored_request],
     policy_decisions := [demo_decision], evidence_events := [e, e1, e2], readings := 12\<rparr>"

lemma demo_step2:
  assumes "d = empty_db\<lparr>authorizations := [demo_row], evidence_events := [e], readings := 5\<rparr>"
    and "ev_evidence_id e = uuid_str (uuid_hex demo_env 4)"
  obtains out e1 e2 where "evaluate_agent_request demo_env demo_request d = (Inr out, demo_state2 e e1 e2)"
    "map ev_evidence_id [e, e1, e2] = map (\<lambda>n. uuid_str (uuid_hex demo_env n)) [4, 10, 11]"
proof -
  have "fresh_ids demo_env d"
    using demo_uuids_distinct by (simp add: fresh_ids_def assms Let_def demo_uuid_hex)
  moreover have nonce: "find_nonce d ''auth-12345'' ''n1'' = None"
    by (simp add: find_nonce_def assms(1))
  ultimately obtain out e1 e2 where rec: "record_evaluation demo_env demo_request demo_allow None d = (Inr (out, d\<lparr>
       authorizations := authorizations (count_use (req_authorization_id demo_request) ALLOW d),
       agent_requests := agent_requests d @ [request_row demo_env demo_request ALLOW d],
       policy_decisions := policy_decisions d @ [decision_row demo_env (req_authorization_id demo_request)
         (ar_request_id (request_row demo_env demo_request ALLOW d)) demo_allow d],
       evidence_events := evidence_events d @ [e1, e2], readings := readings d + 7\<rparr>))"
    and ids: "ev_evidence_id e1 = uuid_str (uuid_hex demo_env (readings d + 5))"
      "ev_evidence_id e2 = uuid_str (uuid_hex demo_env (readings d + 6))"
    using record_evaluation_fresh [of demo_env d demo_request demo_allow]
    by (auto simp: find_nonce_None demo_request_def demo_allow_def assms(1))
  have "evaluate_agent_request demo_env demo_request d = (Inr out, demo_state2 e e1 e2)"
  proof (rule demo_run)
    have "d\<lparr>authorizations := authorizations (count_use (req_authorization_id demo_request) ALLOW d),
       agent_requests := agent_requests d @ [request_row demo_env demo_request ALLOW d],
       policy_decisions := policy_decisions d @ [decision_row demo_env (req_authorization_id demo_request)
         (ar_request_id (request_row demo_env demo_request ALLOW d)) demo_allow d],
       evidence_events := evidence_events d @ [e1, e2], readings := readings d + 7\<rparr> = demo_state2 e e1 e2"
      by (simp add: demo_state2_def assms(1) count_use_def row_update_def demo_used_row_def demo_stored_request_def
          demo_decision_def request_row_def decision_row_def)
        (simp add: demo_row_def demo_request_def)
    with rec show "record_evaluation demo_env demo_request
        (if find_nonce d ''auth-12345'' ''n1'' = None then result ALLOW NONE ''All policy checks passed.''
         else block NONCE_ALREADY_USED ''This nonce has already been consumed.'')
        (find_nonce d ''auth-12345'' ''n1'') d = Inr (out, demo_state2 e e1 e2)"
      by (simp add: nonce demo_allow_def)
  qed (simp_all add: assms(1))
  then show ?thesis by (rule that) (simp add: ids assms)
qed

definition demo_state3 :: "evidence_event list \<Rightarrow> db" where
  "demo_state3 es = empty_db\<lparr>authorizations := [demo_used_row], agent_requests := [demo_stored_request],
     policy_decisions := [demo_decision], payment_executions := [demo_payment], evidence_events := es, readings := 16\<rparr>"

lemma demo_decision_simps:
  "pd_request_id demo_decision = ar_request_id demo_stored_request" "pd_authorization_id demo_decision = ''auth-12345''"
  "pd_decision demo_decision = ALLOW" "ar_cart demo_stored_request = demo_cart"
  "ar_authorization_id demo_stored_request = ''auth-12345''" "ar_nonce demo_stored_request = ''n1''"
  by (simp_all add: demo_decision_def demo_allow_def demo_stored_request_def demo_request_def)

lemma demo_used_get: "row_get au_authorization_id ''auth-12345'' [demo_used_row] = Some demo_used_row"
  by (simp add: row_get_def demo_used_row_def demo_row_def)

lemma demo_executor: "get_payment_executor demo_settings = MockRazorpayClient"
  by (simp add: get_payment_executor_def razorpay_configured_def demo_settings_def)

lemma demo_step3:
  assumes "map ev_evidence_id [e, e1, e2] = map (\<lambda>n. uuid_str (uuid_hex demo_env n)) [4, 10, 11]"
  obtains e3 where "execute_payment demo_env demo_settings ''auth-12345'' (ar_request_id demo_stored_request) (demo_state2 e e1 e2) =
      (Inr \<lparr>ex_order_id = demo_order_id, ex_amount = 23700, ex_currency = ''INR''\<rparr>, demo_state3 [e, e1, e2, e3])"
    "ev_evidence_id e3 = uuid_str (uuid_hex demo_env 15)"
proof -
  let ?d = "demo_state2 e e1 e2"
  let ?order = "\<lparr>or_order_id = demo_order_id, or_amount = 23700, or_currency = ''INR'', or_status = ''created'',
    or_receipt = ''auth-12345''\<rparr>"
  let ?d3 = "?d\<lparr>payment_executions := [demo_payment], readings := 15\<rparr>"
  have order: "create_order demo_env MockRazorpayClient 12 (total demo_cart) (cart_currency demo_cart) ''auth-12345'' = Inr ?order"
    by (simp add: demo_order_id_def demo_uuid_hex demo_cart_def)
  have row: "execution_row demo_env ?d (pd_decision_id demo_decision) ?order = demo_payment"
    by (simp add: execution_row_def demo_payment_def demo_state2_def)
  have "uuid_str (uuid_hex demo_env (readings ?d3)) \<notin> ev_evidence_id ` set (evidence_events ?d3)"
    using demo_uuids_distinct assms by (simp add: demo_state2_def demo_uuid_hex)
  then obtain e3 where e3: "append_event demo_env ?d3 ''auth-12345'' ''ORDER_CREATED'' ''payment-executor''
      (JObj [(''order_id'', JStr demo_order_id), (''amount'', JInt 23700), (''currency'', JStr ''INR'')]) =
      Inr (?d3\<lparr>evidence_events := evidence_events ?d3 @ [e3], readings := Suc (readings ?d3)\<rparr>)"
    "ev_evidence_id e3 = uuid_str (uuid_hex demo_env (readings ?d3))"
    by (rule append_event_fresh)
  have "store_order demo_env ''auth-12345'' (pd_decision_id demo_decision) ?order ?d = Inr (demo_state3 [e, e1, e2, e3])"
    using e3(1) by (simp add: store_order_def row insert_execution_def row_insert_def) (simp add: demo_state2_def demo_state3_def)
  moreover have "readings ?d = 12" by (simp add: demo_state2_def)
  ultimately have "create_and_store demo_env demo_settings ''auth-12345'' (pd_decision_id demo_decision) demo_cart ?d =
      Inr (\<lparr>ex_order_id = demo_order_id, ex_amount = 23700, ex_currency = ''INR''\<rparr>, demo_state3 [e, e1, e2, e3])"
    using order by (simp add: create_and_store_def demo_executor)
  then have "execute_payment demo_env demo_settings ''auth-12345'' (ar_request_id demo_stored_request) ?d =
      (Inr \<lparr>ex_order_id = demo_order_id, ex_amount = 23700, ex_currency = ''INR''\<rparr>, demo_state3 [e, e1, e2, e3])"
    by (simp add: execute_payment_def lock_authorization_def demo_state2_def demo_used_get decisions_for_def
        demo_decision_simps execution_for_def row_get_def [of _ _ "[]"] transact_def)
      (simp add: row_get_def demo_decision_simps transact_def)
  then show ?thesis by (rule that) (simp add: e3 demo_state2_def)
qed

definition demo_state4 :: "evidence_event list \<Rightarrow> db" where
  "demo_state4 es = empty_db\<lparr>authorizations := [demo_used_row], agent_requests := [demo_stored_request],
     policy_decisions := [demo_decision], payment_executions := [demo_payment\<lparr>px_status := CAPTURED\<rparr>],
     payment_events := [event_row demo_env (empty_db\<lparr>readings := 16\<rparr>) demo_payment demo_delivery (JStr ''pay_1'') ''payment.captured''],
     seen_webhook_events := [seen_row demo_env (empty_db\<lparr>readings := 16\<rparr>) ''pay_1'' ''payment.captured''],
     evidence_events := es, readings := 19\<rparr>"

lemma demo_delivery_read:
  "read_delivery demo_env ''captured'' = Inr (demo_delivery, JStr ''pay_1'', JStr demo_order_id, JInt 23700)"
proof -
  have "json_loads demo_env ''captured'' = Some demo_delivery" by (simp add: demo_env_def demo_loads_def)
  then show ?thesis
    by (simp add: read_delivery_def payment_entity_def attr_get_def get_or_def) (simp add: demo_delivery_def attr_get_def get_or_def)
qed

lemma demo_webhook_ok: "verify_webhook demo_env MockRazorpayClient raw demo_digest = Inr True"
proof -
  have "webhook_digest demo_env mock_secret raw = demo_digest" by (simp add: webhook_digest_def demo_env_def)
  then show ?thesis by (simp add: compare_digest_def demo_ascii)
qed

lemma demo_truthy: "truthy (Some demo_digest)"
  by (simp add: truthy_def demo_digest_def)

lemma demo_payment_simps:
  "px_razorpay_order_id demo_payment = demo_order_id" "px_decision_id demo_payment = pd_decision_id demo_decision"
  "px_amount demo_payment = 23700" "px_currency demo_payment = ''INR''" "px_status demo_payment = CREATED"
  by (simp_all add: demo_payment_def)

lemma demo_step4:
  assumes "map ev_evidence_id es = map (\<lambda>n. uuid_str (uuid_hex demo_env n)) [4, 10, 11, 15]"
  obtains e4 where "razorpay_webhook demo_env demo_settings ''captured'' (Some demo_digest) (demo_state3 es) =
      (Inr ''ok'', demo_state4 (es @ [e4]))"
proof -
  let ?d = "demo_state3 es"
  let ?v = "event_row demo_env ?d demo_payment demo_delivery (JStr ''pay_1'') ''payment.captured''"
  let ?w = "seen_row demo_env ?d ''pay_1'' ''payment.captured''"
  let ?d3 = "?d\<lparr>payment_executions := [demo_payment\<lparr>px_status := CAPTURED\<rparr>],
    seen_webhook_events := [?w], payment_events := [?v], readings := 18\<rparr>"
  have "set (map ev_evidence_id es) = set (map (\<lambda>n. uuid_str (uuid_hex demo_env n)) [4, 10, 11, 15])"
    by (simp only: assms)
  then have "uuid_str (uuid_hex demo_env (readings ?d3)) \<notin> ev_evidence_id ` set (evidence_events ?d3)"
    using demo_uuids_distinct by (simp add: demo_state3_def demo_uuid_hex)
  then obtain e4 where e4: "append_event demo_env ?d3 ''auth-12345'' ''PAYMENT_CAPTURED'' ''razorpay-webhook''
      (JObj [(''payment_id'', JStr ''pay_1''), (''order_id'', JStr demo_order_id), (''amount'', JInt 23700)]) =
      Inr (?d3\<lparr>evidence_events := evidence_events ?d3 @ [e4], readings := Suc (readings ?d3)\<rparr>)"
    by (rule append_event_fresh)
  have st: "new_status demo_payment (JInt 23700) = CAPTURED"
    by (simp add: new_status_def amount_mismatch_def demo_payment_simps)
  have ev: "attr_get demo_delivery ''event'' (JStr ''unknown'') = Inr (JStr ''payment.captured'')"
    by (simp add: attr_get_def get_or_def demo_delivery_def)
  have set: "set_status (px_execution_id demo_payment) CAPTURED (?d\<lparr>seen_webhook_events := [?w]\<rparr>) =
      ?d\<lparr>payment_executions := [demo_payment\<lparr>px_status := CAPTURED\<rparr>], seen_webhook_events := [?w]\<rparr>"
    by (simp add: set_status_def row_update_def demo_state3_def)
  have new: "seen_webhook_events ?d = []" "payment_events ?d = []" "readings ?d = 16" by (simp_all add: demo_state3_def)
  have d4: "?d3\<lparr>evidence_events := evidence_events ?d3 @ [e4], readings := Suc (readings ?d3)\<rparr> = demo_state4 (es @ [e4])"
    by (simp add: demo_state3_def demo_state4_def event_row_def seen_row_def)
  have nonempty: "demo_order_id \<noteq> []" by (simp add: demo_order_id_def)
  have found: "execution_for_order ?d demo_order_id = Some demo_payment"
    "get_decision (px_decision_id demo_payment) ?d = Some demo_decision"
    "lock_authorization ?d ''auth-12345'' = Inr demo_used_row" "\<not> seen_payment ?d ''pay_1''"
    by (simp_all add: execution_for_order_def demo_payment_simps lock_authorization_def seen_payment_def)
      (simp_all add: demo_state3_def demo_payment_simps demo_used_get, simp_all add: row_get_def demo_payment_simps)
  have "record_delivery demo_env ''auth-12345'' demo_payment demo_delivery (JStr ''pay_1'') (JStr demo_order_id) (JInt 23700) ?d =
      Inr (''ok'', demo_state4 (es @ [e4]))"
    using e4 d4 by (simp add: record_delivery_def ev st set insert_seen_def insert_payment_event_def row_insert_def new)
  then have "handle_delivery demo_env (demo_delivery, JStr ''pay_1'', JStr demo_order_id, JInt 23700) ?d =
      (Inr ''ok'', demo_state4 (es @ [e4]))"
    using nonempty found by (simp add: handle_delivery_def transact_def demo_decision_simps)
  then have "razorpay_webhook demo_env demo_settings ''captured'' (Some demo_digest) ?d = (Inr ''ok'', demo_state4 (es @ [e4]))"
    by (simp add: razorpay_webhook_def demo_truthy demo_executor demo_webhook_ok demo_delivery_read del: verify_webhook.simps)
  then show ?thesis by (rule that)
qed

text \<open>The whole run, and that its states are reachable.\<close>

definition demo_calls :: "call list" where
  "demo_calls = [Confirm demo_confirm, Agent_Request demo_request,
     Execute ''auth-12345'' (ar_request_id demo_stored_request), Webhook ''captured'' (Some demo_digest)]"

lemma demo_states:
  obtains es e4 where "length es = 4"
    "run_calls demo_env demo_settings (take 3 demo_calls) empty_db = demo_state3 es"
    "run_calls demo_env demo_settings demo_calls empty_db = demo_state4 (es @ [e4])"
proof -
  obtain d e r where d: "confirm_authorization demo_env demo_settings demo_confirm empty_db = (r, d)"
    "d = empty_db\<lparr>authorizations := [demo_row], evidence_events := [e], readings := 5\<rparr>"
    "ev_evidence_id e = uuid_str (uuid_hex demo_env 4)"
    using demo_confirmed by metis
  obtain out e1 e2 where s2: "evaluate_agent_request demo_env demo_request d = (Inr out, demo_state2 e e1 e2)"
    "map ev_evidence_id [e, e1, e2] = map (\<lambda>n. uuid_str (uuid_hex demo_env n)) [4, 10, 11]"
    by (rule demo_step2 [OF d(2,3)])
  obtain e3 r3 where s3: "execute_payment demo_env demo_settings ''auth-12345'' (ar_request_id demo_stored_request)
      (demo_state2 e e1 e2) = (r3, demo_state3 [e, e1, e2, e3])" "ev_evidence_id e3 = uuid_str (uuid_hex demo_env 15)"
    using demo_step3 [OF s2(2)] by metis
  have ids: "map ev_evidence_id [e, e1, e2, e3] = map (\<lambda>n. uuid_str (uuid_hex demo_env n)) [4, 10, 11, 15]"
    using s2(2) s3(2) by simp
  obtain e4 where s4: "razorpay_webhook demo_env demo_settings ''captured'' (Some demo_digest) (demo_state3 [e, e1, e2, e3]) =
      (Inr ''ok'', demo_state4 ([e, e1, e2, e3] @ [e4]))"
    by (rule demo_step4 [OF ids])
  show ?thesis
    by (rule that [of "[e, e1, e2, e3]" e4]) (simp_all add: run_calls_def demo_calls_def d(1) s2(1) s3(1) s4)
qed

end
