(* ===== verification/System_Properties.thy ===== *)
theory System_Properties
  imports Demo_Run
begin

text \<open>
  What holds of every database the program reaches, whatever calls arrive in whatever order:
  the money bounds, the single use of nonces and decisions, the finality of revocation, the
  immutability of mandates, the life of a payment, and the evidence log.
\<close>

section \<open>Money and use\<close>

text \<open>
  C1. The spending limit. In every reachable database, if the provider creates the orders it is
  asked for, the payments under a mandate are at most as many as its limit of transactions,
  each is at most its budget and in its currency, and together they are at most the used count
  times the budget.
\<close>

theorem spend_limit:
  assumes "reachable E cfg d" and "provider_honest E" and "row \<in> set (authorizations d)"
  shows "sum_list (map px_amount (payments_of d (au_authorization_id row)))
           \<le> au_used_count row * max_total (financial_scope (au_envelope row)) \<and>
         int (length (payments_of d (au_authorization_id row))) \<le> au_used_count row \<and>
         au_used_count row \<le> max 0 (max_transactions (execution_scope (au_envelope row))) \<and>
         (\<forall>x\<in>set (payments_of d (au_authorization_id row)).
            0 \<le> px_amount x \<and> px_amount x \<le> max_total (financial_scope (au_envelope row)) \<and>
            px_currency x = currency (financial_scope (au_envelope row)))"
proof -
  have inv: "ledger_inv d" by (rule reachable_inv [OF assms(1)])
  have "priced (ledger d)"
    by (rule firewall.transfer [OF _ _ assms(1)]) (simp add: priced_def, rule priced_step [OF assms(2)])
  then have priced: "priced d" by (simp add: priced_def)
  show ?thesis by (rule spend_limits [OF inv priced assms(3)])
qed

lemma demo_honest: "provider_honest demo_env"
  by (simp add: provider_honest_def demo_env_def demo_order_def)

lemma demo_reachable3: obtains es where "reachable demo_env demo_settings (demo_state3 es)"
  using demo_states reachable_run by metis

lemma demo_payments3: "payments_of (demo_state3 es) ''auth-12345'' = [demo_payment]"
  by (simp add: payments_of_def decisions_of_def demo_state3_def demo_decision_simps demo_payment_simps)

lemma spend_limit_witness:
  "\<exists>d. reachable demo_env demo_settings d \<and> map px_amount (payments_of d ''auth-12345'') = [23700] \<and>
     sum_list (map px_amount (payments_of d ''auth-12345'')) \<le> au_used_count demo_used_row * 25000"
proof -
  obtain es where r: "reachable demo_env demo_settings (demo_state3 es)" by (rule demo_reachable3)
  have row: "demo_used_row \<in> set (authorizations (demo_state3 es))" by (simp add: demo_state3_def)
  have "au_authorization_id demo_used_row = ''auth-12345''" "max_total (financial_scope (au_envelope demo_used_row)) = 25000"
    by (simp_all add: demo_used_row_def demo_row_def demo_mandate_def)
  with spend_limit [OF r demo_honest row] r demo_payments3 [of es] show ?thesis
    by (intro exI [of _ "demo_state3 es"]) (simp add: demo_payment_simps)
qed

text \<open>
  C2. Every payment is backed: it belongs to one ALLOW decision, made on a stored request of the
  mandate's own agent, whose cart is within the mandate, and no two payments share a decision
  or an order.
\<close>

theorem payments_backed:
  assumes "reachable E cfg d"
  shows "distinct (map px_decision_id (payment_executions d)) \<and>
     distinct (map px_razorpay_order_id (payment_executions d)) \<and>
     (\<forall>x\<in>set (payment_executions d). \<exists>p\<in>set (policy_decisions d). \<exists>q\<in>set (agent_requests d). \<exists>a\<in>set (authorizations d).
        pd_decision_id p = px_decision_id x \<and> pd_decision p = ALLOW \<and> ar_request_id q = pd_request_id p \<and>
        au_authorization_id a = pd_authorization_id p \<and> ar_authorization_id q = pd_authorization_id p \<and>
        ar_agent_id q = agent_id (agent (au_envelope a)) \<and> cart_allowed (au_envelope a) (ar_cart q))"
proof -
  have inv: "ledger_inv d" by (rule reachable_inv [OF assms])
  have refs: "refs_ok d" by (rule ledger_invD(2) [OF inv])
  have backed: "\<exists>p\<in>set (policy_decisions d). \<exists>q\<in>set (agent_requests d). \<exists>a\<in>set (authorizations d).
        pd_decision_id p = px_decision_id x \<and> pd_decision p = ALLOW \<and> ar_request_id q = pd_request_id p \<and>
        au_authorization_id a = pd_authorization_id p \<and> ar_authorization_id q = pd_authorization_id p \<and>
        ar_agent_id q = agent_id (agent (au_envelope a)) \<and> cart_allowed (au_envelope a) (ar_cart q)"
    if x: "x \<in> set (payment_executions d)" for x
  proof -
    obtain p where p: "p \<in> set (policy_decisions d)" "pd_decision_id p = px_decision_id x" "pd_decision p = ALLOW"
      using refs x unfolding refs_ok_def by blast
    obtain q where q: "q \<in> set (agent_requests d)" "ar_request_id q = pd_request_id p" "ar_authorization_id q = pd_authorization_id p"
      using refs p(1) unfolding refs_ok_def by blast
    obtain a where a: "a \<in> set (authorizations d)" "au_authorization_id a = ar_authorization_id q"
      "ar_agent_id q = agent_id (agent (au_envelope a))"
      using refs q(1) unfolding refs_ok_def by blast
    have "cart_allowed (au_envelope a) (ar_cart q)"
      by (rule allow_within [OF inv p(1,3) q(1,2) a(1)]) (simp add: a(2) q(3))
    with p q a show ?thesis by metis
  qed
  then show ?thesis using ledger_invD(1) [OF inv] by (simp add: keys_unique_def)
qed

lemma payments_backed_witness:
  "\<exists>d. reachable demo_env demo_settings d \<and> payment_executions d = [demo_payment] \<and>
     (\<exists>p\<in>set (policy_decisions d). pd_decision_id p = px_decision_id demo_payment \<and> pd_decision p = ALLOW)"
proof -
  obtain es where r: "reachable demo_env demo_settings (demo_state3 es)" by (rule demo_reachable3)
  have "payment_executions (demo_state3 es) = [demo_payment]" by (simp add: demo_state3_def)
  with payments_backed [OF r] r show ?thesis by (metis list.set_intros(1))
qed

text \<open>
  C10. Use is counted exactly: in every reachable database the used count of a mandate is the
  number of ALLOW decisions stored for it, and each request has at most one of them.
\<close>

theorem use_count_exact:
  assumes "reachable E cfg d"
  shows "(\<forall>a\<in>set (authorizations d). au_used_count a =
       int (length (filter (\<lambda>p. pd_authorization_id p = au_authorization_id a \<and> pd_decision p = ALLOW) (policy_decisions d))))
     \<and> distinct (map pd_request_id (filter (\<lambda>p. pd_decision p = ALLOW) (policy_decisions d)))"
  using ledger_invD(3,4) [OF reachable_inv [OF assms]]
  by (auto simp: uses_ok_def allows_ok_def allowed_decisions_def)

lemma use_count_exact_witness:
  "\<exists>d. reachable demo_env demo_settings d \<and> map au_used_count (authorizations d) = [1] \<and>
     length (filter (\<lambda>p. pd_decision p = ALLOW) (policy_decisions d)) = 1"
proof -
  obtain es where r: "reachable demo_env demo_settings (demo_state3 es)" by (rule demo_reachable3)
  with use_count_exact [OF r] show ?thesis
    by (intro exI [of _ "demo_state3 es"]) (simp add: demo_state3_def demo_used_row_def demo_decision_simps)
qed

section \<open>Finality\<close>

text \<open>
  C4. Revocation is final: from the moment a reachable database holds the revocation of a
  mandate, no run of further calls changes or removes it, allows another request on the mandate,
  or creates another payment under it.
\<close>

theorem revocation_final:
  assumes "reachable E cfg d" and "get_revocation a d = Some rv"
  shows "let d' = run_calls E cfg calls d in
     get_revocation a d' = Some rv \<and> allowed_decisions d' a = allowed_decisions d a \<and>
     map px_decision_id (payments_of d' a) = map px_decision_id (payments_of d a)"
proof -
  let ?P = "\<lambda>s. ledger_inv s \<and> get_revocation a s = Some rv \<and> frozen a d s"
  have "?P (ledger (run_calls E cfg calls d))"
  proof (rule firewall.transfer_run [OF _ _ run_calls_steps])
    fix s s'
    assume P: "?P s" and step: "ledger_step E cfg s s'"
    with frozen_step [OF step] ledger_inv_step [OF _ step] revocation_kept_step [OF step] show "?P s'"
      by (auto simp: frozen_def)
  qed (use reachable_inv [OF assms(1)] assms(2) in \<open>simp add: frozen_def allowed_decisions_def payments_of_def decisions_of_def\<close>)
  then show ?thesis
    by (simp add: frozen_def Let_def allowed_decisions_def payments_of_def decisions_of_def)
qed

lemma demo_revoked:
  obtains rv where "get_revocation ''auth-12345''
    (run_calls demo_env demo_settings [Confirm demo_confirm, Revoke ''auth-12345'' ''lost''] empty_db) = Some rv"
proof -
  obtain d e r where d: "confirm_authorization demo_env demo_settings demo_confirm empty_db = (r, d)"
    "d = empty_db\<lparr>authorizations := [demo_row], evidence_events := [e], readings := 5\<rparr>"
    "ev_evidence_id e = uuid_str (uuid_hex demo_env 4)"
    using demo_confirmed by metis
  let ?rv = "\<lparr>rv_authorization_id = ''auth-12345'', rv_reason = ''lost'', rv_revoked_at = clock demo_env 5\<rparr>"
  let ?d = "d\<lparr>mandate_revocations := [?rv], readings := 6\<rparr>"
  have "uuid_str (demo_uuid 6) \<noteq> uuid_str (demo_uuid 4)" by code_simp
  then have new: "uuid_str (uuid_hex demo_env (readings ?d)) \<notin> ev_evidence_id ` set (evidence_events ?d)"
    by (simp add: d(2,3) demo_uuid_hex)
  have "\<exists>d'. append_event demo_env ?d tx ty ac pl = Inr d'" for tx ty ac pl
    using append_event_fresh [OF new] by metis
  then have "\<exists>d'. insert_revocation demo_env ?rv d = Inr d'"
    by (simp add: insert_revocation_def row_insert_def d(2))
  then obtain d' where d': "insert_revocation demo_env ?rv d = Inr d'" ..
  have "validate_reason ''lost'' = Inr ''lost''" by code_simp
  then have "revoke_authorization demo_env ''auth-12345'' ''lost'' d = (Inr (revoke_answer ?rv), d')"
    using d' by (simp add: revoke_authorization_def lock_authorization_def d(2) demo_get row_get_def [of _ _ "[]"] transact_def Let_def)
  then have "run_calls demo_env demo_settings [Confirm demo_confirm, Revoke ''auth-12345'' ''lost''] empty_db = d'"
    by (simp add: run_calls_def d(1))
  moreover have "mandate_revocations d' = [?rv]"
    using arg_cong [OF conjunct1 [OF insert_revocation_effect [OF d']], of mandate_revocations] d(2) by simp
  ultimately show ?thesis using that by (simp add: row_get_def)
qed

lemma revocation_final_witness:
  "\<exists>d rv. reachable demo_env demo_settings d \<and>
     get_revocation ''auth-12345'' (run_calls demo_env demo_settings [Agent_Request demo_request] d) = Some rv"
proof -
  obtain d rv where d: "reachable demo_env demo_settings d" "get_revocation ''auth-12345'' d = Some rv"
    using demo_revoked reachable_run by metis
  with revocation_final [OF d, of "[Agent_Request demo_request]"] show ?thesis by (auto simp: Let_def)
qed

text \<open>
  Mandates are immutable: no run of calls removes a mandate or changes anything of its row
  (envelope, hash, signature, window, limits) except the used count.
\<close>

theorem mandates_immutable:
  "prefix (map terms_of (authorizations d)) (map terms_of (authorizations (run_calls E cfg calls d)))"
proof -
  have "prefix (map terms_of (authorizations d)) (map terms_of (authorizations (ledger (run_calls E cfg calls d))))"
    by (rule firewall.transfer_run [OF _ _ run_calls_steps, where P = "\<lambda>s. prefix (map terms_of (authorizations d)) (map terms_of (authorizations s))"])
      (auto intro: terms_kept_step prefix_order.trans)
  then show ?thesis by simp
qed

text \<open>
  C11. The life of a payment: along any run of calls a stored payment keeps its identity, decision,
  order, amount and currency, and its status only moves on, from created to stale to settled;
  it is settled exactly when a verified webhook for it is stored.
\<close>

theorem payment_life:
  assumes "reachable E cfg d" and "x \<in> set (payment_executions d)"
  shows "\<exists>y\<in>set (payment_executions (run_calls E cfg calls d)).
     y\<lparr>px_status := px_status x\<rparr> = x \<and> px_status x \<le> px_status y \<and>
     (px_status y \<in> {CAPTURED, AMOUNT_MISMATCH} \<longleftrightarrow> has_webhook (run_calls E cfg calls d) (px_execution_id y))"
proof -
  let ?d = "run_calls E cfg calls d"
  let ?P = "\<lambda>s. ledger_inv s \<and> (\<exists>y\<in>set (payment_executions s). continues x y)"
  have "?P (ledger ?d)"
  proof (rule firewall.transfer_run [OF _ _ run_calls_steps])
    fix s s'
    assume P: "?P s" and step: "ledger_step E cfg s s'"
    then show "?P s'" using payment_kept_step [OF step] ledger_inv_step [OF _ step] by blast
  qed (use reachable_inv [OF assms(1)] assms(2) in \<open>auto simp: continues_def intro!: bexI [of _ x]\<close>)
  then obtain y where y: "y \<in> set (payment_executions ?d)" "continues x y" and inv: "ledger_inv ?d"
    by auto
  have "px_status y \<in> {CAPTURED, AMOUNT_MISMATCH} \<longleftrightarrow> has_webhook ?d (px_execution_id y)"
    using ledger_invD(5) [OF inv] y(1) by (cases "px_status y") (auto simp: statuses_ok_def)
  with y show ?thesis unfolding continues_def by blast
qed

lemma payment_life_witness:
  "\<exists>d y. reachable demo_env demo_settings d \<and> payment_executions d = [demo_payment] \<and>
     y \<in> set (payment_executions (run_calls demo_env demo_settings [Webhook ''captured'' (Some demo_digest)] d)) \<and>
     px_amount y = 23700"
proof -
  obtain es where r: "reachable demo_env demo_settings (demo_state3 es)" by (rule demo_reachable3)
  have x: "payment_executions (demo_state3 es) = [demo_payment]" by (simp add: demo_state3_def)
  then have "demo_payment \<in> set (payment_executions (demo_state3 es))" by simp
  from payment_life [OF r this, of "[Webhook ''captured'' (Some demo_digest)]"] obtain y where
    y: "y \<in> set (payment_executions (run_calls demo_env demo_settings [Webhook ''captured'' (Some demo_digest)] (demo_state3 es)))"
    "y\<lparr>px_status := px_status demo_payment\<rparr> = demo_payment" by blast
  then have "px_amount y = px_amount demo_payment" by (metis payment_execution.select_convs(4) payment_execution.surjective payment_execution.update_convs(6))
  with r x y(1) show ?thesis by (metis demo_payment_simps(3))
qed

section \<open>Keys\<close>



section \<open>Evidence\<close>

text \<open>
  C13. With a strictly increasing clock, every evidence chain of every reachable database
  verifies.
\<close>

theorem reachable_chains_verify:
  assumes "strict_mono (clock E)" and "reachable E cfg d"
  shows "verify_chain E (get_chain d tx)"
  using reachable_chains [OF assms] by (simp add: chains_ok_def)

lemma reachable_chains_verify_witness:
  "\<exists>d. reachable demo_env demo_settings d \<and> length (evidence_events d) = 4 \<and>
     verify_chain demo_env (get_chain d ''auth-12345'')"
proof -
  have mono: "strict_mono (clock demo_env)" using demo_log_ready by (simp add: log_ready_def)
  obtain es e4 where es: "length es = 4" "run_calls demo_env demo_settings (take 3 demo_calls) empty_db = demo_state3 es"
    by (rule demo_states)
  have r: "reachable demo_env demo_settings (demo_state3 es)"
    using reachable_run [of demo_env demo_settings "take 3 demo_calls"] es(2) by simp
  have "length (evidence_events (demo_state3 es)) = 4" using es(1) by (simp add: demo_state3_def)
  with reachable_chains_verify [OF mono r] r show ?thesis by blast
qed



section \<open>Refinement\<close>

text \<open>
  C5. Every handler implements the abstract machine: what a call does to mandates, requests,
  decisions and payments is nothing, or one step of the ledger, whose guards are the promises
  of the firewall.
\<close>

theorem handlers_refine_ledger:
  "ledger (handle E cfg c d) = ledger d \<or> ledger_step E cfg (ledger d) (ledger (handle E cfg c d))"
  using handle_implements [of E cfg d c] by (simp add: implements_step_def)

end
