(* ===== verification/Payment_Properties.thy ===== *)
theory Payment_Properties
  imports Demo_Run
begin

text \<open>
  What order creation, the webhook and the sweep guarantee one call at a time: no state change
  without a verified delivery, captures only for the right amount, idempotence of orders and
  deliveries, and the exact effect of a sweep. Two theorems show where the code does less than
  its comments: the event type of a delivery is not read, and a replayed request takes the
  payment away from the request it replays.
\<close>

section \<open>The webhook\<close>

text \<open>
  C24. Nothing moves without the provider: a webhook call that changes the database carried a
  signature equal to the HMAC of the raw body under the configured secret (the mock's secret
  without credentials), and without a configured secret the live client accepts none.
\<close>

theorem webhook_needs_signature:
  assumes "snd (razorpay_webhook E cfg raw given_signature d) \<noteq> d"
  shows "\<exists>sig secret. given_signature = Some sig \<and> sig = hmac_sha256_hex E (utf8 secret) raw \<and>
     (if razorpay_configured cfg then razorpay_webhook_secret cfg = Some secret \<and> secret \<noteq> []
      else secret = mock_secret)"
proof -
  obtain r d' where run: "razorpay_webhook E cfg raw given_signature d = (r, d')" by force
  from run show ?thesis
  proof (cases rule: razorpay_webhook_cases)
    case (recorded sig event pid oid amount oid_text x p)
    show ?thesis
    proof (cases "razorpay_configured cfg")
      case True
      with recorded(2) obtain secret where "razorpay_webhook_secret cfg = Some secret" "secret \<noteq> []"
        "webhook_digest E secret raw = sig"
        by (auto simp: get_payment_executor_def truthy_iff compare_digest_def split: if_splits)
      with True recorded(1) show ?thesis by (auto simp: webhook_digest_def)
    next
      case False
      with recorded(1,2) show ?thesis
        by (auto simp: get_payment_executor_def compare_digest_def webhook_digest_def split: if_splits)
    qed
  qed (use assms run in auto)
qed

text \<open>
  C23. What an accepted delivery does: the payment of the order it names becomes CAPTURED when the
  delivery names no amount or exactly the order's, and AMOUNT_MISMATCH otherwise; all other
  payments and all mandates, requests and decisions stay as they are, and the provider's
  payment id is on record.
\<close>

theorem webhook_effect:
  assumes "razorpay_webhook E cfg raw given_signature d = (Inr ''ok'', d')"
  shows "\<exists>event pid oid amount oid_text pid_text x.
     read_delivery E raw = Inr (event, pid, oid, amount) \<and> sql_text oid = Inr oid_text \<and>
     sql_text pid = Inr pid_text \<and> execution_for_order d oid_text = Some x \<and>
     payment_executions d' = map (\<lambda>y. if px_execution_id y = px_execution_id x
       then y\<lparr>px_status := (if amount = JNull \<or> equals_int amount (px_amount x) then CAPTURED else AMOUNT_MISMATCH)\<rparr>
       else y) (payment_executions d) \<and>
     \<not> seen_payment d pid_text \<and> seen_payment d' pid_text \<and>
     authorizations d' = authorizations d \<and> agent_requests d' = agent_requests d \<and>
     policy_decisions d' = policy_decisions d \<and> mandate_revocations d' = mandate_revocations d"
  using assms
proof (cases rule: razorpay_webhook_cases)
  case (recorded sig event pid oid amount oid_text x p)
  show ?thesis
  proof (rule record_delivery_effect [OF recorded(7)])
    fix pid_text ty_text
    assume d': "d' = (set_status (px_execution_id x) (new_status x amount) d)
       \<lparr>seen_webhook_events := seen_webhook_events d @ [seen_row E d pid_text ty_text],
        payment_events := payment_events d @ [event_row E d x event pid ty_text],
        evidence_events := evidence_events d', readings := readings d'\<rparr>"
      and pid: "sql_text pid = Inr pid_text" "pid_text \<notin> sw_razorpay_payment_id ` set (seen_webhook_events d)"
    have st: "new_status x amount = (if amount = JNull \<or> equals_int amount (px_amount x) then CAPTURED else AMOUNT_MISMATCH)"
      by (auto simp: new_status_def amount_mismatch_def)
    have px: "payment_executions d' = payment_executions (set_status (px_execution_id x) (new_status x amount) d)"
      by (subst d') simp
    have unseen: "\<not> seen_payment d pid_text"
      using pid(2) by (simp add: seen_payment_def webhook_tab.get_none)
    have seen: "seen_payment d' pid_text"
      by (subst d') (simp add: seen_payment_def row_get_append split: option.split)
    have rest: "authorizations d' = authorizations d" "agent_requests d' = agent_requests d"
      "policy_decisions d' = policy_decisions d" "mandate_revocations d' = mandate_revocations d"
      by (subst d', simp)+
    show ?thesis
      using recorded(3,4,5) pid(1) px unseen seen rest unfolding set_status_rows st by blast
  qed
qed auto

text \<open>The captured delivery of the demo.\<close>

lemma demo_captured:
  obtains es e4 where "razorpay_webhook demo_env demo_settings ''captured'' (Some demo_digest) (demo_state3 es) =
      (Inr ''ok'', demo_state4 (es @ [e4]))"
proof -
  let ?es = "map (\<lambda>n. undefined\<lparr>ev_evidence_id := uuid_str (uuid_hex demo_env n)\<rparr>) [4, 10, 11, 15]"
  have ids: "map ev_evidence_id ?es = map (\<lambda>n. uuid_str (uuid_hex demo_env n)) [4, 10, 11, 15]" by simp
  show thesis by (rule demo_step4 [OF ids]) (rule that)
qed

lemma webhook_effect_witness:
  "\<exists>es es'. map px_status (payment_executions (demo_state3 es)) = [CREATED] \<and>
     razorpay_webhook demo_env demo_settings ''captured'' (Some demo_digest) (demo_state3 es) = (Inr ''ok'', demo_state4 es') \<and>
     (\<exists>pid_text. seen_payment (demo_state4 es') pid_text)"
proof -
  obtain es e4 where "razorpay_webhook demo_env demo_settings ''captured'' (Some demo_digest) (demo_state3 es) =
      (Inr ''ok'', demo_state4 (es @ [e4]))"
    by (rule demo_captured)
  moreover from webhook_effect [OF this] have "\<exists>pid_text. seen_payment (demo_state4 (es @ [e4])) pid_text" by blast
  moreover have "map px_status (payment_executions (demo_state3 es)) = [CREATED]"
    by (simp add: demo_state3_def demo_payment_simps)
  ultimately show ?thesis by (intro exI [of _ es] exI [of _ "es @ [e4]"] conjI)
qed

lemma webhook_needs_signature_witness:
  "\<exists>es. snd (razorpay_webhook demo_env demo_settings ''captured'' (Some demo_digest) (demo_state3 es)) \<noteq> demo_state3 es \<and>
     (\<exists>secret. demo_digest = hmac_sha256_hex demo_env (utf8 secret) ''captured'')"
proof -
  obtain es e4 where run: "razorpay_webhook demo_env demo_settings ''captured'' (Some demo_digest) (demo_state3 es) =
      (Inr ''ok'', demo_state4 (es @ [e4]))"
    by (rule demo_captured)
  have "payment_events (demo_state4 (es @ [e4])) \<noteq> payment_events (demo_state3 es)"
    by (simp add: demo_state3_def demo_state4_def)
  then have "snd (razorpay_webhook demo_env demo_settings ''captured'' (Some demo_digest) (demo_state3 es)) \<noteq> demo_state3 es"
    using run by auto
  with webhook_needs_signature [OF this] show ?thesis by blast
qed

lemma find_status:
  "execution_for_order (set_status i st d) oid =
     map_option (\<lambda>x. if px_execution_id x = i then x\<lparr>px_status := st\<rparr> else x) (execution_for_order d oid)"
proof -
  have "find P (map f xs) = map_option f (find P xs)" if "\<And>x. P (f x) = P x"
    for P :: "payment_execution \<Rightarrow> bool" and f xs using that by (induction xs) auto
  then show ?thesis unfolding execution_for_order_def set_status_rows by simp
qed

text \<open>
  C25. Deliveries are idempotent: the provider may repeat an accepted delivery any time later, as
  long as the payment id stays on record; right after it, the repetition is answered
  \<^verbatim>\<open>duplicate_ignored\<close> and changes nothing.
\<close>

theorem webhook_idempotent:
  assumes "razorpay_webhook E cfg raw given_signature d = (Inr ''ok'', d')"
  shows "razorpay_webhook E cfg raw given_signature d' = (Inr ''duplicate_ignored'', d')"
  using assms
proof (cases rule: razorpay_webhook_cases)
  case (recorded sig event pid oid amount oid_text x p)
  show ?thesis
  proof (rule record_delivery_effect [OF recorded(7)])
    fix pid_text ty_text
    assume d': "d' = (set_status (px_execution_id x) (new_status x amount) d)
       \<lparr>seen_webhook_events := seen_webhook_events d @ [seen_row E d pid_text ty_text],
        payment_events := payment_events d @ [event_row E d x event pid ty_text],
        evidence_events := evidence_events d', readings := readings d'\<rparr>"
      and pid: "sql_text pid = Inr pid_text"
    have "execution_for_order d' oid_text = execution_for_order (set_status (px_execution_id x) (new_status x amount) d) oid_text"
      by (subst d') (simp add: execution_for_order_def)
    then have ex: "execution_for_order d' oid_text = Some (x\<lparr>px_status := new_status x amount\<rparr>)"
      by (simp add: find_status recorded(5))
    have same: "policy_decisions d' = policy_decisions d" "authorizations d' = authorizations d"
      by (subst d', simp)+
    have seen: "seen_payment d' pid_text"
      by (subst d') (simp add: seen_payment_def row_get_append split: option.split)
    have h: "handle_delivery E (event, pid, oid, amount) d = (Inr ''ok'', d')"
      using assms recorded(1-3) by (simp add: razorpay_webhook_def Let_def split: if_splits)
    then have t: "json_truthy pid" "json_truthy oid" "\<not> isl (lock_authorization d (pd_authorization_id p))"
      using recorded(4,5,6) by (auto simp: handle_delivery_def split: if_splits sum.splits)
    then obtain row where "lock_authorization d (pd_authorization_id p) = Inr row" by (auto simp: isl_def) (metis sum.exhaust)
    then have "lock_authorization d' (pd_authorization_id p) = Inr row"
      using same by (simp add: lock_authorization_def)
    then have "handle_delivery E (event, pid, oid, amount) d' = (Inr ''duplicate_ignored'', d')"
      using t ex recorded(4,6) same pid seen by (simp add: handle_delivery_def)
    moreover have "truthy given_signature" using assms by (auto simp: razorpay_webhook_def Let_def split: if_splits)
    ultimately show ?thesis using recorded(1-3) by (simp add: razorpay_webhook_def Let_def)
  qed
qed auto

lemma webhook_idempotent_witness:
  "\<exists>d'. razorpay_webhook demo_env demo_settings ''captured'' (Some demo_digest) d' = (Inr ''duplicate_ignored'', d')"
proof -
  obtain es e4 where "razorpay_webhook demo_env demo_settings ''captured'' (Some demo_digest) (demo_state3 es) =
      (Inr ''ok'', demo_state4 (es @ [e4]))"
    by (rule demo_captured)
  from webhook_idempotent [OF this] show ?thesis by blast
qed

text \<open>
  The type of a delivery decides nothing: an accepted delivery whose \<^verbatim>\<open>event\<close> field is replaced
  by any other text is accepted as well, with the same effect on the payments and the same
  evidence. A signed \<^verbatim>\<open>payment.failed\<close> with the order's amount marks the order CAPTURED.
\<close>

theorem event_type_decides_nothing:
  assumes "handle_delivery E (event, pid, oid, amount) d = (Inr ''ok'', d1)"
    and "attr_get event' ''event'' (JStr ''unknown'') = Inr (JStr ty)"
  shows "\<exists>d2. handle_delivery E (event', pid, oid, amount) d = (Inr ''ok'', d2) \<and>
     payment_executions d2 = payment_executions d1 \<and> evidence_events d2 = evidence_events d1"
proof -
  from assms(1) obtain oid_text x p row pid_text where
    found: "json_truthy pid" "json_truthy oid" "sql_text oid = Inr oid_text" "execution_for_order d oid_text = Some x"
      "get_decision (px_decision_id x) d = Some p" "lock_authorization d (pd_authorization_id p) = Inr row"
      "sql_text pid = Inr pid_text" "\<not> seen_payment d pid_text"
    and rec: "record_delivery E (pd_authorization_id p) x event pid oid amount d = Inr (''ok'', d1)"
    by (auto simp: handle_delivery_def transact_def split: if_splits sum.splits option.splits)
  let ?d = "(set_status (px_execution_id x) (new_status x amount) d)
     \<lparr>seen_webhook_events := seen_webhook_events d @ [seen_row E d pid_text ty],
      payment_events := payment_events d @ [event_row E d x event' pid ty]\<rparr>\<lparr>readings := readings d + 2\<rparr>"
  show ?thesis
  proof (rule record_delivery_effect [OF rec])
    fix pid_text' ty_text
    let ?d1 = "(set_status (px_execution_id x) (new_status x amount) d)
       \<lparr>seen_webhook_events := seen_webhook_events d @ [seen_row E d pid_text' ty_text],
        payment_events := payment_events d @ [event_row E d x event pid ty_text]\<rparr>\<lparr>readings := readings d + 2\<rparr>"
    let ?kind = "if new_status x amount = AMOUNT_MISMATCH then ''PAYMENT_AMOUNT_MISMATCH'' else ''PAYMENT_CAPTURED''"
      and ?data = "JObj [(''payment_id'', pid), (''order_id'', oid), (''amount'', amount)]"
    assume pid: "sql_text pid = Inr pid_text'" "pid_text' \<notin> sw_razorpay_payment_id ` set (seen_webhook_events d)"
        "''evt-'' @ py_str pid \<notin> pe_event_id ` set (payment_events d)"
      and a: "append_event E ?d1 (pd_authorization_id p) ?kind ''razorpay-webhook'' ?data = Inr d1"
      and d1: "d1 = (set_status (px_execution_id x) (new_status x amount) d)
       \<lparr>seen_webhook_events := seen_webhook_events d @ [seen_row E d pid_text' ty_text],
        payment_events := payment_events d @ [event_row E d x event pid ty_text],
        evidence_events := evidence_events d1, readings := readings d1\<rparr>"
    let ?d2 = "?d\<lparr>evidence_events := evidence_events d1, readings := readings d1\<rparr>"
    have "append_event E ?d (pd_authorization_id p) ?kind ''razorpay-webhook'' ?data = Inr ?d2"
      by (rule append_event_same_log [OF a]) simp_all
    then have "record_delivery E (pd_authorization_id p) x event' pid oid amount d = Inr (''ok'', ?d2)"
      using assms(2) found(7) pid
      by (simp add: record_delivery_def insert_seen_def insert_payment_event_def row_insert_def set_status_update)
    then have "handle_delivery E (event', pid, oid, amount) d = (Inr ''ok'', ?d2)"
      using found by (simp add: handle_delivery_def transact_def)
    moreover have "payment_executions ?d2 = payment_executions d1" by (subst d1) simp
    ultimately show ?thesis by (intro exI [of _ ?d2]) simp
  qed
qed

lemma event_type_decides_nothing_witness:
  "\<exists>es d2. handle_delivery demo_env (JObj [(''event'', JStr ''payment.failed'')], JStr ''pay_1'', JStr demo_order_id, JInt 23700)
       (demo_state3 es) = (Inr ''ok'', d2) \<and> map px_status (payment_executions d2) = [CAPTURED]"
proof -
  obtain es e4 where run: "razorpay_webhook demo_env demo_settings ''captured'' (Some demo_digest) (demo_state3 es) =
      (Inr ''ok'', demo_state4 (es @ [e4]))"
    by (rule demo_captured)
  then have "handle_delivery demo_env (demo_delivery, JStr ''pay_1'', JStr demo_order_id, JInt 23700) (demo_state3 es) =
      (Inr ''ok'', demo_state4 (es @ [e4]))"
    by (simp add: razorpay_webhook_def demo_truthy demo_executor demo_webhook_ok demo_delivery_read del: verify_webhook.simps)
  moreover have "attr_get (JObj [(''event'', JStr ''payment.failed'')]) ''event'' (JStr ''unknown'') = Inr (JStr ''payment.failed'')"
    by (simp add: attr_get_def get_or_def)
  ultimately obtain d2 where
    "handle_delivery demo_env (JObj [(''event'', JStr ''payment.failed'')], JStr ''pay_1'', JStr demo_order_id, JInt 23700)
       (demo_state3 es) = (Inr ''ok'', d2)" and px: "payment_executions d2 = payment_executions (demo_state4 (es @ [e4]))"
    using event_type_decides_nothing by blast
  moreover have "map px_status (payment_executions d2) = [CAPTURED]"
    unfolding px by (simp add: demo_state4_def)
  ultimately show ?thesis by (intro exI conjI)
qed

text \<open>
  The mock provider can be driven end to end: the delivery it builds for an order carries a
  signature that it accepts itself, and reads back as a capture of that order for the order's
  amount. The live client refuses to build one.
\<close>

theorem test_webhook_round_trip:
  assumes "ascii (webhook_digest E mock_secret raw) \<noteq> None"
    and "json_loads E (utf8 (ensure_ascii (render (test_webhook_body E n order event)))) =
       Some (test_webhook_body E n order event)"
    and "build_test_webhook E executor n order event = Inr (raw, sig)"
  shows "executor = MockRazorpayClient \<and> verify_webhook E executor raw sig = Inr True \<and>
     read_delivery E raw = Inr (test_webhook_body E n order event, JStr (''pay_MOCK'' @ take 14 (uuid_hex E n)),
       JStr (or_order_id order), JInt (or_amount order))"
proof -
  have exe: "executor = MockRazorpayClient" and raw: "raw = utf8 (ensure_ascii (render (test_webhook_body E n order event)))"
    and sig: "sig = webhook_digest E mock_secret raw"
    using assms(3) by (cases executor; simp add: Let_def)+
  have "json_loads E raw = Some (test_webhook_body E n order event)"
    unfolding raw by (rule assms(2))
  then have "read_delivery E raw = Inr (test_webhook_body E n order event, JStr (''pay_MOCK'' @ take 14 (uuid_hex E n)),
       JStr (or_order_id order), JInt (or_amount order))"
    by (simp add: read_delivery_def payment_entity_def test_webhook_body_def attr_get_def get_or_def)
  then show ?thesis
    using assms(1) by (simp add: exe compare_digest_def flip: sig)
qed

text \<open>The demo environment with a parser that knows the delivery built.\<close>

lemma test_webhook_round_trip_witness:
  "\<exists>E order raw sig. build_test_webhook E MockRazorpayClient 0 order ''payment.captured'' = Inr (raw, sig) \<and>
     verify_webhook E MockRazorpayClient raw sig = Inr True"
proof -
  let ?order = "\<lparr>or_order_id = demo_order_id, or_amount = 23700, or_currency = ''INR'', or_status = ''created'',
    or_receipt = ''auth-12345''\<rparr>"
  let ?E = "demo_env\<lparr>json_loads := (\<lambda>b. Some (test_webhook_body demo_env 0 ?order ''payment.captured''))\<rparr>"
  obtain raw sig where built: "build_test_webhook ?E MockRazorpayClient 0 ?order ''payment.captured'' = Inr (raw, sig)"
    by (simp add: Let_def)
  have "webhook_digest ?E mock_secret raw = demo_digest" by (simp add: webhook_digest_def demo_env_def)
  then have asc: "ascii (webhook_digest ?E mock_secret raw) \<noteq> None" by (simp add: demo_ascii)
  have "json_loads ?E (utf8 (ensure_ascii (render (test_webhook_body ?E 0 ?order ''payment.captured'')))) =
      Some (test_webhook_body ?E 0 ?order ''payment.captured'')"
    by (simp add: test_webhook_body_def)
  from test_webhook_round_trip [OF asc this built] built show ?thesis by blast
qed

section \<open>Order creation\<close>

text \<open>
  One order per decision: once an order was created (or found), the same call is answered with
  the same order and changes nothing, whatever happens to the clock, the settings or the provider.
\<close>

theorem execute_idempotent:
  assumes "execute_payment E cfg auth_id request_id d = (Inr v, d')"
  shows "execute_payment E' cfg' auth_id request_id d' = (Inr v, d')"
proof -
  obtain row where lock: "lock_authorization d auth_id = Inr row"
    using assms by (auto simp: execute_payment_def split: sum.splits)
  from assms show ?thesis
  proof (cases rule: execute_payment_cases)
    case (repeated p x)
    with lock show ?thesis by (simp add: execute_payment_def)
  next
    case (created p q order)
    have d': "d' = d\<lparr>payment_executions := payment_executions d @ [execution_row E d (pd_decision_id p) order],
           evidence_events := evidence_events d', readings := readings d'\<rparr>"
      by (rule store_order_effect [OF created(7)])
    have same: "policy_decisions d' = policy_decisions d" "authorizations d' = authorizations d"
      "mandate_revocations d' = mandate_revocations d"
      by (subst d', simp)+
    have "execution_for d' (pd_decision_id p) = Some (execution_row E d (pd_decision_id p) order)"
      using created(4) by (subst d') (simp add: execution_for_def find_append)
    with same lock created show ?thesis
      by (simp add: execute_payment_def lock_authorization_def decisions_for_def)
  qed simp
qed

lemma execute_idempotent_witness:
  "\<exists>d v. execute_payment demo_env demo_settings ''auth-12345'' (ar_request_id demo_stored_request) d = (Inr v, d) \<and>
     ex_order_id v = demo_order_id \<and> payment_executions d = [demo_payment]"
proof -
  let ?e = "\<lambda>n. undefined\<lparr>ev_evidence_id := uuid_str (uuid_hex demo_env n)\<rparr>"
  have "map ev_evidence_id [?e 4, ?e 10, ?e 11] = map (\<lambda>n. uuid_str (uuid_hex demo_env n)) [4, 10, 11]" by simp
  from demo_step3 [OF this] obtain e3 where
    "execute_payment demo_env demo_settings ''auth-12345'' (ar_request_id demo_stored_request) (demo_state2 (?e 4) (?e 10) (?e 11)) =
      (Inr \<lparr>ex_order_id = demo_order_id, ex_amount = 23700, ex_currency = ''INR''\<rparr>, demo_state3 [?e 4, ?e 10, ?e 11, e3])"
    by blast
  from execute_idempotent [OF this] show ?thesis
    by (intro exI conjI) (assumption, simp_all add: demo_state3_def)
qed



section \<open>The sweep\<close>

text \<open>An order the sweep may flag: CREATED, old enough, and without a delivery.\<close>

definition overdue :: "int \<Rightarrow> db \<Rightarrow> payment_execution \<Rightarrow> bool" where
  "overdue cutoff d x \<longleftrightarrow> px_status x = CREATED \<and> px_created_at x \<le> cutoff \<and> \<not> has_webhook d (px_execution_id x)"

abbreviation flag_stale :: "string set \<Rightarrow> payment_execution \<Rightarrow> payment_execution" where
  "flag_stale ids x \<equiv> (if px_execution_id x \<in> ids then x\<lparr>px_status := STALE\<rparr> else x)"

lemma flag_candidate_overdue:
  assumes "flag_candidate E observed_at timeout_seconds (i, a) d = (Inr b, d')"
    and "get_execution i d = Some x" and "overdue (observed_at - timeout_seconds * 1000000) d x"
  shows "b \<and> payment_executions d' = map (flag_stale {i}) (payment_executions d) \<and>
    d' = d\<lparr>payment_executions := payment_executions d', evidence_events := evidence_events d', readings := readings d'\<rparr>"
  using assms(1)
proof (cases rule: flag_candidate_cases)
  case kept
  have "px_execution_id x = i" using assms(2) by (rule execution_tab.get_key)
  with assms have "b"
    by (auto simp: flag_candidate_def overdue_def transact_def Let_def sequence_simps split: sum.splits prod.splits)
  with kept show ?thesis by simp
next
  case (flagged y)
  have "payment_executions d' = map (flag_stale {i}) (payment_executions d)"
    by (subst flagged(5)) (simp add: set_status_def row_update_def)
  moreover have "d' = d\<lparr>payment_executions := payment_executions d', evidence_events := evidence_events d', readings := readings d'\<rparr>"
    by (subst (1 2) flagged(5)) (simp add: set_status_def)
  ultimately show ?thesis using flagged(7) by simp
qed

lemma flag_candidates_effect:
  assumes "flag_candidates E observed_at timeout_seconds cs k d = (Inr n, d')"
    and "\<forall>c\<in>set cs. \<exists>x. get_execution (fst c) d = Some x \<and> overdue (observed_at - timeout_seconds * 1000000) d x"
    and "distinct (map fst cs)" and "distinct (map px_execution_id (payment_executions d))"
  shows "n = k + int (length cs) \<and>
    payment_executions d' = map (flag_stale (fst ` set cs)) (payment_executions d) \<and>
    d' = d\<lparr>payment_executions := payment_executions d', evidence_events := evidence_events d', readings := readings d'\<rparr>"
  using assms
proof (induction cs arbitrary: k d)
  case (Cons c cs)
  obtain i a where c: "c = (i, a)" by force
  let ?t = "observed_at - timeout_seconds * 1000000"
  from Cons.prems(1) obtain b d1 where one: "flag_candidate E observed_at timeout_seconds (i, a) d = (Inr b, d1)"
    and rest: "flag_candidates E observed_at timeout_seconds cs (if b then k + 1 else k) d1 = (Inr n, d')"
    by (auto simp: c split: prod.splits sum.splits)
  from Cons.prems(2) obtain x where x: "get_execution i d = Some x" "overdue ?t d x" by (auto simp: c)
  from flag_candidate_overdue [OF one x] have b: "b"
    and px: "payment_executions d1 = map (flag_stale {i}) (payment_executions d)"
    and d1: "d1 = d\<lparr>payment_executions := payment_executions d1, evidence_events := evidence_events d1, readings := readings d1\<rparr>"
    by blast+
  have ids: "map px_execution_id (payment_executions d1) = map px_execution_id (payment_executions d)"
    unfolding px by simp
  have hook: "has_webhook d1 = has_webhook d"
    by (rule ext, subst d1) (simp add: has_webhook_def)
  have upd: "payment_executions d1 = row_update px_execution_id i (\<lambda>x. x\<lparr>px_status := STALE\<rparr>) (payment_executions d)"
    unfolding px by (simp add: row_update_def)
  have "\<exists>x. get_execution (fst q) d1 = Some x \<and> overdue ?t d1 x" if q: "q \<in> set cs" for q
  proof -
    from Cons.prems(3) q have "fst q \<noteq> i" by (auto simp: c)
    then have "get_execution (fst q) d1 = get_execution (fst q) d"
      unfolding upd using Cons.prems(4) by (subst execution_tab.get_upd) simp_all
    with Cons.prems(2) q show ?thesis by (auto simp: overdue_def hook)
  qed
  then have ih: "n = k + 1 + int (length cs)"
    "payment_executions d' = map (flag_stale (fst ` set cs)) (payment_executions d1)"
    "d' = d1\<lparr>payment_executions := payment_executions d', evidence_events := evidence_events d', readings := readings d'\<rparr>"
    using Cons.IH [OF rest] Cons.prems(3,4) b ids by auto
  have "payment_executions d' = map (flag_stale (fst ` set (c # cs))) (payment_executions d)"
    unfolding ih(2) px by (simp add: c)
  moreover have "d' = d\<lparr>payment_executions := payment_executions d', evidence_events := evidence_events d', readings := readings d'\<rparr>"
    by (rule trans [OF ih(3)]) (subst d1, simp)
  ultimately show ?case using ih(1) by simp
qed simp

lemma stale_candidates_sound:
  assumes "distinct (map px_execution_id (payment_executions d))" and "c \<in> set (stale_candidates cutoff batch d)"
  shows "\<exists>x. get_execution (fst c) d = Some x \<and> overdue cutoff d x"
proof -
  from assms(2) obtain x where "x \<in> set (payment_executions d)" "overdue cutoff d x" "fst c = px_execution_id x"
    by (auto simp: stale_candidates_def overdue_def dest!: in_set_takeD split: option.splits)
  with execution_tab.member_get [OF assms(1)] show ?thesis by auto
qed

lemma stale_candidates_distinct:
  assumes "distinct (map px_execution_id (payment_executions d))"
  shows "distinct (map fst (stale_candidates cutoff batch d))"
proof -
  have ids: "map fst (concat (map (\<lambda>x. case get_decision (px_decision_id x) d of
        None \<Rightarrow> [] | Some p \<Rightarrow> [(px_execution_id x, pd_authorization_id p)]) xs)) =
      map px_execution_id (filter (\<lambda>x. get_decision (px_decision_id x) d \<noteq> None) xs)" for xs
    by (induction xs) (auto split: option.splits)
  have "distinct (map px_execution_id (filter P (sort_key k (filter Q (payment_executions d)))))" for P Q and k :: "_ \<Rightarrow> int \<times> string"
    using assms by (auto simp: distinct_map intro: inj_on_subset)
  then show ?thesis by (simp add: stale_candidates_def take_map ids distinct_take flip: take_map)
qed

text \<open>When the batch is not used up, every overdue order with a decision is a candidate.\<close>

lemma stale_candidates_complete:
  assumes "length (stale_candidates cutoff batch d) < nat batch"
    and "x \<in> set (payment_executions d)" and "overdue cutoff d x" and "get_decision (px_decision_id x) d = Some p"
  shows "(px_execution_id x, pd_authorization_id p) \<in> set (stale_candidates cutoff batch d)"
proof -
  have "take n xs = xs" if "length (take n xs) < n" for n and xs :: "(string \<times> string) list"
    using that by simp
  then have "stale_candidates cutoff batch d =
      concat (map (\<lambda>x. case get_decision (px_decision_id x) d of
            None \<Rightarrow> [] | Some p \<Rightarrow> [(px_execution_id x, pd_authorization_id p)])
          (sort_key (\<lambda>x. (px_created_at x, px_execution_id x))
            (filter (overdue cutoff d) (payment_executions d))))"
    using assms(1) unfolding stale_candidates_def overdue_def by blast
  with assms(2-4) show ?thesis by (force split: option.splits)
qed

definition sweep_time :: "env \<Rightarrow> datetime option \<Rightarrow> db \<Rightarrow> int" where
  "sweep_time E now d = (case now of Some t \<Rightarrow> utc t | None \<Rightarrow> clock E (readings d))"

text \<open>
  C26. A sweep does exactly what its query says: it flags the selected orders STALE, no others, and
  changes nothing but these statuses and the evidence; it returns their number, which the batch
  size bounds; and when that number is below the batch size no overdue order is left unflagged.
\<close>

theorem sweep_effect:
  assumes "flag_stale_payments E timeout batch now d = (Inr n, d')"
    and "distinct (map px_execution_id (payment_executions d))"
  shows "\<exists>cutoff selected. cutoff = sweep_time E now d - timeout * 1000000 \<and>
     selected = fst ` set (stale_candidates cutoff batch d) \<and>
     n = int (card selected) \<and> n \<le> batch \<and>
     payment_executions d' = map (\<lambda>x. if px_execution_id x \<in> selected then x\<lparr>px_status := STALE\<rparr> else x) (payment_executions d) \<and>
     d' = d\<lparr>payment_executions := payment_executions d', evidence_events := evidence_events d', readings := readings d'\<rparr> \<and>
     (n < batch \<longrightarrow> (\<forall>x\<in>set (payment_executions d).
        overdue cutoff d x \<and> get_decision (px_decision_id x) d \<noteq> None \<longrightarrow> px_execution_id x \<in> selected))"
proof -
  let ?t = "sweep_time E now d - timeout * 1000000" and ?d = "d\<lparr>readings := readings d + 1\<rparr>"
  let ?cs = "stale_candidates ?t batch d"
  have same: "stale_candidates ?t batch ?d = ?cs" by (simp add: stale_candidates_def has_webhook_def)
  from assms(1) have pos: "0 < batch" and run: "flag_candidates E (sweep_time E now d) timeout ?cs 0 ?d = (Inr n, d')"
    unfolding same [symmetric] by (auto simp: flag_stale_payments_def Let_def sweep_time_def split: if_splits)
  have "\<forall>c\<in>set ?cs. \<exists>x. get_execution (fst c) ?d = Some x \<and> overdue ?t ?d x"
    using stale_candidates_sound [OF assms(2)] by (simp add: overdue_def has_webhook_def)
  then have eff: "n = int (length ?cs)" "payment_executions d' = map (flag_stale (fst ` set ?cs)) (payment_executions d)"
    and d': "d' = ?d\<lparr>payment_executions := payment_executions d', evidence_events := evidence_events d', readings := readings d'\<rparr>"
    using flag_candidates_effect [OF run _ stale_candidates_distinct [OF assms(2)]] assms(2) by auto
  have card: "card (fst ` set ?cs) = length ?cs"
    using distinct_card [OF stale_candidates_distinct [OF assms(2), of ?t batch]] by simp
  have len: "length ?cs \<le> nat batch" by (simp add: stale_candidates_def)
  have all: "px_execution_id x \<in> fst ` set ?cs" if "n < batch" "x \<in> set (payment_executions d)" "overdue ?t d x"
      "get_decision (px_decision_id x) d = Some p" for x p
    using stale_candidates_complete [OF _ that(2-4)] that(1) pos eff(1) by force
  have "d' = d\<lparr>payment_executions := payment_executions d', evidence_events := evidence_events d', readings := readings d'\<rparr>"
    by (rule trans [OF d']) simp
  then show ?thesis
    using eff card len pos all by (intro exI [of _ ?t] exI [of _ "fst ` set ?cs"]) auto
qed

lemma sweep_effect_witness:
  "\<exists>d'. flag_stale_payments demo_env 60 100 (Some (utc_datetime 302609051810000000)) (demo_state3 []) = (Inr 1, d') \<and>
     map px_status (payment_executions (demo_state3 [])) = [CREATED] \<and> map px_status (payment_executions d') = [STALE]"
proof -
  let ?now = "utc_datetime 302609051810000000"
  have cand: "stale_candidates (302609051810000000 - 60 * 1000000) 100 (demo_state3 []\<lparr>readings := 17\<rparr>) =
      [(px_execution_id demo_payment, ''auth-12345'')]"
    by (simp add: stale_candidates_def has_webhook_def demo_state3_def row_get_def demo_payment_simps demo_decision_simps)
      (simp add: demo_payment_def demo_env_def)
  have old: "px_created_at demo_payment = 202609051810000014" by (simp add: demo_payment_def demo_env_def)
  have "\<exists>d'. flag_candidate demo_env 302609051810000000 60 (px_execution_id demo_payment, ''auth-12345'')
      (demo_state3 []\<lparr>readings := 17\<rparr>) = (Inr True, d')"
    by (simp add: flag_candidate_def lock_authorization_def demo_used_get demo_state3_def row_get_def [of px_execution_id]
        demo_payment_simps has_webhook_def old append_event_def row_insert_def set_status_def row_update_def transact_def Let_def)
  then obtain d' where "flag_stale_payments demo_env 60 100 (Some ?now) (demo_state3 []) = (Inr 1, d')"
    using cand by (auto simp: flag_stale_payments_def utc_def utc_datetime_def Let_def demo_state3_def)
  moreover have "distinct (map px_execution_id (payment_executions (demo_state3 [])))" by (simp add: demo_state3_def)
  ultimately obtain d' selected where run: "flag_stale_payments demo_env 60 100 (Some ?now) (demo_state3 []) = (Inr 1, d')"
    and sel: "1 = int (card selected)" "payment_executions d' = map (flag_stale selected) (payment_executions (demo_state3 []))"
      "selected = fst ` set (stale_candidates (sweep_time demo_env (Some ?now) (demo_state3 []) - 60 * 1000000) 100 (demo_state3 []))"
    using sweep_effect by blast
  have "selected = {px_execution_id demo_payment}"
    unfolding sel(3) using cand
    by (simp add: sweep_time_def utc_def utc_datetime_def stale_candidates_def has_webhook_def demo_state3_def)
  with sel(2) run show ?thesis by (intro exI [of _ d']) (simp add: demo_state3_def demo_payment_simps)
qed

end
