(* ===== verification/Authorization_Properties.thy ===== *)
theory Authorization_Properties
  imports Demo_Run
begin

text \<open>
  What confirming, revoking and the adapters guarantee: the stored mandate carries a signature
  that the engine accepts and the agent key the user approved, a revocation is recorded once,
  and what an adapter builds grants nothing before it is signed.
\<close>

section \<open>Confirm\<close>

lemma checked_Inr: "checked v = Inr x \<longleftrightarrow> v = Some x"
  by (cases v) (simp_all add: checked_def)

lemma make_envelope_agent:
  "make_envelope E ver auth_id p a m pr f q t x n = Inr e \<Longrightarrow>
     agent e = a \<and> principal e = p \<and> merchant_scope e = m \<and> product_scope e = pr \<and> financial_scope e = f \<and>
     quantity_scope e = q \<and> temporal_scope e = t \<and> execution_scope e = x"
  by (auto simp: make_envelope_def sequence_simps)

lemma build_envelope_key:
  assumes "validation_lawful E" and "build_envelope E cfg n m pk = Inr e"
  shows "public_key (agent e) = pk"
proof -
  from assms(2) obtain i p t where "make_agent E i p (JStr pk) t = Inr (agent e)"
    by (auto simp: build_envelope_def Let_def sequence_simps dest!: make_envelope_agent)
  then obtain v w u where "agent e = \<lparr>agent_id = v, provider = w, public_key = pk, request_public_key = None, trust_level = u\<rparr>"
    using assms(1) by (auto simp: make_agent_def as_str_def checked_Inr validation_lawful_def sequence_simps dest: sym)
  then show ?thesis by simp
qed

lemma signed_mandate_genuine:
  assumes "ed25519_lawful E" and "validation_lawful E" and "signed_mandate E cfg n req = Inr (e, pk)"
  shows "signature_ok E e pk \<and> public_key (agent e) = pk \<and>
     request_public_key (agent e) = Some (cf_agent_public_key req)"
proof -
  from assms(3) obtain sk env0 s where
    pk: "derive_public_key E sk = Inr pk" and env0: "build_envelope E cfg n (cf_mandate req) pk = Inr env0"
    and s: "sign E (compute_evidence_hash E (unsigned_dict (env0\<lparr>agent := (agent env0)\<lparr>request_public_key := Some (cf_agent_public_key req)\<rparr>\<rparr>))) sk = Inr s"
    and e: "e = env0\<lparr>agent := (agent env0)\<lparr>request_public_key := Some (cf_agent_public_key req)\<rparr>,
      evidence_hash := compute_evidence_hash E (unsigned_dict (env0\<lparr>agent := (agent env0)\<lparr>request_public_key := Some (cf_agent_public_key req)\<rparr>\<rparr>)),
      signature := Some s\<rparr>"
    by (auto simp: signed_mandate_def sign_envelope_def Let_def sequence_simps)
  have "unsigned_dict e = unsigned_dict (env0\<lparr>agent := (agent env0)\<lparr>request_public_key := Some (cf_agent_public_key req)\<rparr>\<rparr>)"
    by (simp add: e unsigned_dict_def envelope_dump_def)
  then have ver: "verify E (compute_evidence_hash E (unsigned_dict e)) s pk"
    and hash: "compute_evidence_hash E (unsigned_dict e) = evidence_hash e" "signature e = Some s"
    using sign_verify [OF assms(1) s pk] by (simp_all add: e)
  obtain raw h where "length raw = 32" "s = b64encode (ed25519_sign E raw h)"
    using s by (auto simp: sign_def private_bytes_def split: option.splits if_splits)
  moreover from this(1) assms(1) have "length (ed25519_sign E raw h) = 64" by (simp add: ed25519_lawful_def)
  ultimately have "s \<noteq> []" by (auto simp: b64encode_Nil_iff)
  with ver hash have "signature_ok E e pk" by (simp add: signature_ok_def truthy_def)
  moreover have "public_key (agent e) = pk" "request_public_key (agent e) = Some (cf_agent_public_key req)"
    using build_envelope_key [OF assms(2) env0] by (simp_all add: e)
  ultimately show ?thesis by blast
qed

text \<open>
  C27. Confirm stores exactly one new mandate, unused, under an identifier and a nonce that no other
  mandate has. Its signature is the one the engine and the service accept, made over all its
  terms, and it names the agent key the request carried; the answer repeats identifier, signing
  key and hash. Requests, decisions, payments and revocations are as before.
\<close>

theorem confirm_genuine:
  assumes "ed25519_lawful E" and "validation_lawful E"
    and "confirm_authorization E cfg req d = (Inr resp, d')"
  shows "\<exists>row. authorizations d' = authorizations d @ [row] \<and>
     au_authorization_id row \<notin> au_authorization_id ` set (authorizations d) \<and>
     au_nonce row \<notin> au_nonce ` set (authorizations d) \<and>
     signature_ok E (au_envelope row) (public_key (agent (au_envelope row))) \<and>
     request_public_key (agent (au_envelope row)) = Some (cf_agent_public_key req) \<and>
     au_used_count row = 0 \<and>
     resp = \<lparr>cr_authorization_id = au_authorization_id row, cr_status = ''SIGNED'',
        cr_public_key = public_key (agent (au_envelope row)), cr_evidence_hash = evidence_hash (au_envelope row)\<rparr> \<and>
     d' = d\<lparr>authorizations := authorizations d', evidence_events := evidence_events d', readings := readings d'\<rparr>"
  using assms(3)
proof (cases rule: confirm_authorization_cases)
  case (stored signed pk row d1)
  have row: "au_authorization_id row = authorization_id signed" "au_envelope row = signed" "au_used_count row = 0"
    using mandate_row_Inr [OF stored(3)] by simp_all
  from stored(4) have d1: "d1 = d\<lparr>authorizations := authorizations d @ [row], readings := readings d + 4\<rparr>"
    and new: "au_nonce row \<notin> au_nonce ` set (authorizations d)"
      "au_authorization_id row \<notin> au_authorization_id ` set (authorizations d)"
    by (simp_all add: insert_authorization_Inr)
  have d': "d' = d1\<lparr>evidence_events := evidence_events d', readings := readings d'\<rparr>"
    using evidence.append_frame [OF stored(5)] by (rule conjunct1)
  have auths: "authorizations d' = authorizations d @ [row]" by (subst d') (simp add: d1)
  have "d' = d\<lparr>authorizations := authorizations d', evidence_events := evidence_events d', readings := readings d'\<rparr>"
    unfolding auths by (rule trans [OF d']) (simp add: d1)
  with auths new row signed_mandate_genuine [OF assms(1,2) stored(1)] stored(6) show ?thesis
    by (intro exI [of _ row]) simp
qed simp_all

lemma demo_validation: "validation_lawful demo_env"
  by (simp add: validation_lawful_def demo_env_def)

lemma confirm_genuine_witness:
  "\<exists>resp d row. confirm_authorization demo_env demo_settings demo_confirm empty_db = (Inr resp, d) \<and>
     authorizations d = [row] \<and> signature_ok demo_env (au_envelope row) (public_key (agent (au_envelope row)))"
proof -
  obtain d resp where "confirm_authorization demo_env demo_settings demo_confirm empty_db = (Inr resp, d)"
    using demo_confirmed by metis
  with confirm_genuine [OF demo_lawful demo_validation this] show ?thesis by auto
qed

text \<open>
  What a bare proposal grants: a proposal that names nothing but a maximum total becomes a mandate
  for one purchase of at most 999 items for that total in INR, without tips or substitutions, from
  now for the configured lifetime, with no merchant or product excluded.
\<close>

theorem bare_proposal:
  assumes "validation_lawful E" and "timedelta_minutes (JInt (default_mandate_ttl_minutes cfg)) = Inr ttl"
    and "instant_add (clock E n) ttl = Inr until"
  shows "build_envelope E cfg n [(''max_total'', JInt m)] pk = Inr
    \<lparr>version = ''1.0'', authorization_id = short_id E ''auth-'' (n + 1),
     principal = \<lparr>user_id = ''demo-user'', identity_provider = ''razorpay''\<rparr>,
     agent = \<lparr>agent_id = ''demo-agent'', provider = ''demo'', public_key = pk, request_public_key = None,
       trust_level = ''user_key''\<rparr>,
     merchant_scope = \<lparr>merchant_ids = [], merchant_categories = []\<rparr>,
     product_scope = \<lparr>allowed_skus = [], allowed_categories = [], forbidden_skus = [], substitutions_allowed = False\<rparr>,
     financial_scope = \<lparr>currency = ''INR'', max_total = m, max_unit_price = None, shipping_included = True,
       tax_included = True, tips_allowed = False\<rparr>,
     quantity_scope = \<lparr>max_items = 999\<rparr>,
     temporal_scope = \<lparr>issued_at = isoformat E (clock E n), expires_at = isoformat E until\<rparr>,
     execution_scope = \<lparr>max_transactions = 1, reusable = False\<rparr>,
     nonce = uuid_hex E (n + 2), evidence_hash = [], signature = None\<rparr>"
  using assms
  unfolding build_envelope_def by (simp add: make_simps validation_lawful_def)

lemma bare_proposal_witness:
  "\<exists>e. build_envelope demo_env demo_settings 0 [(''max_total'', JInt 500)] demo_key = Inr e \<and>
     max_total (financial_scope e) = 500 \<and> max_transactions (execution_scope e) = 1"
proof -
  have "timedelta_minutes (JInt (default_mandate_ttl_minutes demo_settings)) = Inr 1200000000"
    by (simp add: timedelta_minutes_def demo_settings_def)
  moreover have "instant_add (clock demo_env 0) 1200000000 = Inr 202609053010000000"
    by (simp add: instant_add_def demo_env_def)
  ultimately show ?thesis by (subst bare_proposal [OF demo_validation]) simp_all
qed

section \<open>Revoke\<close>

lemma strip_ends:
  "py_strip r \<noteq> [] \<Longrightarrow> \<not> is_space (hd (py_strip r)) \<and> \<not> is_space (last (py_strip r))"
proof -
  assume ne: "py_strip r \<noteq> []"
  let ?t = "dropWhile is_space r"
  let ?u = "dropWhile is_space (rev ?t)"
  have u: "?u \<noteq> []" using ne by (simp add: py_strip_def)
  then have "?t \<noteq> []" by (metis dropWhile.simps(1) rev.simps(1))
  have last: "last (py_strip r) = hd ?u" using u by (simp add: py_strip_def last_rev)
  have "rev ?t = takeWhile is_space (rev ?t) @ ?u" by simp
  then have "?t = rev ?u @ rev (takeWhile is_space (rev ?t))" by (metis rev_append rev_rev_ident)
  then have "hd ?t = hd (rev ?u)" using u by (metis hd_append2 rev_is_Nil_conv)
  then have "hd (py_strip r) = hd ?t" by (simp add: py_strip_def)
  with last u \<open>?t \<noteq> []\<close> show ?thesis by (metis hd_dropWhile)
qed

lemma strip_id:
  assumes "w \<noteq> []" and "\<not> is_space (hd w)" and "\<not> is_space (last w)"
  shows "py_strip w = w"
proof -
  have "dropWhile is_space w = w" using assms by (cases w) auto
  moreover have "dropWhile is_space (rev w) = rev w"
    using assms by (cases "rev w") (auto simp: last_rev)
  ultimately show ?thesis by (simp add: py_strip_def)
qed

text \<open>
  Reasons of a revocation: an accepted reason has between 1 and 500 characters, neither begins
  nor ends with white space, occurs in what was given, and is accepted again unchanged.
\<close>

theorem validate_reason_trims:
  assumes "validate_reason r = Inr w"
  shows "0 < length w \<and> length w \<le> 500 \<and> \<not> is_space (hd w) \<and> \<not> is_space (last w) \<and>
     contains w r \<and> validate_reason w = Inr w"
proof -
  from assms have w: "w = py_strip r" "w \<noteq> []" "length r \<le> 500"
    by (auto simp: validate_reason_def split: if_splits)
  let ?t = "dropWhile is_space r"
  have "r = takeWhile is_space r @ ?t" by simp
  moreover have "?t = w @ rev (takeWhile is_space (rev ?t))"
    unfolding w py_strip_def by (metis rev_append rev_rev_ident takeWhile_dropWhile_id)
  ultimately have r: "r = takeWhile is_space r @ w @ rev (takeWhile is_space (rev ?t))" by simp
  then have "contains w r" using contains_iff by blast
  moreover have "length w \<le> 500" using arg_cong [OF r, of length] w(3) by simp
  moreover have "py_strip w = w" using strip_id strip_ends w by blast
  moreover have "\<not> is_space (hd w)" "\<not> is_space (last w)" using strip_ends w by blast+
  ultimately show ?thesis using w(2) by (cases w) (simp_all add: validate_reason_def)
qed

lemma validate_reason_trims_witness:
  "validate_reason '' stolen key '' = Inr ''stolen key'' \<and> contains ''stolen key'' '' stolen key ''"
proof -
  have "validate_reason '' stolen key '' = Inr ''stolen key''" by code_simp
  with validate_reason_trims [OF this] show ?thesis by blast
qed

text \<open>
  A mandate is revoked once: the first call records reason and time, and every later call, with
  whatever reason, gets that first record back and changes nothing.
\<close>

theorem revoke_idempotent:
  assumes "revoke_authorization E auth_id why d = (Inr resp, d')"
    and "validate_reason why' = Inr why''"
  shows "revoke_authorization E' auth_id why' d' = (Inr resp, d')"
  using assms(1)
proof (cases rule: revoke_authorization_cases)
  case (already row)
  then obtain a where "lock_authorization d auth_id = Inr a"
    using assms(1) by (auto simp: revoke_authorization_def split: sum.splits)
  with already assms(2) show ?thesis by (simp add: revoke_authorization_def)
next
  case (revoked w row)
  have eff: "d' = d\<lparr>mandate_revocations := mandate_revocations d @ [row], evidence_events := evidence_events d',
        readings := readings d'\<rparr>" and new: "rv_authorization_id row \<notin> rv_authorization_id ` set (mandate_revocations d)"
    using insert_revocation_effect [OF revoked(4)] by blast+
  obtain a where "lock_authorization d auth_id = Inr a"
    using assms(1) by (auto simp: revoke_authorization_def split: sum.splits)
  then have "lock_authorization d' auth_id = Inr a"
    by (subst eff) (simp add: lock_authorization_def)
  moreover have "row_get rv_authorization_id auth_id (mandate_revocations d) = None"
    using new by (simp add: revo_tab.get_none revoked(2))
  then have "get_revocation auth_id d' = Some row"
    by (subst eff) (simp add: row_get_append revoked(2))
  ultimately show ?thesis using assms(2) revoked(5) by (simp add: revoke_authorization_def)
qed simp

lemma revoke_idempotent_witness:
  "\<exists>resp d. revoke_authorization demo_env ''auth-12345'' ''stolen'' demo_db = (Inr resp, d) \<and>
     revoke_authorization demo_env ''auth-12345'' ''again'' d = (Inr resp, d)"
proof -
  have ok: "validate_reason ''stolen'' = Inr ''stolen''" "validate_reason ''again'' = Inr ''again''"
    by code_simp+
  have "lock_authorization demo_db ''auth-12345'' = Inr demo_row" "get_revocation ''auth-12345'' demo_db = None"
    by (simp_all add: lock_authorization_def demo_db_def empty_db_def demo_get row_get_def [of _ _ "[]"])
  then obtain resp d where "revoke_authorization demo_env ''auth-12345'' ''stolen'' demo_db = (Inr resp, d)"
    by (simp add: revoke_authorization_def ok(1) insert_revocation_def row_insert_def append_event_def transact_def Let_def)
      (simp add: demo_db_def empty_db_def append_event_def row_insert_def Let_def)
  with revoke_idempotent [OF this ok(2)] show ?thesis by blast
qed

section \<open>The adapters\<close>

lemma generic_unsigned:
  "from_generic_delegation E p = Inr e \<Longrightarrow> signature e = None"
  by (auto simp: from_generic_delegation_def generic_tail_def sequence_simps split: prod.splits dest!: make_envelope_unsigned)

lemma ap2_unsigned:
  "from_ap2_checkout_mandate E p = Inr e \<Longrightarrow> signature e = None"
  by (auto simp: from_ap2_checkout_mandate_def generic_tail_def Let_def sequence_simps
      split: prod.splits dest!: make_envelope_unsigned)

text \<open>
  An adapter grants nothing: whatever payload it is given, the envelope it builds is refused by the
  engine for its missing signature, for every cart, time and key, until somebody signs it.
\<close>

theorem adapters_grant_nothing:
  assumes "from_generic_delegation E p = Inr e \<or> from_ap2_checkout_mandate E p = Inr e"
    and "\<not> skip_signature_check opts"
  shows "evaluate_policy E n e c opts = Inr (block SIGNATURE_INVALID ''Mandate signature is missing or invalid.'')"
proof -
  have "signature e = None" using assms(1) generic_unsigned ap2_unsigned by blast
  then have "\<not> signature_ok E e k" for k by (simp add: signature_ok_def truthy_def Let_def)
  with assms(2) show ?thesis by (simp add: evaluate_policy_def)
qed

text \<open>
  The two adapters agree: on payloads that state the same limit, under the key each format uses,
  the envelopes they build have the same identifier, nonce and scopes, and so permit the same carts.
\<close>

theorem adapters_agree:
  assumes "from_generic_delegation E ((''max_amount'', m) # p) = Inr e"
    and "from_ap2_checkout_mandate E ((''max_total_amount'', m) # p) = Inr f"
  shows "authorization_id e = authorization_id f \<and> nonce e = nonce f \<and> merchant_scope e = merchant_scope f \<and>
     product_scope e = product_scope f \<and> financial_scope e = financial_scope f \<and>
     quantity_scope e = quantity_scope f \<and> temporal_scope e = temporal_scope f \<and>
     execution_scope e = execution_scope f \<and>
     contents_permitted e c = contents_permitted f c"
proof -
  have keys: "get_or ((k, m) # p) j v = get_or p j v" "get_item ((k, m) # p) j = get_item p j" if "j \<noteq> k" for k j v
    using that by (simp_all add: get_or_def get_item_def)
  have total: "get_item ((k, m) # p) k = Inr m" for k by (simp add: get_item_def)
  have "authorization_id e = authorization_id f \<and> nonce e = nonce f \<and> merchant_scope e = merchant_scope f \<and>
     product_scope e = product_scope f \<and> financial_scope e = financial_scope f \<and>
     quantity_scope e = quantity_scope f \<and> temporal_scope e = temporal_scope f \<and>
     execution_scope e = execution_scope f"
    using assms
    by (auto simp: from_generic_delegation_def from_ap2_checkout_mandate_def generic_scopes_def generic_tail_def
        make_envelope_def Let_def sequence_simps keys total)
  moreover from this have "item_permitted e = item_permitted f"
    by (intro ext) (simp add: item_permitted_def)
  ultimately show ?thesis by (simp add: contents_permitted_def)
qed

text \<open>A delegation both adapters read.\<close>

definition demo_delegation :: payload where
  "demo_delegation =
     [(''authorization_id'', JStr ''auth-1''), (''user_id'', JStr ''user_1''), (''agent_id'', JStr ''agent_1''),
      (''issued_at'', JStr ''2026-09-05T18:09:00+00:00''), (''expires_at'', JStr ''2026-09-05T18:30:00+00:00''),
      (''nonce'', JStr ''nonce-1'')]"

lemma demo_adapted:
  obtains e f where "from_generic_delegation demo_env ((''max_amount'', JInt 500) # demo_delegation) = Inr e"
    "from_ap2_checkout_mandate demo_env ((''max_total_amount'', JInt 500) # demo_delegation) = Inr f"
    "max_total (financial_scope e) = 500"
  by (simp add: from_generic_delegation_def from_ap2_checkout_mandate_def generic_scopes_def generic_tail_def
      demo_delegation_def get_or_def get_item_def attr_get_def make_principal_def make_agent_def
      make_merchant_scope_def make_product_scope_def make_financial_scope_def make_quantity_scope_def
      make_temporal_scope_def make_execution_scope_def make_envelope_def as_str_def as_int_def as_bool_def
      as_int_option_def as_str_list_def checked_def Let_def) (simp add: demo_env_def)

lemma adapters_grant_nothing_witness:
  "\<exists>e. from_generic_delegation demo_env ((''max_amount'', JInt 500) # demo_delegation) = Inr e \<and>
     evaluate_policy demo_env 0 e demo_cart default_opts =
       Inr (block SIGNATURE_INVALID ''Mandate signature is missing or invalid.'')"
proof -
  obtain e where e: "from_generic_delegation demo_env ((''max_amount'', JInt 500) # demo_delegation) = Inr e"
    using demo_adapted by metis
  from adapters_grant_nothing [OF disjI1 [OF e], of default_opts 0 demo_cart] e show ?thesis
    by (simp add: default_opts_def)
qed

lemma adapters_agree_witness:
  "\<exists>e f. from_generic_delegation demo_env ((''max_amount'', JInt 500) # demo_delegation) = Inr e \<and>
     from_ap2_checkout_mandate demo_env ((''max_total_amount'', JInt 500) # demo_delegation) = Inr f \<and>
     max_total (financial_scope f) = 500"
proof -
  obtain e f where ef: "from_generic_delegation demo_env ((''max_amount'', JInt 500) # demo_delegation) = Inr e"
    "from_ap2_checkout_mandate demo_env ((''max_total_amount'', JInt 500) # demo_delegation) = Inr f"
    "max_total (financial_scope e) = 500"
    by (rule demo_adapted)
  with adapters_agree [OF ef(1,2)] show ?thesis by metis
qed

end
