(* ===== verification/Crypto_Properties.thy ===== *)
theory Crypto_Properties
  imports Authorization Demo
begin

text \<open>
  What hashes and signatures protect: the hash of a request or a mandate changes with any of its
  fields unless SHA-256 collides on the two canonical texts, keys the program generates sign what
  the program verifies, and the text encodings lose nothing. The last section has the settings the
  process starts with.
\<close>

section \<open>Hashes bind their contents\<close>

text \<open>Two different byte strings with one digest.\<close>

definition collision :: "env \<Rightarrow> bytes \<Rightarrow> bytes \<Rightarrow> bool" where
  "collision E a b \<longleftrightarrow> a \<noteq> b \<and> sha256_hex E a = sha256_hex E b"

lemma same_digest: "sha256_hex E a = sha256_hex E b \<longleftrightarrow> a = b \<or> collision E a b"
  by (auto simp: collision_def)

text \<open>
  A signed request cannot be reused with other contents: two requests have the same hash exactly
  when mandate, agent, nonce and the whole cart are the same, or their two canonical texts are a
  SHA-256 collision.
\<close>

theorem request_hash_binds:
  "request_hash E a g n c = request_hash E a' g' n' c' \<longleftrightarrow>
     (a, g, n, c) = (a', g', n', c') \<or>
     collision E (json_blob (request_payload a g n c)) (json_blob (request_payload a' g' n' c'))"
  by (auto simp: request_hash_def hash_json_def same_digest request_payload_inject)

text \<open>
  A mandate's evidence hash covers every term of it: two mandates have the same hash exactly when
  they agree on everything but the stored hash and the signature, or their two canonical texts are
  a SHA-256 collision.
\<close>

theorem evidence_hash_binds:
  "compute_evidence_hash E (unsigned_dict e) = compute_evidence_hash E (unsigned_dict f) \<longleftrightarrow>
     e\<lparr>evidence_hash := evidence_hash f, signature := signature f\<rparr> = f \<or>
     collision E (canonicalize (unsigned_dict e)) (canonicalize (unsigned_dict f))"
proof -
  have "same_terms e f \<longleftrightarrow> e\<lparr>evidence_hash := evidence_hash f, signature := signature f\<rparr> = f"
    unfolding same_terms_def by (cases e; cases f) auto
  then show ?thesis
    by (simp add: compute_evidence_hash_def same_digest canonicalize_inject)
qed

text \<open>
  Canonical JSON: two JSON values have the same canonical bytes exactly when they are the same
  value up to the order in which the keys of their objects are listed.
\<close>

theorem canonical_json: "json_blob v = json_blob w \<longleftrightarrow> sort_keys v = sort_keys w"
  by (rule json_blob_inject)

text \<open>
  Base64 as the program uses it loses nothing, in the strict mode that verification uses and in the
  lenient one that signing uses.
\<close>

theorem base64_round_trip: "b64decode strict (b64encode raw) = Some raw"
  by (rule b64_round_trip)

section \<open>Signatures\<close>

text \<open>
  A generated key pair works: the public half is the one derived from the private half, it is
  accepted as an agent key, and every digest signed with the private half verifies under it.
\<close>

theorem generated_keys_work:
  assumes "ed25519_lawful E" and "generate_keypair E n = (sk, pk)" and "hex_digest h"
  shows "derive_public_key E sk = Inr pk \<and> validate_agent_key pk = Inr pk \<and>
     (\<exists>s. sign E h sk = Inr s \<and> verify E h s pk)"
proof -
  from assms(1,2) have sk: "private_bytes sk = Inr (ed25519_generate E n)"
    and pk: "pk = b64encode (ed25519_public E (ed25519_generate E n))"
    and len: "length (ed25519_public E (ed25519_generate E n)) = 32"
    by (auto simp: generate_keypair_def private_bytes_def b64_round_trip ed25519_lawful_def Let_def)
  then have derive: "derive_public_key E sk = Inr pk" and "\<exists>s. sign E h sk = Inr s"
    by (simp_all add: derive_public_key_def sign_def hex_digest_ascii [OF assms(3)])
  then obtain s where s: "sign E h sk = Inr s" by blast
  with sign_verify [OF assms(1) s derive] derive len pk show ?thesis
    by (simp add: validate_agent_key_def b64_round_trip)
qed

lemma generated_keys_work_witness:
  "\<exists>sk pk s. generate_keypair demo_env 0 = (sk, pk) \<and> sign demo_env demo_digest sk = Inr s \<and>
     verify demo_env demo_digest s pk"
proof -
  have "hex_digest demo_digest" by code_simp
  with generated_keys_work [OF demo_lawful _ this] show ?thesis by (metis prod.exhaust)
qed

text \<open>
  A signature is bound to its digest as tightly as the scheme is: whoever verifies a text under a
  key has checked the bytes of exactly that text, and malformed keys, signatures or digests are
  refused, never raised on.
\<close>

theorem verify_checks:
  "verify E h s pk \<longleftrightarrow> (\<exists>raw_pub raw_sig. b64decode True pk = Some raw_pub \<and> b64decode True s = Some raw_sig \<and>
     length raw_pub = 32 \<and> ascii h = Some h \<and> ed25519_verify E raw_pub raw_sig h)"
  by (auto simp: verify_def ascii_def split: option.splits if_splits)

section \<open>The settings at startup\<close>

text \<open>
  Startup: without any environment variable the process runs with the mock provider, mandates of
  20 minutes and a limiter of 60 requests per client and 600 overall in 60 seconds; and a process
  that starts, from whatever settings, has positive cleanup settings and a positive limiter.
\<close>

theorem startup_checked:
  "(\<exists>cfg l. load_settings (\<lambda>k. None) parse_int = Inr cfg \<and> \<not> razorpay_configured cfg \<and>
      default_mandate_ttl_minutes cfg = 20 \<and> lifespan_startup cfg = Inr l \<and>
      per_client l = 60 \<and> global_limit l = 600 \<and> window_seconds l = 60) \<and>
   {cfg. \<not> isl (lifespan_startup cfg)} \<subseteq>
     {cfg. 0 < payment_stale_after_seconds cfg \<and> 0 < payment_cleanup_interval_seconds cfg \<and>
       0 < payment_cleanup_batch_size cfg \<and> 0 < agent_rate_limit cfg \<and> 0 < agent_rate_limit_global cfg \<and>
       0 < agent_rate_limit_window_seconds cfg \<and> 0 < agent_rate_limit_max_clients cfg}"
proof
  show "\<exists>cfg l. load_settings (\<lambda>k. None) parse_int = Inr cfg \<and> \<not> razorpay_configured cfg \<and>
      default_mandate_ttl_minutes cfg = 20 \<and> lifespan_startup cfg = Inr l \<and>
      per_client l = 60 \<and> global_limit l = 600 \<and> window_seconds l = 60"
    by (simp add: load_settings_def getenv_int_def getenv_or_none_def razorpay_configured_def lifespan_startup_def
        new_limiter_def Let_def)
qed (auto simp: lifespan_startup_def new_limiter_def split: if_splits)

end
