(* ===== verification/Regex.thy ===== *)
theory Regex
  imports Main
begin

text \<open>
  The part of Python's \<^verbatim>\<open>re\<close> that app/routes/intent.py uses: a backtracking matcher for
  sequences of character classes, greedy and lazy repetition of a class, alternation, groups and
  the assertions \<^verbatim>\<open>\b\<close> and \<^verbatim>\<open>$\<close>, and the leftmost \<^verbatim>\<open>search\<close>. A repetition has a class as its
  body, so every step of the matcher consumes a character or an item and matching terminates.
  The matcher is proved equivalent to a declarative reading of the patterns.
\<close>

section \<open>Patterns and the matcher\<close>

datatype 'c item =
    One "'c \<Rightarrow> bool"
  | Star bool "'c \<Rightarrow> bool"
  | Alt "'c item list" "'c item list"
  | Mark nat
  | Boundary "'c \<Rightarrow> bool"
  | At_End "'c \<Rightarrow> bool"

text \<open>
  \<^verbatim>\<open>Star True\<close> is \<^verbatim>\<open>*\<close>, \<^verbatim>\<open>Star False\<close> is \<^verbatim>\<open>*?\<close>; \<^verbatim>\<open>Mark (2 * k)\<close> and \<^verbatim>\<open>Mark (2 * k + 1)\<close> open and close
  group \<^verbatim>\<open>k\<close>. A position is the text before it, backwards, and the text after it.
\<close>

definition boundary_at :: "('c \<Rightarrow> bool) \<Rightarrow> 'c list \<Rightarrow> 'c list \<Rightarrow> bool" where
  "boundary_at w past ahead =
     ((case past of [] \<Rightarrow> False | c # _ \<Rightarrow> w c) \<noteq> (case ahead of [] \<Rightarrow> False | c # _ \<Rightarrow> w c))"

text \<open>\<^verbatim>\<open>$\<close> also matches before a newline that ends the text.\<close>

definition end_at :: "('c \<Rightarrow> bool) \<Rightarrow> 'c list \<Rightarrow> bool" where
  "end_at newline ahead = (case ahead of [] \<Rightarrow> True | [c] \<Rightarrow> newline c | _ \<Rightarrow> False)"

definition or_else :: "'a option \<Rightarrow> 'a option \<Rightarrow> 'a option" where
  "or_else x y = (case x of None \<Rightarrow> y | Some v \<Rightarrow> Some v)"

lemma or_else_simps [simp]: "or_else None y = y" "or_else (Some v) y = Some v"
  by (simp_all add: or_else_def)

lemma or_else_Some: "or_else x y = Some v \<longleftrightarrow> x = Some v \<or> x = None \<and> y = Some v"
  by (cases x) auto

lemma or_else_None: "or_else x y = None \<longleftrightarrow> x = None \<and> y = None"
  by (cases x) auto

function match_items ::
  "'c item list \<Rightarrow> 'c list \<Rightarrow> 'c list \<Rightarrow> (nat \<times> nat) list \<Rightarrow> ('c list \<times> (nat \<times> nat) list) option" where
  "match_items [] past ahead marks = Some (ahead, marks)"
| "match_items (One P # items) past [] marks = None"
| "match_items (One P # items) past (c # cs) marks =
     (if P c then match_items items (c # past) cs marks else None)"
| "match_items (Star greedy P # items) past [] marks = match_items items past [] marks"
| "match_items (Star greedy P # items) past (c # cs) marks =
     (if \<not> P c then match_items items past (c # cs) marks
      else if greedy then
        or_else (match_items (Star greedy P # items) (c # past) cs marks) (match_items items past (c # cs) marks)
      else
        or_else (match_items items past (c # cs) marks) (match_items (Star greedy P # items) (c # past) cs marks))"
| "match_items (Alt xs ys # items) past ahead marks =
     or_else (match_items (xs @ items) past ahead marks) (match_items (ys @ items) past ahead marks)"
| "match_items (Mark k # items) past ahead marks = match_items items past ahead ((k, length past) # marks)"
| "match_items (Boundary w # items) past ahead marks =
     (if boundary_at w past ahead then match_items items past ahead marks else None)"
| "match_items (At_End newline # items) past ahead marks =
     (if end_at newline ahead then match_items items past ahead marks else None)"
  by pat_completeness auto
termination
  by (relation "measure (\<lambda>(items, past, ahead, marks). size_list size items + length ahead)") auto

fun search_from :: "'c item list \<Rightarrow> 'c list \<Rightarrow> 'c list \<Rightarrow> (nat \<times> nat) list option" where
  "search_from items past [] = map_option snd (match_items items past [] [])"
| "search_from items past (c # cs) =
     or_else (map_option snd (match_items items past (c # cs) [])) (search_from items (c # past) cs)"

definition search :: "'c item list \<Rightarrow> 'c list \<Rightarrow> (nat \<times> nat) list option" where
  "search items cs = search_from items [] cs"

text \<open>\<^verbatim>\<open>m.group(k)\<close>: \<^verbatim>\<open>None\<close> for a group that did not take part.\<close>

definition group :: "'c list \<Rightarrow> (nat \<times> nat) list \<Rightarrow> nat \<Rightarrow> 'c list option" where
  "group text marks k =
     (case (map_of marks (2 * k), map_of marks (2 * k + 1)) of
        (Some i, Some j) \<Rightarrow> Some (take (j - i) (drop i text))
      | _ \<Rightarrow> None)"

section \<open>What a pattern means\<close>

text \<open>
  \<^verbatim>\<open>derives items past ahead marks rest marks'\<close>: at this position the pattern can match, leave \<^verbatim>\<open>rest\<close>
  and extend the marks of the groups to \<^verbatim>\<open>marks'\<close>.
\<close>

inductive derives ::
  "'c item list \<Rightarrow> 'c list \<Rightarrow> 'c list \<Rightarrow> (nat \<times> nat) list \<Rightarrow> 'c list \<Rightarrow> (nat \<times> nat) list \<Rightarrow> bool" where
  finished: "derives [] past ahead m ahead m"
| one: "P c \<Longrightarrow> derives items (c # past) cs m rest m' \<Longrightarrow> derives (One P # items) past (c # cs) m rest m'"
| star_stop: "derives items past ahead m rest m' \<Longrightarrow> derives (Star greedy P # items) past ahead m rest m'"
| star_more: "P c \<Longrightarrow> derives (Star greedy P # items) (c # past) cs m rest m' \<Longrightarrow>
    derives (Star greedy P # items) past (c # cs) m rest m'"
| alt_left: "derives (xs @ items) past ahead m rest m' \<Longrightarrow> derives (Alt xs ys # items) past ahead m rest m'"
| alt_right: "derives (ys @ items) past ahead m rest m' \<Longrightarrow> derives (Alt xs ys # items) past ahead m rest m'"
| mark: "derives items past ahead ((k, length past) # m) rest m' \<Longrightarrow> derives (Mark k # items) past ahead m rest m'"
| boundary: "boundary_at w past ahead \<Longrightarrow> derives items past ahead m rest m' \<Longrightarrow>
    derives (Boundary w # items) past ahead m rest m'"
| at_end: "end_at newline ahead \<Longrightarrow> derives items past ahead m rest m' \<Longrightarrow>
    derives (At_End newline # items) past ahead m rest m'"

inductive_simps derives_simps [simp]:
  "derives [] past ahead m rest m'" "derives (One P # items) past ahead m rest m'"
  "derives (Alt xs ys # items) past ahead m rest m'" "derives (Mark k # items) past ahead m rest m'"
  "derives (Boundary w # items) past ahead m rest m'" "derives (At_End newline # items) past ahead m rest m'"

inductive_simps derives_star:
  "derives (Star greedy P # items) past [] m rest m'" "derives (Star greedy P # items) past (c # cs) m rest m'"

lemma match_sound: "match_items items past ahead m = Some (rest, m') \<Longrightarrow> derives items past ahead m rest m'"
  by (induction items past ahead m rule: match_items.induct) (auto simp: or_else_Some derives_star split: if_splits)

lemma or_else_found: "(\<exists>a b. or_else x y = Some (a, b)) \<longleftrightarrow> (\<exists>a b. x = Some (a, b)) \<or> (\<exists>a b. y = Some (a, b))"
  by (cases x) auto

text \<open>The marks never decide whether there is a match.\<close>

lemma match_complete: "derives items past ahead m rest m' \<Longrightarrow> \<exists>r n. match_items items past ahead marks = Some (r, n)"
proof (induction arbitrary: marks rule: derives.induct)
  case (star_stop items past ahead m rest m' greedy P)
  then show ?case by (cases ahead) (simp_all add: or_else_found)
next
  case (star_more P c greedy items past cs m rest m')
  then show ?case by (cases greedy) (simp_all add: or_else_found)
qed (simp_all add: or_else_found)

text \<open>The matcher finds a match exactly when there is one.\<close>

lemma match_iff: "match_items items past ahead m = None \<longleftrightarrow> \<not> (\<exists>rest m'. derives items past ahead m rest m')"
proof (cases "match_items items past ahead m")
  case None
  then have "\<not> derives items past ahead m rest m'" for rest m'
    using match_complete [where marks = m] by fastforce
  with None show ?thesis by simp
next
  case (Some v)
  then show ?thesis using match_sound [of items past ahead m] by (cases v) auto
qed

text \<open>\<^verbatim>\<open>search\<close> finds some match if there is one anywhere, and what it finds is a match.\<close>

definition matches_in :: "'c item list \<Rightarrow> 'c list \<Rightarrow> 'c list \<Rightarrow> (nat \<times> nat) list \<Rightarrow> bool" where
  "matches_in items past cs m \<longleftrightarrow> (\<exists>a b rest. cs = a @ b \<and> derives items (rev a @ past) b [] rest m)"

lemma matches_in_Nil: "matches_in items past [] m \<longleftrightarrow> (\<exists>rest. derives items past [] [] rest m)"
  by (simp add: matches_in_def)

lemma matches_in_Cons:
  "matches_in items past (c # cs) m \<longleftrightarrow> (\<exists>rest. derives items past (c # cs) [] rest m) \<or> matches_in items (c # past) cs m"
  (is "?l \<longleftrightarrow> ?h \<or> ?t")
proof
  assume ?l
  then obtain a b rest where "c # cs = a @ b" "derives items (rev a @ past) b [] rest m"
    unfolding matches_in_def by blast
  then show "?h \<or> ?t" by (cases a) (auto simp: matches_in_def)
next
  assume "?h \<or> ?t"
  then show ?l
  proof
    assume ?h
    then obtain rest where "c # cs = [] @ (c # cs)" "derives items (rev [] @ past) (c # cs) [] rest m" by auto
    then show ?l unfolding matches_in_def by blast
  next
    assume ?t
    then obtain a b rest where "c # cs = (c # a) @ b" "derives items (rev (c # a) @ past) b [] rest m"
      by (auto simp: matches_in_def)
    then show ?l unfolding matches_in_def by blast
  qed
qed

lemma search_from_sound: "search_from items past cs = Some m \<Longrightarrow> matches_in items past cs m"
  by (induction cs arbitrary: past)
    (auto simp: matches_in_Nil matches_in_Cons or_else_Some dest!: match_sound)

lemma search_from_iff: "search_from items past cs = None \<longleftrightarrow> \<not> (\<exists>m. matches_in items past cs m)"
  by (induction cs arbitrary: past) (auto simp: matches_in_Nil matches_in_Cons or_else_None match_iff)

lemma search_sound: "search items cs = Some m \<Longrightarrow> \<exists>a b rest. cs = a @ b \<and> derives items (rev a) b [] rest m"
  using search_from_sound [of items "[]" cs m] by (simp add: search_def matches_in_def)

lemma search_iff: "search items cs = None \<longleftrightarrow> \<not> (\<exists>a b rest m. cs = a @ b \<and> derives items (rev a) b [] rest m)"
  using search_from_iff [of items "[]" cs] by (auto simp: search_def matches_in_def)

lemma search_found:
  "(\<exists>m. search items cs = Some m) \<longleftrightarrow> (\<exists>a t. cs = a @ t \<and> (\<exists>rest m. derives items (rev a) t [] rest m))"
  using search_iff [of items cs] by (cases "search items cs") auto

text \<open>A repetition takes a run of the class and leaves the rest of the pattern to match.\<close>

lemma derives_star_run:
  "derives (Star greedy P # items) past ahead m rest m' \<longleftrightarrow>
   (\<exists>run b. ahead = run @ b \<and> list_all P run \<and> derives items (rev run @ past) b m rest m')"
proof
  assume "derives (Star greedy P # items) past ahead m rest m'"
  then show "\<exists>run b. ahead = run @ b \<and> list_all P run \<and> derives items (rev run @ past) b m rest m'"
  proof (induction ahead arbitrary: past)
    case Nil
    then show ?case by (simp add: derives_star)
  next
    case (Cons c cs)
    from Cons.prems consider (stop) "derives items past (c # cs) m rest m'"
      | (more) "P c" "derives (Star greedy P # items) (c # past) cs m rest m'"
      unfolding derives_star by blast
    then show ?case
    proof cases
      case stop
      then have "c # cs = [] @ (c # cs) \<and> list_all P [] \<and> derives items (rev [] @ past) (c # cs) m rest m'" by simp
      then show ?thesis by blast
    next
      case more
      from Cons.IH [OF more(2)] obtain run b where "cs = run @ b" "list_all P run"
        "derives items (rev run @ c # past) b m rest m'" by blast
      with more(1) have "c # cs = (c # run) @ b \<and> list_all P (c # run) \<and> derives items (rev (c # run) @ past) b m rest m'" by simp
      then show ?thesis by blast
    qed
  qed
next
  assume "\<exists>run b. ahead = run @ b \<and> list_all P run \<and> derives items (rev run @ past) b m rest m'"
  then obtain run b where "ahead = run @ b" "list_all P run" "derives items (rev run @ past) b m rest m'" by blast
  then show "derives (Star greedy P # items) past ahead m rest m'"
  proof (induction run arbitrary: past ahead)
    case Nil
    then show ?case by (simp add: derives.star_stop)
  next
    case (Cons c run)
    then show ?case by (auto intro: derives.star_more)
  qed
qed

text \<open>The rest of a pattern matches after what its beginning took.\<close>

lemma derives_split_none: "derives items past ahead m rest m' \<Longrightarrow> \<exists>z b m1. ahead = z @ b \<and> derives items (rev z @ past) b m1 rest m'"
  by (intro exI [of _ "[]"] exI [of _ ahead] exI [of _ m]) simp

lemma derives_split_run:
  assumes "\<exists>z b m1. ahead = z @ b \<and> derives items (rev z @ rev run @ past) b m1 rest m'"
  shows "\<exists>z b m1. run @ ahead = z @ b \<and> derives items (rev z @ past) b m1 rest m'"
proof -
  from assms obtain z b m1 where "run @ ahead = (run @ z) @ b" "derives items (rev (run @ z) @ past) b m1 rest m'" by auto
  then show ?thesis by blast
qed

lemma derives_suffix:
  "derives (xs @ items) past ahead m rest m' \<Longrightarrow>
   \<exists>z b m1. ahead = z @ b \<and> derives items (rev z @ past) b m1 rest m'"
proof (induction xs arbitrary: past ahead m rule: measure_induct_rule [where f = "size_list size"])
  case (less xs)
  show ?case
  proof (cases xs)
    case Nil
    with less.prems show ?thesis by (intro derives_split_none) simp
  next
    case (Cons x ys)
    have ih: "derives (zs @ items) past ahead m rest m' \<Longrightarrow>
        \<exists>z b m1. ahead = z @ b \<and> derives items (rev z @ past) b m1 rest m'"
      if "size_list size zs < size_list size (x # ys)" for zs past ahead m
      using less.IH [of zs past ahead m] that Cons by simp
    show ?thesis
    proof (cases x)
      case (One P)
      with less.prems Cons obtain c cs where "ahead = [c] @ cs" "derives (ys @ items) (rev [c] @ past) cs m rest m'" by auto
      with ih [of ys] show ?thesis using derives_split_run [of cs _ "[c]"] by simp
    next
      case (Star greedy P)
      with less.prems Cons obtain run b where "ahead = run @ b" "derives (ys @ items) (rev run @ past) b m rest m'"
        by (auto simp: derives_star_run)
      with ih [of ys] show ?thesis using derives_split_run [of b _ run] by simp
    next
      case (Alt us vs)
      with less.prems Cons have "derives ((us @ ys) @ items) past ahead m rest m' \<or> derives ((vs @ ys) @ items) past ahead m rest m'"
        by simp
      with ih [of "us @ ys"] ih [of "vs @ ys"] Alt show ?thesis by (auto simp: size_list_append)
    qed (use less.prems Cons ih [of ys] in auto)
  qed
qed

section \<open>Following the matcher\<close>

text \<open>A greedy repetition takes the whole run when the rest of the pattern matches after it.\<close>

lemma match_star_greedy:
  assumes "list_all P run" and "case ahead of [] \<Rightarrow> True | c # _ \<Rightarrow> \<not> P c"
    and "match_items items (rev run @ past) ahead m = Some v"
  shows "match_items (Star True P # items) past (run @ ahead) m = Some v"
  using assms
proof (induction run arbitrary: past)
  case Nil
  then show ?case by (cases ahead) simp_all
qed simp

text \<open>\<^verbatim>\<open>search\<close> passes over characters that the pattern cannot begin with.\<close>

lemma search_from_skip:
  assumes "list_all (\<lambda>c. \<not> P c) pre"
  shows "search_from (One P # items) past (pre @ cs) = search_from (One P # items) (rev pre @ past) cs"
  using assms by (induction pre arbitrary: past) simp_all

lemma search_from_here: "match_items items past cs [] = Some (rest, m) \<Longrightarrow> search_from items past cs = Some m"
  by (cases cs) simp_all

text \<open>What the last marks of a group say.\<close>

lemma group_mid:
  assumes "map_of m (2 * k) = Some (length a)" and "map_of m (2 * k + 1) = Some (length a + length b)"
  shows "group (a @ b @ c) m k = Some b"
  using assms by (simp add: group_def)

end
