(* ===== verification/Intent.thy ===== *)
theory Intent
  imports Regex Settings
begin

text \<open>
  The intent compiler stub, app/routes/intent.py: four regular expressions over the user's text and
  the proposal built from what they find. Text is a list of code points, since a price is written
  with U+20B9; the tables of the Unicode database that \<^verbatim>\<open>\d\<close>, \<^verbatim>\<open>\w\<close>, \<^verbatim>\<open>int\<close> and \<^verbatim>\<open>str.lower\<close>
  consult are a parameter.
\<close>

section \<open>Text\<close>

type_synonym utext = "int list"

text \<open>
  \<^verbatim>\<open>u_decimal\<close> is the value of a character of category Nd, \<^verbatim>\<open>u_word\<close> is \<^verbatim>\<open>c.isalnum() or c == '_'\<close>,
  \<^verbatim>\<open>u_lower\<close> is \<^verbatim>\<open>str.lower\<close>.
\<close>

record unicode =
  u_decimal :: "int \<Rightarrow> int option"
  u_word :: "int \<Rightarrow> bool"
  u_lower :: "utext \<Rightarrow> utext"

definition cps :: "string \<Rightarrow> utext" where
  "cps s = map of_char s"

definition ascii_letter :: "int \<Rightarrow> bool" where
  "ascii_letter c = (65 \<le> c \<and> c \<le> 90 \<or> 97 \<le> c \<and> c \<le> 122)"

definition ascii_digit :: "int \<Rightarrow> bool" where
  "ascii_digit c = (48 \<le> c \<and> c \<le> 57)"

text \<open>\<^verbatim>\<open>\s\<close> and \<^verbatim>\<open>str.isspace\<close>.\<close>

definition space :: "int \<Rightarrow> bool" where
  "space c = (9 \<le> c \<and> c \<le> 13 \<or> 28 \<le> c \<and> c \<le> 32 \<or> c = 0x85 \<or> c = 0xA0 \<or> c = 0x1680 \<or>
     0x2000 \<le> c \<and> c \<le> 0x200A \<or> c = 0x2028 \<or> c = 0x2029 \<or> c = 0x202F \<or> c = 0x205F \<or> c = 0x3000)"

definition digit :: "unicode \<Rightarrow> int \<Rightarrow> bool" where
  "digit U c = (u_decimal U c \<noteq> None)"

text \<open>
  Under \<^verbatim>\<open>re.IGNORECASE\<close> an ASCII letter matches both its cases, \<^verbatim>\<open>i\<close> also the dotted capital
  and the dotless small i, and \<^verbatim>\<open>[A-Za-z]\<close> also these two, the long s and the Kelvin sign.
\<close>

definition same_letter :: "int \<Rightarrow> int \<Rightarrow> bool" where
  "same_letter a c = (c = a \<or> c = a - 32 \<or> a = 105 \<and> (c = 0x130 \<or> c = 0x131))"

definition letter_ci :: "int \<Rightarrow> bool" where
  "letter_ci c = (ascii_letter c \<or> c = 0x130 \<or> c = 0x131 \<or> c = 0x17F \<or> c = 0x212A)"

definition strip_space :: "utext \<Rightarrow> utext" where
  "strip_space s = rev (dropWhile space (rev (dropWhile space s)))"

definition rstrip_s :: "utext \<Rightarrow> utext" where
  "rstrip_s s = rev (dropWhile (\<lambda>c. c = 115) (rev s))"

fun has_sub :: "utext \<Rightarrow> utext \<Rightarrow> bool" where
  "has_sub p [] = (p = [])"
| "has_sub p (c # cs) = (take (length p) (c # cs) = p \<or> has_sub p cs)"

text \<open>
  \<^verbatim>\<open>int(s)\<close> on the text of a group of digits: the empty text and more than 4300 digits (the
  interpreter's limit) raise.
\<close>

fun decimals_value :: "unicode \<Rightarrow> int \<Rightarrow> utext \<Rightarrow> int option" where
  "decimals_value U n [] = Some n"
| "decimals_value U n (c # cs) =
     (case u_decimal U c of None \<Rightarrow> None | Some k \<Rightarrow> decimals_value U (10 * n + k) cs)"

definition py_int :: "unicode \<Rightarrow> utext \<Rightarrow> exn + int" where
  "py_int U s =
     (if s = [] \<or> 4300 < length s then Inl ValueError
      else case decimals_value U 0 s of None \<Rightarrow> Inl ValueError | Some n \<Rightarrow> Inr n)"

section \<open>The patterns\<close>

definition lit_ci :: "string \<Rightarrow> int item list" where
  "lit_ci s = map (\<lambda>c. One (same_letter (of_char c))) s"

definition plus_of :: "(int \<Rightarrow> bool) \<Rightarrow> int item list" where
  "plus_of P = [One P, Star True P]"

definition capture :: "nat \<Rightarrow> int item list \<Rightarrow> int item list" where
  "capture k items = Mark (2 * k) # items @ [Mark (2 * k + 1)]"

definition digit_or_comma :: "unicode \<Rightarrow> int \<Rightarrow> bool" where
  "digit_or_comma U c = (digit U c \<or> c = 44)"

definition amount_re :: "unicode \<Rightarrow> int item list" where
  "amount_re U =
     [One (\<lambda>c. c = 0x20B9), Star True space] @ capture 1 (plus_of (digit_or_comma U)) @
     [Star True space, Alt (capture 2 [One (\<lambda>c. c = 107 \<or> c = 75)]) []]"

definition merchant_re :: "unicode \<Rightarrow> int item list" where
  "merchant_re U =
     lit_ci ''from'' @ plus_of space @
     capture 1 [One letter_ci, Star False (\<lambda>c. letter_ci c \<or> ascii_digit c \<or> c = 32 \<or> c = 95 \<or> c = 45)] @
     [Alt (plus_of space @ lit_ci ''only'' @ [Boundary (u_word U)])
       [Alt [One (\<lambda>c. c = 44 \<or> c = 46)] [At_End (\<lambda>c. c = 10)]]]"

definition qty_re :: "unicode \<Rightarrow> int item list" where
  "qty_re U =
     Boundary (u_word U) # capture 1 (plus_of (digit U)) @ plus_of space @ capture 2 (plus_of ascii_letter)"

definition expiry_re :: "unicode \<Rightarrow> int item list" where
  "expiry_re U =
     lit_ci ''expir'' @ [Star True (u_word U)] @ plus_of space @ lit_ci ''in'' @ plus_of space @
     capture 1 (plus_of (digit U)) @ [Star True space] @ lit_ci ''min''"

section \<open>The compiler\<close>

record mandate_proposal =
  mp_max_total :: "int option"
  mp_merchant_name :: "utext option"
  mp_quantity :: "int option"
  mp_category :: "utext option"
  mp_substitutions_allowed :: bool
  mp_expires_in_minutes :: int

record intent_response =
  ir_mandate_proposal :: mandate_proposal
  ir_confidence :: rat

text \<open>\<^verbatim>\<open>int(m.group(1))\<close> when there is a match; \<^verbatim>\<open>m.group(1)\<close> always takes part in these patterns.\<close>

definition group_text :: "utext \<Rightarrow> (nat \<times> nat) list \<Rightarrow> nat \<Rightarrow> utext" where
  "group_text cs m k = (case group cs m k of None \<Rightarrow> [] | Some s \<Rightarrow> s)"

definition optional_int :: "unicode \<Rightarrow> utext \<Rightarrow> (nat \<times> nat) list option \<Rightarrow> exn + int option" where
  "optional_int U cs found =
     (case found of None \<Rightarrow> Inr None
      | Some m \<Rightarrow> and_then (py_int U (group_text cs m 1)) (\<lambda>n. Inr (Some n)))"

definition intent_max_total :: "unicode \<Rightarrow> utext \<Rightarrow> exn + int option" where
  "intent_max_total U cs =
     (case search (amount_re U) cs of
        None \<Rightarrow> Inr None
      | Some m \<Rightarrow> and_then (py_int U (filter (\<lambda>c. c \<noteq> 44) (group_text cs m 1))) (\<lambda>raw.
          Inr (Some (if group cs m 2 \<noteq> None then raw * 1000 else raw))))"

definition intent_merchant_name :: "unicode \<Rightarrow> utext \<Rightarrow> utext option" where
  "intent_merchant_name U cs =
     map_option (\<lambda>m. strip_space (group_text cs m 1)) (search (merchant_re U) cs)"

definition intent_quantity :: "unicode \<Rightarrow> utext \<Rightarrow> exn + int option" where
  "intent_quantity U cs = optional_int U cs (search (qty_re U) cs)"

definition intent_category :: "unicode \<Rightarrow> utext \<Rightarrow> utext option" where
  "intent_category U cs = map_option (\<lambda>m. rstrip_s (u_lower U (group_text cs m 2))) (search (qty_re U) cs)"

definition intent_expiry :: "unicode \<Rightarrow> settings \<Rightarrow> utext \<Rightarrow> exn + int" where
  "intent_expiry U cfg cs =
     and_then (optional_int U cs (search (expiry_re U) cs)) (\<lambda>found.
       Inr (case found of None \<Rightarrow> default_mandate_ttl_minutes cfg | Some n \<Rightarrow> n))"

definition intent_substitutions :: "unicode \<Rightarrow> utext \<Rightarrow> bool" where
  "intent_substitutions U cs =
     (\<not> has_sub (cps ''no substitut'') (u_lower U cs) \<and> has_sub (cps ''substitut'') (u_lower U cs))"

definition found_fields :: "int option \<Rightarrow> utext option \<Rightarrow> int option \<Rightarrow> nat" where
  "found_fields max_total merchant_name quantity =
     (if max_total \<noteq> None then 1 else 0) + (if merchant_name \<notin> {None, Some []} then 1 else 0) +
     (if quantity \<notin> {None, Some 0} then 1 else 0)"

text \<open>\<^verbatim>\<open>round(x, 2)\<close> and \<^verbatim>\<open>min\<close>, on the exact value.\<close>

definition intent_confidence :: "nat \<Rightarrow> rat" where
  "intent_confidence found = min (of_int (round ((1/2 + 15/100 * of_nat found) * 100 :: rat)) / 100) (98/100)"

definition compile_intent :: "unicode \<Rightarrow> settings \<Rightarrow> utext \<Rightarrow> exn + intent_response" where
  "compile_intent U cfg cs =
     and_then (intent_max_total U cs) (\<lambda>max_total.
     let merchant_name = intent_merchant_name U cs in
     and_then (intent_quantity U cs) (\<lambda>quantity.
     let category = intent_category U cs in
     and_then (intent_expiry U cfg cs) (\<lambda>expires_in_minutes.
       Inr \<lparr>ir_mandate_proposal = \<lparr>mp_max_total = max_total, mp_merchant_name = merchant_name,
              mp_quantity = quantity, mp_category = category,
              mp_substitutions_allowed = intent_substitutions U cs,
              mp_expires_in_minutes = expires_in_minutes\<rparr>,
            ir_confidence = intent_confidence (found_fields max_total merchant_name quantity)\<rparr>)))"

end
