(* ===== verification/Intent_Properties.thy ===== *)
theory Intent_Properties
  imports Intent
begin

text \<open>
  What the intent compiler reads from a text: which amounts, quantities and numbers it recognises,
  when it fails, and how confident it can be.
\<close>

section \<open>The Unicode database\<close>

text \<open>
  What is used of the tables: the ASCII range, no decimal digit is white space, digits are word
  characters with a value below ten, and the rupee sign is a symbol.
\<close>

definition unicode_lawful :: "unicode \<Rightarrow> bool" where
  "unicode_lawful U \<longleftrightarrow>
     (\<forall>c. 0 \<le> c \<and> c < 128 \<longrightarrow> u_decimal U c = (if ascii_digit c then Some (c - 48) else None)) \<and>
     (\<forall>c. 0 \<le> c \<and> c < 128 \<longrightarrow> u_word U c = (ascii_letter c \<or> ascii_digit c \<or> c = 95)) \<and>
     (\<forall>c. space c \<longrightarrow> u_decimal U c = None) \<and> (\<forall>c. u_decimal U c \<noteq> None \<longrightarrow> u_word U c) \<and>
     u_decimal U 0x20B9 = None \<and> \<not> u_word U 0x20B9"

definition ascii_unicode :: unicode where
  "ascii_unicode =
     \<lparr>u_decimal = (\<lambda>c. if ascii_digit c then Some (c - 48) else None),
      u_word = (\<lambda>c. ascii_letter c \<or> ascii_digit c \<or> c = 95),
      u_lower = map (\<lambda>c. if 65 \<le> c \<and> c \<le> 90 then c + 32 else c)\<rparr>"

lemma space_no_digit: "space c \<Longrightarrow> \<not> ascii_digit c"
  unfolding space_def ascii_digit_def by linarith

lemma ascii_unicode_lawful: "unicode_lawful ascii_unicode"
  unfolding unicode_lawful_def ascii_unicode_def
  by (intro conjI allI impI) (simp_all add: space_no_digit split: if_splits, simp_all add: ascii_digit_def ascii_letter_def)

lemma space_not_comma: "\<not> space 44"
  by (simp add: space_def)

lemma lawful_space: "unicode_lawful U \<Longrightarrow> space c \<Longrightarrow> \<not> digit_or_comma U c"
  using space_not_comma by (auto simp: unicode_lawful_def digit_or_comma_def digit_def)

lemma lawful_digit_word: "unicode_lawful U \<Longrightarrow> digit U c \<Longrightarrow> u_word U c"
  by (auto simp: unicode_lawful_def digit_def)


section \<open>Numbers\<close>

text \<open>\<^verbatim>\<open>int\<close> fails on a text of digits only when it is empty or over the interpreter's limit.\<close>

lemma decimals_value_total: "list_all (digit U) ds \<Longrightarrow> \<exists>n. decimals_value U acc ds = Some n"
  by (induction ds arbitrary: acc) (auto simp: digit_def)

lemma py_int_total:
  assumes "ds \<noteq> []" and "list_all (digit U) ds" and "length ds \<le> 4300"
  shows "\<exists>n. py_int U ds = Inr n"
  using assms decimals_value_total [OF assms(2), of 0] by (auto simp: py_int_def)


section \<open>The amount\<close>

definition kilo :: "utext \<Rightarrow> bool" where
  "kilo t = (case t of [] \<Rightarrow> False | c # _ \<Rightarrow> c = 107 \<or> c = 75)"

definition starts :: "(int \<Rightarrow> bool) \<Rightarrow> utext \<Rightarrow> bool" where
  "starts P t = (case t of [] \<Rightarrow> False | c # _ \<Rightarrow> P c)"

lemma starts_simps [simp]: "starts P [] = False" "starts P (c # cs) = P c"
  by (simp_all add: starts_def)

lemma not_starts: "\<not> starts P t \<longleftrightarrow> (case t of [] \<Rightarrow> True | c # _ \<Rightarrow> \<not> P c)"
  by (cases t) simp_all

lemma amount_marks:
  assumes U: "unicode_lawful U" and sp: "list_all space sp"
    and ds: "list_all (digit_or_comma U) (d # ds)" and gap: "list_all space gap"
    and stop: "\<not> starts (digit_or_comma U) (gap @ post)" "\<not> starts space post"
  shows "\<exists>rest. match_items (amount_re U) past (0x20B9 # sp @ (d # ds) @ gap @ post) [] =
    Some (rest, (if kilo post then [(5, length past + length sp + length ds + length gap + 3),
                   (4, length past + length sp + length ds + length gap + 2)] else []) @
                [(3, length past + length sp + length ds + 2), (2, length past + length sp + 1)])"
proof -
  let ?i = "length past + length sp + 1"
  let ?tail = "[Star True space, Alt (capture 2 [One (\<lambda>c. c = 107 \<or> c = 75)]) []]"
  let ?p1 = "rev sp @ 0x20B9 # past"
  let ?p2 = "rev ds @ d # ?p1"
  let ?m = "[(3, length past + length sp + length ds + 2), (2, ?i)]"
  let ?v = "(if kilo post then tl post else post, (if kilo post
      then [(5, length past + length sp + length ds + length gap + 3),
            (4, length past + length sp + length ds + length gap + 2)] else []) @ ?m)"
  have len: "length ?p1 = ?i" "length ?p2 = length past + length sp + length ds + 2" by simp_all
  have "match_items [Alt (capture 2 [One (\<lambda>c. c = 107 \<or> c = 75)]) []] (rev gap @ ?p2) post ?m = Some ?v"
    by (cases post) (simp_all add: capture_def kilo_def)
  then have "match_items ?tail ?p2 (gap @ post) ?m = Some ?v"
    using gap stop(2) by (intro match_star_greedy) (simp_all add: not_starts)
  then have "match_items (Mark 3 # ?tail) ?p2 (gap @ post) [(2, ?i)] = Some ?v"
    by (simp only: match_items.simps len)
  then have "match_items (Star True (digit_or_comma U) # Mark 3 # ?tail) (d # ?p1) (ds @ gap @ post) [(2, ?i)] = Some ?v"
    using ds stop(1) by (intro match_star_greedy) (simp_all add: not_starts)
  then have "match_items (Mark 2 # One (digit_or_comma U) # Star True (digit_or_comma U) # Mark 3 # ?tail)
      ?p1 (d # ds @ gap @ post) [] = Some ?v"
    using ds by (simp only: match_items.simps len list.pred_inject if_True)
  then have "match_items (Star True space # Mark 2 # One (digit_or_comma U) # Star True (digit_or_comma U) # Mark 3 # ?tail)
      (0x20B9 # past) (sp @ d # ds @ gap @ post) [] = Some ?v"
    using sp ds lawful_space [OF U, of d] by (intro match_star_greedy) auto
  then show ?thesis by (simp add: amount_re_def capture_def plus_of_def)
qed

lemma amount_read':
  assumes "unicode_lawful U" and "0x20B9 \<notin> set pre" and "list_all space sp" and "ds \<noteq> []"
    and "list_all (digit_or_comma U) ds" and "list_all space gap"
    and "\<not> starts (digit_or_comma U) (gap @ post)" and "\<not> starts space post"
  shows "intent_max_total U (pre @ 0x20B9 # sp @ ds @ gap @ post) =
    and_then (py_int U (filter (\<lambda>c. c \<noteq> 44) ds)) (\<lambda>n. Inr (Some (if kilo post then n * 1000 else n)))"
proof -
  obtain d ds' where d: "ds = d # ds'" using assms(4) by (cases ds) auto
  let ?cs = "0x20B9 # sp @ ds @ gap @ post"
  let ?m = "(if kilo post then [(5, length pre + length sp + length ds' + length gap + 3),
                   (4, length pre + length sp + length ds' + length gap + 2)] else []) @
                [(3, length pre + length sp + length ds' + 2), (2, length pre + length sp + 1)]"
  have skip: "list_all (\<lambda>c. c \<noteq> 0x20B9) pre"
    using assms(2) by (auto simp: list_all_iff)
  obtain rest where "match_items (amount_re U) (rev pre) ?cs [] = Some (rest, ?m)"
    using amount_marks [OF assms(1,3) _ assms(6-8), of d ds' "rev pre"] assms(5) unfolding d by auto
  then have "search_from (amount_re U) (rev pre) ?cs = Some ?m"
    by (rule search_from_here)
  then have found: "search (amount_re U) (pre @ ?cs) = Some ?m"
    using search_from_skip [OF skip, of _ "[]" ?cs] by (simp add: search_def amount_re_def)
  have "group ((pre @ 0x20B9 # sp) @ ds @ gap @ post) ?m 1 = Some ds"
    by (rule group_mid) (simp_all add: d)
  then have "group (pre @ ?cs) ?m 1 = Some ds" by simp
  moreover have "group (pre @ ?cs) ?m 2 \<noteq> None \<longleftrightarrow> kilo post" by (simp add: group_def)
  ultimately show ?thesis
    unfolding intent_max_total_def found by (simp add: group_text_def)
qed

text \<open>An amount is read in full: after the first rupee sign of the text and any white space,
  the digits with their thousands separators dropped are the number, multiplied by a thousand if a
  \<^verbatim>\<open>k\<close> or \<^verbatim>\<open>K\<close> follows, and an error only where \<^verbatim>\<open>int\<close> raises one; the text before and after is
  ignored.\<close>

theorem amount_read:
  assumes "unicode_lawful U" and "0x20B9 \<notin> set pre" and "list_all space sp" and "ds \<noteq> []"
    and "list_all (digit_or_comma U) ds" and "list_all space gap"
    and "\<not> starts (digit_or_comma U) (gap @ post)" and "\<not> starts space post"
  shows "intent_max_total U (pre @ 0x20B9 # sp @ ds @ gap @ post) =
    and_then (py_int U (filter (\<lambda>c. c \<noteq> 44) ds)) (\<lambda>n. Inr (Some (if kilo post then n * 1000 else n)))"
  using assms by (rule amount_read')





section \<open>What the patterns recognise\<close>

lemma derives_plus:
  "derives (plus_of P @ items) past ahead m rest m' \<longleftrightarrow>
   (\<exists>ds b. ahead = ds @ b \<and> ds \<noteq> [] \<and> list_all P ds \<and> derives items (rev ds @ past) b m rest m')" (is "?l \<longleftrightarrow> ?r")
proof
  assume ?l
  then obtain c run b where "ahead = (c # run) @ b" "list_all P (c # run)"
    "derives items (rev (c # run) @ past) b m rest m'"
    by (auto simp: plus_of_def derives_star_run)
  then show ?r by blast
next
  assume ?r
  then obtain ds b where ds: "ahead = ds @ b" "ds \<noteq> []" "list_all P ds" "derives items (rev ds @ past) b m rest m'"
    by blast
  then obtain c run where "ds = c # run" by (cases ds) auto
  with ds show ?l by (auto simp: plus_of_def derives_star_run)
qed

lemma derives_capture_plus:
  "derives (capture k (plus_of P) @ items) past ahead m rest m' \<longleftrightarrow>
   (\<exists>ds b. ahead = ds @ b \<and> ds \<noteq> [] \<and> list_all P ds \<and>
      derives items (rev ds @ past) b ((2 * k + 1, length past + length ds) # (2 * k, length past) # m) rest m')"
  by (simp add: capture_def derives_plus add.commute)

lemma derives_lit:
  "derives (lit_ci s @ items) past ahead m rest m' \<longleftrightarrow>
   (\<exists>l b. ahead = l @ b \<and> list_all2 (\<lambda>c. same_letter (of_char c)) s l \<and> derives items (rev l @ past) b m rest m')"
proof (induction s arbitrary: past ahead)
  case (Cons c s)
  have "derives (lit_ci (c # s) @ items) past ahead m rest m' \<longleftrightarrow>
      (\<exists>x cs. ahead = x # cs \<and> same_letter (of_char c) x \<and> derives (lit_ci s @ items) (x # past) cs m rest m')"
    by (auto simp: lit_ci_def)
  also have "\<dots> \<longleftrightarrow> (\<exists>l b. ahead = l @ b \<and> list_all2 (\<lambda>c. same_letter (of_char c)) (c # s) l \<and> derives items (rev l @ past) b m rest m')"
    (is "?l \<longleftrightarrow> ?r")
  proof
    assume ?l
    then obtain x l b where "ahead = (x # l) @ b" "list_all2 (\<lambda>c. same_letter (of_char c)) (c # s) (x # l)"
      "derives items (rev (x # l) @ past) b m rest m'" unfolding Cons by auto
    then show ?r by blast
  next
    assume ?r
    then obtain l b where l: "ahead = l @ b" "list_all2 (\<lambda>c. same_letter (of_char c)) (c # s) l"
      "derives items (rev l @ past) b m rest m'" by blast
    then obtain x l' where "l = x # l'" by (cases l) auto
    with l show ?l unfolding Cons by auto
  qed
  finally show ?case .
qed (simp add: lit_ci_def)

text \<open>Where each pattern matches and what its first group holds.\<close>

lemma amount_found:
  assumes "search (amount_re U) cs = Some m"
  shows "\<exists>a sp ds b. cs = a @ 0x20B9 # sp @ ds @ b \<and> list_all space sp \<and> ds \<noteq> [] \<and>
    list_all (digit_or_comma U) ds \<and> group cs m 1 = Some ds"
proof -
  obtain a t rest where t: "cs = a @ t" "derives (amount_re U) (rev a) t [] rest m"
    using search_sound [OF assms] by blast
  from t(2) obtain sp ds b where p: "t = 0x20B9 # sp @ ds @ b" "list_all space sp" "ds \<noteq> []" "list_all (digit_or_comma U) ds"
    "map_of m 2 = Some (length (a @ 0x20B9 # sp))" "map_of m 3 = Some (length (a @ 0x20B9 # sp) + length ds)"
    by (auto simp: amount_re_def derives_star_run derives_capture_plus) (fastforce simp: capture_def)+
  have "group ((a @ 0x20B9 # sp) @ ds @ b) m 1 = Some ds"
    by (rule group_mid) (use p(5,6) in simp_all)
  with t(1) p(1-4) show ?thesis by (intro exI [of _ a] exI [of _ sp] exI [of _ ds] exI [of _ b]) simp
qed

lemma qty_found:
  assumes "search (qty_re U) cs = Some m"
  shows "\<exists>a ds b. cs = a @ ds @ b \<and> ds \<noteq> [] \<and> list_all (digit U) ds \<and> group cs m 1 = Some ds"
proof -
  obtain a t rest where t: "cs = a @ t" "derives (qty_re U) (rev a) t [] rest m"
    using search_sound [OF assms] by blast
  from t(2) obtain ds b where p: "t = ds @ b" "ds \<noteq> []" "list_all (digit U) ds"
    "map_of m 2 = Some (length a)" "map_of m 3 = Some (length a + length ds)"
    by (auto simp: qty_re_def derives_plus derives_capture_plus derives_capture_plus [where items = "[]", simplified])
  have "group (a @ ds @ b) m 1 = Some ds"
    by (rule group_mid) (use p(4,5) in simp_all)
  with t(1) p(1-3) show ?thesis by (intro exI [of _ a] exI [of _ ds] exI [of _ b]) simp
qed

lemma expiry_found:
  assumes "search (expiry_re U) cs = Some m"
  shows "\<exists>a ds b. cs = a @ ds @ b \<and> ds \<noteq> [] \<and> list_all (digit U) ds \<and> group cs m 1 = Some ds"
proof -
  obtain a t rest where t: "cs = a @ t" "derives (expiry_re U) (rev a) t [] rest m"
    using search_sound [OF assms] by blast
  have re: "expiry_re U = (lit_ci ''expir'' @ [Star True (u_word U)] @ plus_of space @ lit_ci ''in'' @ plus_of space) @
      capture 1 (plus_of (digit U)) @ [Star True space] @ lit_ci ''min''"
    by (simp add: expiry_re_def)
  obtain z u m1 where z: "t = z @ u"
    "derives (capture 1 (plus_of (digit U)) @ [Star True space] @ lit_ci ''min'') (rev (a @ z)) u m1 rest m"
    using derives_suffix [OF t(2) [unfolded re]] by auto
  from z(2) obtain ds b where p: "u = ds @ b" "ds \<noteq> []" "list_all (digit U) ds"
    "map_of m 2 = Some (length (a @ z))" "map_of m 3 = Some (length (a @ z) + length ds)"
    by (auto simp: derives_capture_plus derives_lit [where items = "[]", simplified] derives_star_run)
  have "group ((a @ z) @ ds @ b) m 1 = Some ds"
    by (rule group_mid) (use p(4,5) in simp_all)
  with t(1) z(1) p(1-3) show ?thesis by (intro exI [of _ "a @ z"] exI [of _ ds] exI [of _ b]) simp
qed

text \<open>The text has an amount: a rupee sign, white space, and a digit or a separator.\<close>

definition has_amount :: "unicode \<Rightarrow> utext \<Rightarrow> bool" where
  "has_amount U cs \<longleftrightarrow> (\<exists>a sp c b. cs = a @ 0x20B9 # sp @ c # b \<and> list_all space sp \<and> digit_or_comma U c)"

text \<open>The text has a quantity: a number at a word boundary, white space, and a letter.\<close>

definition has_quantity :: "unicode \<Rightarrow> utext \<Rightarrow> bool" where
  "has_quantity U cs \<longleftrightarrow>
     (\<exists>a ds sp c b. cs = a @ ds @ sp @ c # b \<and> (a = [] \<or> \<not> u_word U (last a)) \<and> ds \<noteq> [] \<and> sp \<noteq> [] \<and>
        list_all (digit U) ds \<and> list_all space sp \<and> ascii_letter c)"

lemma amount_matches: "(\<exists>m. search (amount_re U) cs = Some m) \<longleftrightarrow> has_amount U cs"
proof -
  have eq: "(\<exists>rest m. derives (amount_re U) past t [] rest m) \<longleftrightarrow>
      (\<exists>sp c b. t = 0x20B9 # sp @ c # b \<and> list_all space sp \<and> digit_or_comma U c)" (is "?l \<longleftrightarrow> ?r") for past t
  proof
    assume ?l
    then obtain sp ds b where "t = 0x20B9 # sp @ ds @ b" "list_all space sp" "ds \<noteq> []" "list_all (digit_or_comma U) ds"
      by (auto simp: amount_re_def derives_star_run derives_capture_plus)
    then show ?r by (cases ds) auto
  next
    assume ?r
    then obtain sp c b where t: "t = 0x20B9 # sp @ [c] @ b" "list_all space sp" "list_all (digit_or_comma U) [c]" by auto
    let ?tail = "[Star True space, Alt (capture 2 [One (\<lambda>c. c = 107 \<or> c = 75)]) []]"
    have "derives ?tail p b m b m" for p m by (intro derives.star_stop derives.alt_right) simp
    then have "\<exists>m. derives (capture 1 (plus_of (digit_or_comma U)) @ ?tail) p ([c] @ b) [] b m" for p
      using t(3) unfolding derives_capture_plus by blast
    then have "\<exists>m. derives (Star True space # capture 1 (plus_of (digit_or_comma U)) @ ?tail) p (sp @ [c] @ b) [] b m" for p
      using t(2) unfolding derives_star_run by blast
    then obtain m where "derives (Star True space # capture 1 (plus_of (digit_or_comma U)) @ ?tail)
        (0x20B9 # past) (sp @ [c] @ b) [] b m" by blast
    then show ?l unfolding t(1) amount_re_def by auto
  qed
  show ?thesis unfolding search_found eq has_amount_def by blast
qed

lemma quantity_matches:
  assumes "unicode_lawful U"
  shows "(\<exists>m. search (qty_re U) cs = Some m) \<longleftrightarrow> has_quantity U cs"
proof -
  have edge: "boundary_at (u_word U) (rev a) (ds @ b) \<longleftrightarrow> a = [] \<or> \<not> u_word U (last a)"
    if "ds \<noteq> []" "list_all (digit U) ds" for a ds b
  proof -
    from that obtain d ds' where d: "ds = d # ds'" "u_word U d"
      using lawful_digit_word [OF assms] by (cases ds) auto
    show ?thesis by (cases a rule: rev_cases) (simp_all add: boundary_at_def d)
  qed
  have eq: "(\<exists>rest m. derives (qty_re U) (rev a) t [] rest m) \<longleftrightarrow>
      (\<exists>ds sp c b. t = ds @ sp @ c # b \<and> (a = [] \<or> \<not> u_word U (last a)) \<and> ds \<noteq> [] \<and> sp \<noteq> [] \<and>
        list_all (digit U) ds \<and> list_all space sp \<and> ascii_letter c)" (is "?l \<longleftrightarrow> ?r") for a t
  proof
    assume ?l
    then obtain ds b where ds: "t = ds @ b" "ds \<noteq> []" "list_all (digit U) ds" "boundary_at (u_word U) (rev a) (ds @ b)"
      and "\<exists>p m rest m'. derives (plus_of space @ capture 2 (plus_of ascii_letter) @ []) p b m rest m'"
      by (auto simp: qty_re_def derives_capture_plus) blast
    then obtain sp l b' where "b = sp @ l @ b'" "sp \<noteq> []" "list_all space sp" "l \<noteq> []" "list_all ascii_letter l"
      unfolding derives_plus derives_capture_plus by blast
    moreover from this obtain c l' where "l = c # l'" by (cases l) auto
    ultimately show ?r
      using ds edge [OF ds(2,3), of a b] by (intro exI [of _ ds] exI [of _ sp] exI [of _ c] exI [of _ "l' @ b'"]) simp
  next
    assume ?r
    then obtain ds sp c b where t: "t = ds @ sp @ [c] @ b" "a = [] \<or> \<not> u_word U (last a)" "ds \<noteq> []" "sp \<noteq> []"
      "list_all (digit U) ds" "list_all space sp" "list_all ascii_letter [c]" by auto
    have "\<exists>m'. derives (capture 2 (plus_of ascii_letter) @ []) p ([c] @ b) m b m'" for p m
      using t(7) unfolding derives_capture_plus by auto
    then have "\<exists>m'. derives (plus_of space @ capture 2 (plus_of ascii_letter) @ []) p (sp @ [c] @ b) m b m'" for p m
      using t(4,6) unfolding derives_plus by blast
    then have "\<exists>m'. derives (capture 1 (plus_of (digit U)) @ plus_of space @ capture 2 (plus_of ascii_letter) @ []) p t m b m'" for p m
      using t(1,3,5) unfolding derives_capture_plus [where k = 1] by blast
    moreover have "boundary_at (u_word U) (rev a) t"
      unfolding t(1) using edge [OF t(3,5), of a] t(2) by simp
    ultimately show ?l by (simp add: qty_re_def) blast
  qed
  show ?thesis unfolding search_found eq has_quantity_def by blast
qed

section \<open>Errors\<close>

lemma sub_length: "cs = a @ (ds :: utext) @ b \<Longrightarrow> length ds \<le> length cs"
  by simp

lemma number_total:
  assumes "\<And>m. found = Some m \<Longrightarrow> \<exists>a ds b. cs = a @ ds @ b \<and> ds \<noteq> [] \<and> list_all (digit U) ds \<and> group cs m 1 = Some ds"
    and "length cs \<le> 4300"
  shows "\<exists>n. optional_int U cs found = Inr n"
proof (cases found)
  case (Some m)
  with assms(1) obtain a ds b where ds: "cs = a @ ds @ b" "ds \<noteq> []" "list_all (digit U) ds" "group cs m 1 = Some ds" by blast
  then obtain n where "py_int U ds = Inr n"
    using py_int_total [OF ds(2,3)] sub_length [OF ds(1)] assms(2) by fastforce
  with Some ds(4) show ?thesis by (simp add: optional_int_def group_text_def)
qed (simp add: optional_int_def)

lemma amount_total:
  assumes "unicode_lawful U" and "length cs \<le> 4300" and "\<not> (\<exists>a sp b. cs = a @ 0x20B9 # sp @ 44 # b \<and> list_all space sp)"
  shows "\<exists>n. intent_max_total U cs = Inr n"
proof (cases "search (amount_re U) cs")
  case (Some m)
  obtain a sp ds b where d: "cs = a @ 0x20B9 # sp @ ds @ b" "list_all space sp" "ds \<noteq> []"
    "list_all (digit_or_comma U) ds" "group cs m 1 = Some ds" using amount_found [OF Some] by blast
  let ?ds = "filter (\<lambda>c. c \<noteq> 44) ds"
  have "hd ds \<noteq> 44" using assms(3) d(1-3) by (cases ds) auto
  then have "?ds \<noteq> []" using d(3) by (cases ds) auto
  moreover have "list_all (digit U) ?ds" using d(4) by (auto simp: list_all_iff digit_or_comma_def)
  moreover have "length ?ds \<le> 4300"
  proof -
    have "length ?ds \<le> length ds" by (rule length_filter_le)
    also have "length ds \<le> length cs" unfolding d(1) by simp
    finally show ?thesis using assms(2) by simp
  qed
  ultimately obtain n where "py_int U ?ds = Inr n" using py_int_total by blast
  with Some d(5) show ?thesis by (simp add: intent_max_total_def group_text_def)
qed (simp add: intent_max_total_def)

text \<open>The compiler does not fail on ordinary text: for at most 4300 characters in which no rupee
  sign is followed, after white space, by a comma, it returns a proposal; an error of \<^verbatim>\<open>int\<close> can
  only come from a group that holds no digit or more digits than the interpreter converts.\<close>

theorem compile_intent_total:
  assumes "unicode_lawful U" and "length cs \<le> 4300"
    and "\<not> (\<exists>a sp b. cs = a @ 0x20B9 # sp @ 44 # b \<and> list_all space sp)"
  shows "\<exists>r. compile_intent U cfg cs = Inr r"
proof -
  obtain t where t: "intent_max_total U cs = Inr t" using amount_total [OF assms] by blast
  obtain q where q: "intent_quantity U cs = Inr q"
    using number_total [OF qty_found assms(2)] unfolding intent_quantity_def by blast
  obtain x where x: "optional_int U cs (search (expiry_re U) cs) = Inr x"
    using number_total [OF expiry_found assms(2)] by blast
  show ?thesis by (simp add: compile_intent_def Let_def t q intent_expiry_def x)
qed

text \<open>C34. What is recognised: a proposal has a limit exactly when the text has a rupee sign followed,
  after white space, by a digit or a separator, and a quantity and a category exactly when it has a
  number at a word boundary followed by white space and a letter, whatever the number meant.\<close>

theorem compile_intent_recognises:
  assumes "unicode_lawful U" and "compile_intent U cfg cs = Inr r"
  shows "(mp_max_total (ir_mandate_proposal r) \<noteq> None \<longleftrightarrow> has_amount U cs) \<and>
    (mp_quantity (ir_mandate_proposal r) \<noteq> None \<longleftrightarrow> has_quantity U cs) \<and>
    (mp_category (ir_mandate_proposal r) \<noteq> None \<longleftrightarrow> has_quantity U cs)"
proof -
  from assms(2) obtain t q x where p: "intent_max_total U cs = Inr t" "intent_quantity U cs = Inr q"
    "mp_max_total (ir_mandate_proposal r) = t" "mp_quantity (ir_mandate_proposal r) = q"
    "mp_category (ir_mandate_proposal r) = intent_category U cs"
    by (auto simp: compile_intent_def Let_def sequence_simps)
  from p(1) have "t \<noteq> None \<longleftrightarrow> (\<exists>m. search (amount_re U) cs = Some m)"
    by (auto simp: intent_max_total_def sequence_simps split: option.splits)
  moreover from p(2) have "q \<noteq> None \<longleftrightarrow> (\<exists>m. search (qty_re U) cs = Some m)"
    by (auto simp: intent_quantity_def optional_int_def sequence_simps split: option.splits)
  moreover have "intent_category U cs \<noteq> None \<longleftrightarrow> (\<exists>m. search (qty_re U) cs = Some m)"
    by (auto simp: intent_category_def)
  ultimately show ?thesis
    unfolding p(3-5) by (simp only: amount_matches quantity_matches [OF assms(1)] simp_thms)
qed

text \<open>The confidence of a proposal is one half and 15 hundredths for each of the three fields found, so
  it is at most 95 hundredths and the cap of 98 hundredths never acts.\<close>

theorem confidence_value:
  "intent_confidence (found_fields t mn q) = 1/2 + 15/100 * of_nat (found_fields t mn q) \<and>
   intent_confidence (found_fields t mn q) \<le> 95/100"
proof -
  have "found_fields t mn q = 0 \<or> found_fields t mn q = 1 \<or> found_fields t mn q = 2 \<or> found_fields t mn q = 3"
    by (simp add: found_fields_def)
  then show ?thesis by (elim disjE) (simp_all add: intent_confidence_def round_def floor_eq_iff)
qed

section \<open>Examples\<close>

text \<open>The text of docs/codex-task-dashboard.md.\<close>

definition docs_text :: utext where
  "docs_text = cps ''Buy 3 chairs, max '' @ 0x20B9 #
     cps ''25,000, from Merchant A only, no substitutions, expires in 20 minutes.''"

lemma docs_max_total: "intent_max_total ascii_unicode docs_text = Inr (Some 25000)"
  by code_simp

lemma docs_merchant: "intent_merchant_name ascii_unicode docs_text = Some (cps ''Merchant A'')"
  by code_simp

lemma docs_quantity: "intent_quantity ascii_unicode docs_text = Inr (Some 3)"
  by code_simp

lemma docs_category: "intent_category ascii_unicode docs_text = Some (cps ''chair'')"
  by code_simp

lemma docs_substitutions: "intent_substitutions ascii_unicode docs_text = False"
  by code_simp

lemma docs_expiry: "optional_int ascii_unicode docs_text (search (expiry_re ascii_unicode) docs_text) = Inr (Some 20)"
  by code_simp

text \<open>The whole proposal, as the document shows it, with a confidence of 0.95.\<close>

definition docs_response :: intent_response where
  "docs_response =
     \<lparr>ir_mandate_proposal = \<lparr>mp_max_total = Some 25000, mp_merchant_name = Some (cps ''Merchant A''), mp_quantity = Some 3,
        mp_category = Some (cps ''chair''), mp_substitutions_allowed = False, mp_expires_in_minutes = 20\<rparr>,
      ir_confidence = 95/100\<rparr>"

lemma docs_confidence: "intent_confidence (found_fields (Some 25000) (Some (cps ''Merchant A'')) (Some 3)) = 95/100"
  by (simp add: found_fields_def intent_confidence_def round_def floor_eq_iff cps_def)

lemma docs_proposal: "compile_intent ascii_unicode cfg docs_text = Inr docs_response"
  by (simp add: compile_intent_def Let_def intent_expiry_def docs_max_total docs_merchant docs_quantity
      docs_category docs_substitutions docs_expiry docs_confidence docs_response_def)

text \<open>A rupee sign before a comma alone is an error, a thousands group before a word is a quantity
  of zero, a lifetime is a quantity too, and a plural loses every final s.\<close>

lemma comma_amount_fails: "compile_intent ascii_unicode cfg (0x20B9 # cps '', please'') = Inl ValueError"
proof -
  have "intent_max_total ascii_unicode (0x20B9 # cps '', please'') = Inl ValueError" by code_simp
  then show ?thesis by (simp add: compile_intent_def)
qed

lemma amount_misread_as_quantity:
  "intent_quantity ascii_unicode (0x20B9 # cps ''25,000 from MerchantA'') = Inr (Some 0)"
  "intent_category ascii_unicode (0x20B9 # cps ''25,000 from MerchantA'') = Some (cps ''from'')"
  by code_simp+

lemma lifetime_misread_as_quantity:
  "intent_quantity ascii_unicode (cps ''expires in 20 minutes'') = Inr (Some 20)"
  "intent_category ascii_unicode (cps ''expires in 20 minutes'') = Some (cps ''minute'')"
  by code_simp+

lemma plural_overstripped: "intent_category ascii_unicode (cps ''2 glass'') = Some (cps ''gla'')"
  by code_simp

section \<open>Instances\<close>

lemma amount_read_witness:
  "intent_max_total ascii_unicode (cps ''max '' @ 0x20B9 # [32] @ cps ''25,000'' @ [32] @ cps ''k'') =
   and_then (py_int ascii_unicode (filter (\<lambda>c. c \<noteq> 44) (cps ''25,000'')))
     (\<lambda>n. Inr (Some (if kilo (cps ''k'') then n * 1000 else n))) \<and>
   py_int ascii_unicode (filter (\<lambda>c. c \<noteq> 44) (cps ''25,000'')) = Inr 25000"
proof (intro conjI amount_read ascii_unicode_lawful)
  show "py_int ascii_unicode (filter (\<lambda>c. c \<noteq> 44) (cps ''25,000'')) = Inr 25000" by code_simp
qed (simp_all add: cps_def space_def digit_or_comma_def digit_def ascii_unicode_def ascii_digit_def)


lemma compile_intent_total_witness: "\<forall>cfg. \<exists>r. compile_intent ascii_unicode cfg (0x20B9 # cps ''20k'') = Inr r"
proof (rule allI, rule compile_intent_total [OF ascii_unicode_lawful])
  show "\<not> (\<exists>a sp b. 0x20B9 # cps ''20k'' = a @ 0x20B9 # sp @ 44 # b \<and> list_all space sp)"
  proof
    assume "\<exists>a sp b. 0x20B9 # cps ''20k'' = a @ 0x20B9 # sp @ 44 # b \<and> list_all space sp"
    then obtain a sp b where "0x20B9 # cps ''20k'' = a @ 0x20B9 # sp @ 44 # b" by blast
    then have "44 \<in> set (0x20B9 # cps ''20k'')" by simp
    then show False by (simp add: cps_def)
  qed
qed (simp add: cps_def)

lemma compile_intent_recognises_witness:
  "(mp_max_total (ir_mandate_proposal docs_response) \<noteq> None \<longleftrightarrow> has_amount ascii_unicode docs_text) \<and>
   (mp_quantity (ir_mandate_proposal docs_response) \<noteq> None \<longleftrightarrow> has_quantity ascii_unicode docs_text) \<and>
   (mp_category (ir_mandate_proposal docs_response) \<noteq> None \<longleftrightarrow> has_quantity ascii_unicode docs_text)"
  by (rule compile_intent_recognises [OF ascii_unicode_lawful docs_proposal])

end
