(* ===== verification/Lifecycle.thy ===== *)
theory Lifecycle
  imports Demo_Run
begin

text \<open>
  The life of the worker process, app/main.py: startup checks, the cleanup task beside the
  requests, shutdown. The task returns exactly when it is stopped, and what its sweeps do is a
  run of system calls, so the invariants of System hold while and after it runs.
\<close>

section \<open>A sweep is a run of calls\<close>





section \<open>The cleanup task\<close>

text \<open>The sweeps before the first stop, as a fold over the rounds.\<close>

fun cleanup_rounds :: "env \<Rightarrow> settings \<Rightarrow> (nat \<Rightarrow> wait_end) \<Rightarrow> nat \<Rightarrow> nat \<Rightarrow> db \<Rightarrow> db" where
  "cleanup_rounds E cfg waits n 0 d = d"
| "cleanup_rounds E cfg waits n (Suc k) d =
     cleanup_rounds E cfg waits (Suc n) k (case waits n of Stopped \<Rightarrow> d | Interval g \<Rightarrow> cleanup_round E cfg g d)"

lemma cleanup_stops:
  assumes "waits (n + k) = Stopped" and "\<And>j. j < k \<Longrightarrow> waits (n + j) \<noteq> Stopped"
  shows "run_payment_cleanup E cfg waits n d = Some (cleanup_rounds E cfg waits n k d)"
  using assms
proof (induction k arbitrary: n d)
  case 0
  then show ?case by (subst run_payment_cleanup.simps) simp
next
  case (Suc k)
  obtain g where g: "waits n = Interval g"
    using Suc.prems(2) [of 0] by (cases "waits n") auto
  have "run_payment_cleanup E cfg waits (Suc n) (cleanup_round E cfg g d) =
      Some (cleanup_rounds E cfg waits (Suc n) k (cleanup_round E cfg g d))"
    using Suc.prems(1) Suc.prems(2) [of "Suc j" for j] by (intro Suc.IH) simp_all
  then show ?case by (subst run_payment_cleanup.simps) (simp add: g)
qed

text \<open>A result of the partial function is the result of finitely many rounds.\<close>

lemma cleanup_result:
  assumes "run_payment_cleanup E cfg waits n d = Some d'"
  shows "\<exists>k. waits (n + k) = Stopped \<and> (\<forall>j<k. waits (n + j) \<noteq> Stopped) \<and> d' = cleanup_rounds E cfg waits n k d"
proof (rule run_payment_cleanup.raw_induct [OF _ assms])
  fix run :: "env \<Rightarrow> settings \<Rightarrow> (nat \<Rightarrow> wait_end) \<Rightarrow> nat \<Rightarrow> db \<Rightarrow> db option" and E cfg waits n d d'
  assume ih: "\<And>E cfg waits n d d'. run E cfg waits n d = Some d' \<Longrightarrow>
      \<exists>k. waits (n + k) = Stopped \<and> (\<forall>j<k. waits (n + j) \<noteq> Stopped) \<and> d' = cleanup_rounds E cfg waits n k d"
    and step: "(case waits n of Stopped \<Rightarrow> Some d
      | Interval g \<Rightarrow> run E cfg waits (Suc n) (cleanup_round E cfg g d)) = Some d'"
  show "\<exists>k. waits (n + k) = Stopped \<and> (\<forall>j<k. waits (n + j) \<noteq> Stopped) \<and> d' = cleanup_rounds E cfg waits n k d"
  proof (cases "waits n")
    case Stopped
    with step show ?thesis by (intro exI [of _ 0]) simp
  next
    case (Interval g)
    with step have "run E cfg waits (Suc n) (cleanup_round E cfg g d) = Some d'" by simp
    from ih [OF this] obtain k where k: "waits (Suc n + k) = Stopped" "\<forall>j<k. waits (Suc n + j) \<noteq> Stopped"
      "d' = cleanup_rounds E cfg waits (Suc n) k (cleanup_round E cfg g d)" by blast
    moreover from k(2) Interval have "\<forall>j<Suc k. waits (n + j) \<noteq> Stopped"
      by (auto simp: less_Suc_eq_0_disj)
    ultimately show ?thesis using Interval by (intro exI [of _ "Suc k"]) simp
  qed
qed

lemma cleanup_stops_least:
  assumes "waits (n + k) = Stopped"
  shows "run_payment_cleanup E cfg waits n d =
    Some (cleanup_rounds E cfg waits n (LEAST k. waits (n + k) = Stopped) d)"
proof (rule cleanup_stops)
  show "waits (n + (LEAST k. waits (n + k) = Stopped)) = Stopped" using assms by (rule LeastI [where P = "\<lambda>k. waits (n + k) = Stopped"])
  show "waits (n + j) \<noteq> Stopped" if "j < (LEAST k. waits (n + k) = Stopped)" for j
    using that by (rule not_less_Least)
qed

text \<open>C32. The background cleanup task stops exactly when it is told to: over an endless schedule of waits
  it returns if and only if one of them ends by the stop signal, and what it leaves is the effect of
  the rounds before the first such wait; without a stop it never returns.\<close>

theorem cleanup_terminates_iff_stopped:
  "run_payment_cleanup E cfg waits n d =
     (if \<exists>k. waits (n + k) = Stopped
      then Some (cleanup_rounds E cfg waits n (LEAST k. waits (n + k) = Stopped) d) else None)"
proof (cases "\<exists>k. waits (n + k) = Stopped")
  case True
  then show ?thesis using cleanup_stops_least by (simp only: if_True) blast
next
  case False
  then have "run_payment_cleanup E cfg waits n d = None"
    using cleanup_result [of E cfg waits n d] by (cases "run_payment_cleanup E cfg waits n d") blast+
  with False show ?thesis by (simp only: if_False)
qed




section \<open>The process\<close>




end
