(* ===== verification/App.thy ===== *)
theory App
  imports Lifecycle Intent Rate_Limit_Properties
begin

text \<open>
  The application of app/main.py: the routers of app/routes behind the rate limiter. FastAPI is
  a parameter, \<^verbatim>\<open>framework\<close>: how it matches a request with a path operation and validates a body.
  The table of path operations and what each does with its request are the program's.
\<close>

section \<open>Path operations\<close>

datatype endpoint =
    Health
  | Compile_Intent
  | Confirm_Authorization
  | Revoke_Authorization string
  | Submit_Agent_Request
  | Evaluate_Policy
  | Execute_Payment
  | Razorpay_Webhook
  | Get_Transaction string
  | Get_Evidence string

text \<open>The method and path of each, as the decorators and the prefixes of the routers give them.\<close>

fun route_path :: "endpoint \<Rightarrow> string \<times> string" where
  "route_path Health = (''GET'', ''/health'')"
| "route_path Compile_Intent = (''POST'', ''/intent'' @ ''/compile'')"
| "route_path Confirm_Authorization = (''POST'', ''/authorization'' @ ''/confirm'')"
| "route_path (Revoke_Authorization i) = (''POST'', ''/authorization'' @ ''/'' @ i @ ''/revoke'')"
| "route_path Submit_Agent_Request = (''POST'', ''/agent'' @ ''/request'')"
| "route_path Evaluate_Policy = (''POST'', ''/policy'' @ ''/evaluate'')"
| "route_path Execute_Payment = (''POST'', ''/payment'' @ ''/execute'')"
| "route_path Razorpay_Webhook = (''POST'', ''/webhooks'' @ ''/razorpay'')"
| "route_path (Get_Transaction i) = (''GET'', ''/transactions'' @ ''/'' @ i)"
| "route_path (Get_Evidence i) = (''GET'', ''/transactions'' @ ''/'' @ i @ ''/evidence'')"

text \<open>A path parameter is one non-empty segment.\<close>

fun segment_ok :: "endpoint \<Rightarrow> bool" where
  "segment_ok (Revoke_Authorization i) = (i \<noteq> [] \<and> CHR ''/'' \<notin> set i)"
| "segment_ok (Get_Transaction i) = (i \<noteq> [] \<and> CHR ''/'' \<notin> set i)"
| "segment_ok (Get_Evidence i) = (i \<noteq> [] \<and> CHR ''/'' \<notin> set i)"
| "segment_ok _ = True"

section \<open>Requests and answers\<close>

record execute_request =
  xr_authorization_id :: string
  xr_request_id :: string

record policy_evaluate_request =
  pe_auth :: envelope
  pe_cart :: cart
  pe_current_time :: "string option"

record policy_evaluate_response =
  pr_decision :: string
  pr_reason :: string
  pr_message :: string

record http_request =
  hr_scope :: asgi_scope
  hr_body :: bytes
  hr_signature :: "string option"

text \<open>
  The body of a request as the model of its operation (\<^verbatim>\<open>None\<close>: 422); the reason of a revocation
  may be left out. \<^verbatim>\<open>fw_datetime\<close> prints an instant in a response.
\<close>

record framework =
  fw_route :: "asgi_scope \<Rightarrow> endpoint option"
  fw_intent :: "bytes \<Rightarrow> utext option"
  fw_confirm :: "bytes \<Rightarrow> confirm_request option"
  fw_revoke :: "bytes \<Rightarrow> string option option"
  fw_agent :: "bytes \<Rightarrow> agent_request option"
  fw_evaluate :: "bytes \<Rightarrow> policy_evaluate_request option"
  fw_execute :: "bytes \<Rightarrow> execute_request option"
  fw_datetime :: "int \<Rightarrow> string"

text \<open>
  The documented behaviour of routing: an operation serves the HTTP requests with its method and its
  path below the mount point.
\<close>

definition routing_lawful :: "framework \<Rightarrow> bool" where
  "routing_lawful fw \<longleftrightarrow>
     (\<forall>sc e. fw_route fw sc = Some e \<longleftrightarrow>
        sc_type sc = ''http'' \<and> route_path e = (sc_method sc, effective_path sc) \<and> segment_ok e)"

text \<open>
  An answer is a JSON document with its status, the compiled intent, the limiter's rejection, a body
  that is no valid model (422), a path or method without an operation (404, 405 or a redirect), or
  an exception that no handler catches (500).
\<close>

datatype answer =
    Document nat json
  | Proposal intent_response
  | Throttled rate_response
  | Unprocessable
  | No_Operation
  | Server_Error

fun detail_json :: "detail \<Rightarrow> json" where
  "detail_json (Text s) = JStr s"
| "detail_json (Verdict d r m) = JObj [(''decision'', JStr d), (''reason'', JStr r), (''message'', JStr m)]"

fun answer_of :: "('a \<Rightarrow> json) \<Rightarrow> failure + 'a \<Rightarrow> answer" where
  "answer_of view (Inr v) = Document 200 (view v)"
| "answer_of view (Inl (HTTPException code det)) = Document code (JObj [(''detail'', detail_json det)])"
| "answer_of view (Inl (Raised e)) = Server_Error"

definition confirm_json :: "confirm_response \<Rightarrow> json" where
  "confirm_json r = JObj
     [(''authorization_id'', JStr (cr_authorization_id r)), (''status'', JStr (cr_status r)),
      (''public_key'', JStr (cr_public_key r)), (''evidence_hash'', JStr (cr_evidence_hash r))]"

definition revoke_json :: "framework \<Rightarrow> revoke_response \<Rightarrow> json" where
  "revoke_json fw r = JObj
     [(''authorization_id'', JStr (rr_authorization_id r)), (''status'', JStr (rr_revoke_status r)),
      (''reason'', JStr (rr_reason r)), (''revoked_at'', JStr (fw_datetime fw (rr_revoked_at r)))]"

definition agent_out_json :: "agent_response \<Rightarrow> json" where
  "agent_out_json r = JObj
     [(''request_id'', JStr (resp_request_id r)), (''status'', JStr (resp_status r)),
      (''decision'', JStr (resp_decision r)), (''reason'', JStr (resp_reason r)), (''message'', JStr (resp_message r))]"

definition evaluate_json :: "policy_evaluate_response \<Rightarrow> json" where
  "evaluate_json r = JObj
     [(''decision'', JStr (pr_decision r)), (''reason'', JStr (pr_reason r)), (''message'', JStr (pr_message r))]"

definition execute_json :: "execute_response \<Rightarrow> json" where
  "execute_json r = JObj
     [(''order_id'', JStr (ex_order_id r)), (''amount'', JInt (ex_amount r)), (''currency'', JStr (ex_currency r))]"

definition status_json :: "string \<Rightarrow> json" where
  "status_json s = JObj [(''status'', JStr s)]"

section \<open>The operations\<close>

text \<open>\<^verbatim>\<open>POST /policy/evaluate\<close> reads the clock and touches no table.\<close>

definition evaluate :: "env \<Rightarrow> policy_evaluate_request \<Rightarrow> db \<Rightarrow> policy_evaluate_response handled" where
  "evaluate E req d =
     (map_sum Raised (\<lambda>(dec, rs, msg). \<lparr>pr_decision = dec, pr_reason = rs, pr_message = msg\<rparr>)
        (evaluate_route E (readings d) (pe_auth req) (pe_cart req) (pe_current_time req)),
      d\<lparr>readings := readings d + 1\<rparr>)"

definition with_body :: "'b option \<Rightarrow> db \<Rightarrow> ('b \<Rightarrow> answer \<times> db) \<Rightarrow> answer \<times> db" where
  "with_body body d f = (case body of None \<Rightarrow> (Unprocessable, d) | Some b \<Rightarrow> f b)"

fun perform :: "framework \<Rightarrow> env \<Rightarrow> unicode \<Rightarrow> settings \<Rightarrow> http_request \<Rightarrow> endpoint \<Rightarrow> db \<Rightarrow> answer \<times> db" where
  "perform fw E U cfg q Health d = (Document 200 (status_json ''ok''), d)"
| "perform fw E U cfg q Compile_Intent d =
     with_body (fw_intent fw (hr_body q)) d (\<lambda>cs.
       (case compile_intent U cfg cs of Inl e \<Rightarrow> Server_Error | Inr r \<Rightarrow> Proposal r, d))"
| "perform fw E U cfg q Confirm_Authorization d =
     with_body (fw_confirm fw (hr_body q)) d (\<lambda>b. apfst (answer_of confirm_json) (confirm_authorization E cfg b d))"
| "perform fw E U cfg q (Revoke_Authorization i) d =
     with_body (fw_revoke fw (hr_body q)) d (\<lambda>given.
       apfst (answer_of (revoke_json fw))
         (revoke_authorization E i (case given of None \<Rightarrow> ''operator_request'' | Some r \<Rightarrow> r) d))"
| "perform fw E U cfg q Submit_Agent_Request d =
     with_body (fw_agent fw (hr_body q)) d (\<lambda>b. apfst (answer_of agent_out_json) (submit_agent_request E b d))"
| "perform fw E U cfg q Evaluate_Policy d =
     with_body (fw_evaluate fw (hr_body q)) d (\<lambda>b. apfst (answer_of evaluate_json) (evaluate E b d))"
| "perform fw E U cfg q Execute_Payment d =
     with_body (fw_execute fw (hr_body q)) d (\<lambda>b.
       apfst (answer_of execute_json) (execute_payment E cfg (xr_authorization_id b) (xr_request_id b) d))"
| "perform fw E U cfg q Razorpay_Webhook d =
     apfst (answer_of status_json) (razorpay_webhook E cfg (hr_body q) (hr_signature q) d)"
| "perform fw E U cfg q (Get_Transaction i) d = (answer_of id (get_transaction E d i), d)"
| "perform fw E U cfg q (Get_Evidence i) d = (Document 200 (get_evidence E d i), d)"

section \<open>The application\<close>

text \<open>What a worker keeps: its limiter in memory, the database.\<close>

record server =
  sv_limiter :: limiter
  sv_db :: db

definition serve :: "framework \<Rightarrow> env \<Rightarrow> unicode \<Rightarrow> settings \<Rightarrow> http_request \<Rightarrow> rat \<Rightarrow> server \<Rightarrow> answer \<times> server" where
  "serve fw E U cfg q now s =
     (case rate_limit_middleware (sv_limiter s) (hr_scope q) now of
        (Inl e, l) \<Rightarrow> (Server_Error, s\<lparr>sv_limiter := l\<rparr>)
      | (Inr (Some r), l) \<Rightarrow> (Throttled r, s\<lparr>sv_limiter := l\<rparr>)
      | (Inr None, l) \<Rightarrow>
          (case fw_route fw (hr_scope q) of
             None \<Rightarrow> (No_Operation, s\<lparr>sv_limiter := l\<rparr>)
           | Some e \<Rightarrow>
               (let (a, d) = perform fw E U cfg q e (sv_db s) in (a, \<lparr>sv_limiter = l, sv_db = d\<rparr>))))"

fun serve_all :: "framework \<Rightarrow> env \<Rightarrow> unicode \<Rightarrow> settings \<Rightarrow> (http_request \<times> rat) list \<Rightarrow> server \<Rightarrow> server" where
  "serve_all fw E U cfg [] s = s"
| "serve_all fw E U cfg ((q, now) # qs) s = serve_all fw E U cfg qs (snd (serve fw E U cfg q now s))"

end
