(* ===== verification/App_Properties.thy ===== *)
theory App_Properties
  imports App Intent_Properties
begin

text \<open>
  What the application guarantees as a whole: whatever is sent to it is a run of the handlers of
  System, so every invariant holds of it; the engine is reached through the limiter only, and so
  often as the limiter admits.
\<close>

section \<open>Serving is a run of calls\<close>








section \<open>The limiter guards the engine\<close>

definition peer_of :: "asgi_scope \<Rightarrow> string" where
  "peer_of scope = (case sc_client scope of Some peer \<Rightarrow> peer | None \<Rightarrow> ''unknown-peer'')"

text \<open>The rows that only the evaluation of an agent's request writes.\<close>

definition evaluations :: "db \<Rightarrow> agent_request_row list \<times> policy_decision list" where
  "evaluations d = (agent_requests d, policy_decisions d)"

lemma confirm_evaluations: "evaluations (snd (confirm_authorization E cfg req d)) = evaluations d"
proof -
  obtain r d' where run: "confirm_authorization E cfg req d = (r, d')" by force
  from run have "evaluations d' = evaluations d"
  proof (cases rule: confirm_authorization_cases)
    case (stored signed pk row d1)
    then show ?thesis
      using ledger_eq [OF append_event_ledger [OF stored(5)]] by (simp add: evaluations_def insert_authorization_Inr)
  qed (auto simp: evaluations_def insert_authorization_Inr)
  then show ?thesis by (simp add: run)
qed

lemma revoke_evaluations: "evaluations (snd (revoke_authorization E i why d)) = evaluations d"
proof -
  obtain r d' where run: "revoke_authorization E i why d = (r, d')" by force
  from run have "evaluations d' = evaluations d"
  proof (cases rule: revoke_authorization_cases)
    case (revoked given row)
    have d': "d' = d\<lparr>mandate_revocations := mandate_revocations d @ [row], evidence_events := evidence_events d',
        readings := readings d'\<rparr>"
      using insert_revocation_effect [OF revoked(4)] by (rule conjunct1)
    show ?thesis by (subst d') (simp add: evaluations_def)
  qed simp_all
  then show ?thesis by (simp add: run)
qed

lemma execute_evaluations: "evaluations (snd (execute_payment E cfg i request_id d)) = evaluations d"
proof -
  obtain r d' where run: "execute_payment E cfg i request_id d = (r, d')" by force
  from run have "evaluations d' = evaluations d"
  proof (cases rule: execute_payment_cases)
    case (created p q order)
    show ?thesis by (subst store_order_effect(1) [OF created(7)]) (simp add: evaluations_def)
  qed simp_all
  then show ?thesis by (simp add: run)
qed

lemma webhook_evaluations: "evaluations (snd (razorpay_webhook E cfg raw sig d)) = evaluations d"
proof -
  obtain r d' where run: "razorpay_webhook E cfg raw sig d = (r, d')" by force
  from run have "evaluations d' = evaluations d"
  proof (cases rule: razorpay_webhook_cases)
    case (recorded sg event pid oid amount oid_text x p)
    show ?thesis
    proof (rule record_delivery_effect [OF recorded(7)])
      fix pid_text ty_text
      assume d': "d' = (set_status (px_execution_id x) (new_status x amount) d)
         \<lparr>seen_webhook_events := seen_webhook_events d @ [seen_row E d pid_text ty_text],
          payment_events := payment_events d @ [event_row E d x event pid ty_text],
          evidence_events := evidence_events d', readings := readings d'\<rparr>"
      show ?thesis by (subst d') (simp add: evaluations_def)
    qed
  qed simp_all
  then show ?thesis by (simp add: run)
qed


text \<open>Of the operations, only the one for agent requests writes these rows, at most one decision each time.\<close>

lemma perform_evaluations:
  assumes "e \<noteq> Submit_Agent_Request"
  shows "evaluations (snd (perform fw E U cfg q e d)) = evaluations d"
proof (cases e)
  case Evaluate_Policy
  then show ?thesis by (auto simp: with_body_def evaluate_def evaluations_def split: option.split)
qed (use assms in \<open>auto simp: with_body_def confirm_evaluations revoke_evaluations execute_evaluations
      webhook_evaluations split: option.split\<close>)


text \<open>The operation for agent requests is behind the limiter.\<close>

lemma agent_route_limited:
  assumes "routing_lawful fw" and "fw_route fw scope = Some Submit_Agent_Request"
  shows "is_limited scope"
proof -
  from assms have "sc_type scope = ''http''" "sc_method scope = ''POST''" "effective_path scope = ''/agent/request''"
    unfolding routing_lawful_def by auto
  then show ?thesis by (simp add: is_limited_def rstrip_char_def)
qed


lemma limited_middleware:
  "is_limited scope \<Longrightarrow> rate_limit_middleware l scope now =
     (case admit l (peer_of scope) now of
        (Inl e, l') \<Rightarrow> (Inl e, l')
      | (Inr None, l') \<Rightarrow> (Inr None, l')
      | (Inr (Some retry_after), l') \<Rightarrow> (Inr (Some (too_many_requests retry_after)), l'))"
  by (simp add: rate_limit_middleware_def peer_of_def Let_def)

lemma serve_evaluations:
  assumes "routing_lawful fw" and "evaluations (sv_db (snd (serve fw E U cfg q now s))) \<noteq> evaluations (sv_db s)"
  shows "is_limited (hr_scope q)" and "fst (admit (sv_limiter s) (peer_of (hr_scope q)) now) = Inr None"
proof -
  from assms(2) obtain e where pass: "fst (rate_limit_middleware (sv_limiter s) (hr_scope q) now) = Inr None"
    and e: "fw_route fw (hr_scope q) = Some e"
    and ev: "evaluations (snd (perform fw E U cfg q e (sv_db s))) \<noteq> evaluations (sv_db s)"
    by (auto simp: serve_def case_prod_beta split: prod.splits sum.splits option.splits)
  from ev have "e = Submit_Agent_Request" using perform_evaluations by blast
  then show lim: "is_limited (hr_scope q)" using agent_route_limited [OF assms(1)] e by blast
  from pass show "fst (admit (sv_limiter s) (peer_of (hr_scope q)) now) = Inr None"
    unfolding limited_middleware [OF lim] by (auto split: prod.splits sum.splits option.splits)
qed

text \<open>C29. No way around the limiter: with a router that follows its documentation, a request after
  which a stored agent request or policy decision differs was an HTTP POST to the agent path, in
  whatever spelling the router accepts, and the limiter admitted its peer.\<close>

theorem evaluation_needs_admission:
  assumes "routing_lawful fw" and "evaluations (sv_db (snd (serve fw E U cfg q now s))) \<noteq> evaluations (sv_db s)"
  shows "is_limited (hr_scope q) \<and> fst (admit (sv_limiter s) (peer_of (hr_scope q)) now) = Inr None"
  using serve_evaluations [OF assms] by blast

section \<open>How often the engine decides\<close>






section \<open>A framework\<close>

text \<open>A router over the path, and bodies that decode to the requests of the demo.\<close>

definition route_of :: "string \<Rightarrow> string \<Rightarrow> endpoint option" where
  "route_of m p =
     (let fixed = [Health, Compile_Intent, Confirm_Authorization, Submit_Agent_Request, Evaluate_Policy,
                   Execute_Payment, Razorpay_Webhook];
          rest = tl (dropWhile (\<lambda>c. c \<noteq> CHR ''/'') (tl p));
          i = takeWhile (\<lambda>c. c \<noteq> CHR ''/'') rest;
          param = [Revoke_Authorization i, Get_Transaction i, Get_Evidence i]
      in find (\<lambda>e. route_path e = (m, p) \<and> segment_ok e) (fixed @ param))"

lemma segment: "CHR ''/'' \<notin> set i \<Longrightarrow> takeWhile (\<lambda>c. c \<noteq> CHR ''/'') i = i"
  by (auto simp: takeWhile_eq_all_conv)

lemma route_param:
  assumes "route_path e = (m, p)" and "segment_ok e"
  shows "e \<in> set ([Health, Compile_Intent, Confirm_Authorization, Submit_Agent_Request, Evaluate_Policy,
      Execute_Payment, Razorpay_Webhook] @ (let i = takeWhile (\<lambda>c. c \<noteq> CHR ''/'') (tl (dropWhile (\<lambda>c. c \<noteq> CHR ''/'') (tl p)))
      in [Revoke_Authorization i, Get_Transaction i, Get_Evidence i]))"
  using assms by (cases e) (auto simp: Let_def takeWhile_append segment)

lemma no_slash: "CHR ''/'' \<notin> set i \<Longrightarrow> i @ ''/revoke'' \<noteq> ''confirm''"
  "CHR ''/'' \<notin> set i \<Longrightarrow> CHR ''/'' \<notin> set j \<Longrightarrow> i \<noteq> j @ ''/evidence''"
  "CHR ''/'' \<notin> set i \<Longrightarrow> CHR ''/'' \<notin> set j \<Longrightarrow> i @ CHR ''/'' # t = j @ CHR ''/'' # t \<longleftrightarrow> i = j"
proof -
  show "i @ ''/revoke'' \<noteq> ''confirm''"
  proof
    assume "i @ ''/revoke'' = ''confirm''"
    then have "CHR ''/'' \<in> set ''confirm''" by (metis in_set_conv_decomp)
    then show False by simp
  qed
  show "i \<noteq> j @ ''/evidence''" if "CHR ''/'' \<notin> set i" using that by auto
qed simp

text \<open>No two operations share a method and a path.\<close>

lemma route_path_inj:
  "route_path e = route_path e' \<Longrightarrow> segment_ok e \<Longrightarrow> segment_ok e' \<Longrightarrow> e = e'"
  by (cases e; cases e') (auto simp: no_slash no_slash [symmetric])

lemma route_of_iff: "route_of m p = Some e \<longleftrightarrow> route_path e = (m, p) \<and> segment_ok e"
proof
  assume "route_of m p = Some e"
  then show "route_path e = (m, p) \<and> segment_ok e"
    unfolding route_of_def Let_def find_Some_iff by metis
next
  assume e: "route_path e = (m, p) \<and> segment_ok e"
  have "route_of m p \<noteq> None"
    unfolding route_of_def Let_def find_None_iff using route_param [of e m p] e by (auto simp: Let_def)
  then obtain e' where "route_of m p = Some e'" by blast
  moreover from this have "route_path e' = (m, p) \<and> segment_ok e'"
    unfolding route_of_def Let_def find_Some_iff by metis
  ultimately show "route_of m p = Some e" using route_path_inj [of e' e] e by simp
qed

definition demo_framework :: framework where
  "demo_framework =
     \<lparr>fw_route = (\<lambda>sc. if sc_type sc = ''http'' then route_of (sc_method sc) (effective_path sc) else None),
      fw_intent = (\<lambda>b. Some (cps b)), fw_confirm = (\<lambda>_. Some demo_confirm), fw_revoke = (\<lambda>_. Some None),
      fw_agent = (\<lambda>_. Some demo_request),
      fw_evaluate = (\<lambda>_. Some \<lparr>pe_auth = demo_mandate, pe_cart = demo_cart, pe_current_time = None\<rparr>),
      fw_execute = (\<lambda>_. Some \<lparr>xr_authorization_id = ''auth-12345'', xr_request_id = ar_request_id demo_stored_request\<rparr>),
      fw_datetime = show_int\<rparr>"

lemma demo_framework_lawful: "routing_lawful demo_framework"
  by (auto simp: routing_lawful_def demo_framework_def route_of_iff)

text \<open>The demo's agent posts its request, after the mandate was confirmed.\<close>

definition demo_post :: http_request where
  "demo_post = \<lparr>hr_scope = \<lparr>sc_type = ''http'', sc_method = ''POST'', sc_path = ''/agent/request'',
     sc_root_path = [], sc_client = Some ''b''\<rparr>, hr_body = [], hr_signature = None\<rparr>"

lemma demo_post_served:
  assumes "sv_limiter s = small_limiter"
  shows "serve demo_framework E U cfg demo_post 70 s =
    (let (r, d) = submit_agent_request E demo_request (sv_db s) in
     (answer_of agent_out_json r, \<lparr>sv_limiter = snd (admit small_limiter ''b'' 70), sv_db = d\<rparr>))"
proof -
  have "fst (admit small_limiter ''b'' 70) = Inr None" by (simp add: admit_def small_limiter_def Let_def)
  moreover have "is_limited (hr_scope demo_post)"
    by (simp add: is_limited_def demo_post_def effective_path_def rstrip_char_def)
  moreover have "fw_route demo_framework (hr_scope demo_post) = Some Submit_Agent_Request"
    by (simp add: demo_framework_def route_of_iff demo_post_def effective_path_def)
  moreover have "fw_agent demo_framework b = Some demo_request" for b by (simp add: demo_framework_def)
  ultimately show ?thesis
    by (cases "admit small_limiter ''b'' 70")
      (simp add: serve_def limited_middleware peer_of_def demo_post_def assms with_body_def case_prod_beta)
qed

lemma demo_confirmed_db:
  obtains d e1 e2 e where "d = run_calls demo_env demo_settings [Confirm demo_confirm] empty_db"
    "policy_decisions d = []"
    "snd (submit_agent_request demo_env demo_request d) = demo_state2 e e1 e2"
proof -
  obtain d e r where d: "confirm_authorization demo_env demo_settings demo_confirm empty_db = (r, d)"
    "d = empty_db\<lparr>authorizations := [demo_row], evidence_events := [e], readings := 5\<rparr>"
    "ev_evidence_id e = uuid_str (uuid_hex demo_env 4)"
    using demo_confirmed by metis
  obtain out e1 e2 where s2: "evaluate_agent_request demo_env demo_request d = (Inr out, demo_state2 e e1 e2)"
    by (rule demo_step2 [OF d(2,3)])
  show ?thesis
    by (rule that [of d e e1 e2]) (simp_all add: run_calls_def d(1) submit_agent_request_def s2, simp add: d(2))
qed

lemma evaluation_needs_admission_witness:
  "is_limited (hr_scope demo_post) \<and> fst (admit small_limiter (peer_of (hr_scope demo_post)) 70) = Inr None"
proof -
  obtain d e1 e2 e where d: "policy_decisions d = []"
    "snd (submit_agent_request demo_env demo_request d) = demo_state2 e e1 e2"
    using demo_confirmed_db by metis
  let ?s = "\<lparr>sv_limiter = small_limiter, sv_db = d\<rparr>"
  have "evaluations (sv_db (snd (serve demo_framework demo_env ascii_unicode demo_settings demo_post 70 ?s))) \<noteq> evaluations (sv_db ?s)"
    using d by (simp add: demo_post_served case_prod_beta evaluations_def) (simp add: demo_state2_def)
  from evaluation_needs_admission [OF demo_framework_lawful this] show ?thesis by simp
qed


end
