(* ===== verification/Scenarios.thy ===== *)
theory Scenarios
  imports Authorization_Properties
begin

text \<open>
  The demo script, scripts/demo_scenarios.py: four scenarios against the service, each with the
  assertions the script makes. The script talks to the application in its own process; here it
  calls the handlers. What it prints is left out.
\<close>

section \<open>The script\<close>















section \<open>What the script relies on\<close>










section \<open>Confirming the mandate\<close>







section \<open>Submitting a cart\<close>


definition script_request :: "string \<Rightarrow> string \<Rightarrow> cart \<Rightarrow> string \<Rightarrow> agent_request" where
  "script_request auth_id n c s =
     \<lparr>req_authorization_id = auth_id, req_nonce = n, req_agent_id = ''agent_xyz'', req_cart = c, agent_signature = Some s\<rparr>"

lemma script_request_simps [simp]:
  "req_authorization_id (script_request i n c s) = i" "req_nonce (script_request i n c s) = n"
  "req_agent_id (script_request i n c s) = ''agent_xyz''" "req_cart (script_request i n c s) = c"
  "agent_signature (script_request i n c s) = Some s"
  by (simp_all add: script_request_def)







section \<open>One scenario: confirm, then submit\<close>






section \<open>The order and its webhook\<close>



section \<open>The four scenarios\<close>














section \<open>The whole script\<close>







end
