(* ===== verification/Interleaving.thy ===== *)
theory Interleaving
  imports System_Properties
begin

text \<open>
  Handlers running at the same time. The worker runs its handlers in threads, each with a session
  of its own on one SQLite database: a SELECT outside a write transaction sees the last commit, and
  the first write of a session takes the database's one write lock until it commits. Here a handler
  is a task that advances in the steps between its database accesses, and a world is the database,
  the holder of the write lock and the tasks in flight. System runs a handler in one step; this
  theory shows what of its guarantees survives when the steps are interleaved.
\<close>

section \<open>Tasks\<close>

text \<open>
  Revocation, evaluation, order creation and the sweep's recheck begin with the UPDATE of
  \<^verbatim>\<open>lock_authorization\<close>; the webhook reads execution and decision before it; confirm takes no lock
  and commits twice.
\<close>

datatype task =
    Arrived call
  | Delivery_Read "json \<times> json \<times> json \<times> json" payment_execution policy_decision
  | Mandate_Checked envelope
  | Mandate_Stored envelope
  | Mandate_Tail envelope string
  | Ended

subsection \<open>Confirm, access by access\<close>

definition confirm_check :: "env \<Rightarrow> settings \<Rightarrow> confirm_request \<Rightarrow> db \<Rightarrow> task" where
  "confirm_check E cfg req d =
     (if isl (validate_agent_key (cf_agent_public_key req)) then Ended
      else case signed_mandate E cfg (readings d) req of
        Inl _ \<Rightarrow> Ended
      | Inr (e, _) \<Rightarrow> if get_authorization (authorization_id e) d \<noteq> None then Ended else Mandate_Checked e)"

definition confirm_insert :: "env \<Rightarrow> envelope \<Rightarrow> db \<Rightarrow> task \<times> db" where
  "confirm_insert E e d =
     (case and_then (mandate_row E d e) (\<lambda>row. insert_authorization row d) of
        Inl _ \<Rightarrow> (Ended, d)
      | Inr d' \<Rightarrow> (Mandate_Stored e, d'))"

text \<open>\<^verbatim>\<open>append_event\<close> in two parts: reading the last event of the chain, and inserting the next.\<close>

definition tail_hash :: "db \<Rightarrow> string \<Rightarrow> string" where
  "tail_hash d tx =
     (case latest ev_created_at (of_transaction tx (evidence_events d)) of
        Some e \<Rightarrow> ev_chain_hash e | None \<Rightarrow> genesis_hash)"

definition insert_event :: "env \<Rightarrow> db \<Rightarrow> string \<Rightarrow> string \<Rightarrow> string \<Rightarrow> json \<Rightarrow> string \<Rightarrow> exn + db" where
  "insert_event E d transaction_id event_type actor payload prev_hash =
     (let payload_hash = hash_json E payload;
          event = \<lparr>ev_evidence_id = uuid_str (uuid_hex E (readings d)),
                   ev_transaction_id = transaction_id, ev_prev_hash = prev_hash,
                   ev_payload_hash = payload_hash,
                   ev_chain_hash = chain_hash E prev_hash payload_hash,
                   ev_event_type = event_type, ev_actor = actor, ev_payload = payload,
                   ev_created_at = clock E (readings d)\<rparr>
      in case row_insert ev_evidence_id event (evidence_events d) of
           None \<Rightarrow> Inl IntegrityError
         | Some evs \<Rightarrow> Inr (d\<lparr>evidence_events := evs, readings := Suc (readings d)\<rparr>))"

lemma append_event_insert: "append_event E d tx ty ac pl = insert_event E d tx ty ac pl (tail_hash d tx)"
  by (simp add: append_event_def insert_event_def tail_hash_def Let_def)

definition confirm_append :: "env \<Rightarrow> envelope \<Rightarrow> string \<Rightarrow> db \<Rightarrow> task \<times> db" where
  "confirm_append E e prev_hash d =
     (case insert_event E d (authorization_id e) ''MANDATE_SIGNED'' (user_id (principal e))
             (JObj (envelope_dump e)) prev_hash of
        Inl _ \<Rightarrow> (Ended, d)
      | Inr d' \<Rightarrow> (Ended, d'))"

subsection \<open>The webhook before and under the lock\<close>

definition webhook_lookup :: "env \<Rightarrow> settings \<Rightarrow> bytes \<Rightarrow> string option \<Rightarrow> db \<Rightarrow> task" where
  "webhook_lookup E cfg raw given_signature d =
     (if \<not> truthy given_signature then Ended
      else case verify_webhook E (get_payment_executor cfg) raw (the given_signature) of
        Inl _ \<Rightarrow> Ended
      | Inr False \<Rightarrow> Ended
      | Inr True \<Rightarrow>
          (case read_delivery E raw of
             Inl _ \<Rightarrow> Ended
           | Inr (event, pid, oid, amount) \<Rightarrow>
               if \<not> json_truthy pid \<or> \<not> json_truthy oid then Ended
               else case sql_text oid of
                 Inl _ \<Rightarrow> Ended
               | Inr oid_text \<Rightarrow>
                   (case execution_for_order d oid_text of
                      None \<Rightarrow> Ended
                    | Some x \<Rightarrow>
                        (case get_decision (px_decision_id x) d of
                           None \<Rightarrow> Ended
                         | Some p \<Rightarrow> Delivery_Read (event, pid, oid, amount) x p))))"

text \<open>Under the lock the execution is refreshed; the decision is used as it was read.\<close>

definition webhook_locked :: "env \<Rightarrow> json \<times> json \<times> json \<times> json \<Rightarrow> payment_execution \<Rightarrow> policy_decision \<Rightarrow> db \<Rightarrow> db" where
  "webhook_locked E delivery x p d =
     (let (event, pid, oid, amount) = delivery in
      case lock_authorization d (pd_authorization_id p) of
        Inl _ \<Rightarrow> d
      | Inr _ \<Rightarrow>
          (case get_execution (px_execution_id x) d of
             None \<Rightarrow> d
           | Some fresh \<Rightarrow>
               (case sql_text pid of
                  Inl _ \<Rightarrow> d
                | Inr pid_text \<Rightarrow>
                    if seen_payment d pid_text then d
                    else snd (transact d (record_delivery E (pd_authorization_id p) fresh event pid oid amount d)))))"

section \<open>The world\<close>

record world =
  w_db :: db
  w_lock :: "nat option"
  w_tasks :: "task list"

definition start_world :: world where
  "start_world = \<lparr>w_db = empty_db, w_lock = None, w_tasks = []\<rparr>"

text \<open>A step that only reads: the task it leaves and the readings of clock and \<^verbatim>\<open>uuid4\<close> it takes.\<close>

fun read_step :: "env \<Rightarrow> settings \<Rightarrow> task \<Rightarrow> db \<Rightarrow> (task \<times> nat) option" where
  "read_step E cfg (Arrived (Confirm req)) d = Some (confirm_check E cfg req d, 3)"
| "read_step E cfg (Arrived (Webhook raw given_signature)) d = Some (webhook_lookup E cfg raw given_signature d, 0)"
| "read_step E cfg (Arrived (Other_Readings k)) d = Some (Ended, k)"
| "read_step E cfg (Mandate_Stored e) d = Some (Mandate_Tail e (tail_hash d (authorization_id e)), 0)"
| "read_step E cfg t d = None"

text \<open>A write that is a transaction of its own.\<close>

fun write_step :: "env \<Rightarrow> task \<Rightarrow> db \<Rightarrow> (task \<times> db) option" where
  "write_step E (Mandate_Checked e) d = Some (confirm_insert E e d)"
| "write_step E (Mandate_Tail e prev_hash) d = Some (confirm_append E e prev_hash d)"
| "write_step E t d = None"

text \<open>The handlers that hold the lock from their first write to their commit, and what they do under it.\<close>

fun takes_lock :: "task \<Rightarrow> bool" where
  "takes_lock (Arrived (Revoke auth_id why)) = True"
| "takes_lock (Arrived (Agent_Request req)) = True"
| "takes_lock (Arrived (Execute auth_id request_id)) = True"
| "takes_lock (Arrived (Flag_Candidate observed_at timeout candidate)) = True"
| "takes_lock (Delivery_Read delivery x p) = True"
| "takes_lock t = False"

fun under_lock :: "env \<Rightarrow> settings \<Rightarrow> task \<Rightarrow> db \<Rightarrow> db" where
  "under_lock E cfg (Arrived c) d = handle E cfg c d"
| "under_lock E cfg (Delivery_Read delivery x p) d = webhook_locked E delivery x p d"
| "under_lock E cfg t d = d"

text \<open>
  Any task may move next. A writer waits while another task holds the lock, or gives up (SQLite
  raises an \<^verbatim>\<open>OperationalError\<close> after its timeout, and the handler ends without a commit).
\<close>

inductive world_step :: "env \<Rightarrow> settings \<Rightarrow> world \<Rightarrow> world \<Rightarrow> bool" for E cfg where
  arrive: "world_step E cfg w (w\<lparr>w_tasks := w_tasks w @ [Arrived c]\<rparr>)"
| reads:
    "i < length (w_tasks w) \<Longrightarrow> read_step E cfg (w_tasks w ! i) (w_db w) = Some (t, k) \<Longrightarrow>
     world_step E cfg w (w\<lparr>w_db := (w_db w)\<lparr>readings := readings (w_db w) + k\<rparr>, w_tasks := (w_tasks w)[i := t]\<rparr>)"
| writes:
    "w_lock w = None \<Longrightarrow> i < length (w_tasks w) \<Longrightarrow> write_step E (w_tasks w ! i) (w_db w) = Some (t, d) \<Longrightarrow>
     world_step E cfg w (w\<lparr>w_db := d, w_tasks := (w_tasks w)[i := t]\<rparr>)"
| acquire:
    "w_lock w = None \<Longrightarrow> i < length (w_tasks w) \<Longrightarrow> takes_lock (w_tasks w ! i) \<Longrightarrow>
     world_step E cfg w (w\<lparr>w_lock := Some i\<rparr>)"
| commit:
    "w_lock w = Some i \<Longrightarrow> i < length (w_tasks w) \<Longrightarrow>
     world_step E cfg w (w\<lparr>w_db := under_lock E cfg (w_tasks w ! i) (w_db w), w_lock := None,
       w_tasks := (w_tasks w)[i := Ended]\<rparr>)"
| give_up:
    "w_lock w = Some j \<Longrightarrow> i \<noteq> j \<Longrightarrow> i < length (w_tasks w) \<Longrightarrow>
     takes_lock (w_tasks w ! i) \<or> write_step E (w_tasks w ! i) (w_db w) \<noteq> None \<Longrightarrow>
     world_step E cfg w (w\<lparr>w_tasks := (w_tasks w)[i := Ended]\<rparr>)"

inductive_cases world_stepE: "world_step E cfg w w'"

abbreviation reachable_world :: "env \<Rightarrow> settings \<Rightarrow> world \<Rightarrow> bool" where
  "reachable_world E cfg \<equiv> reach (\<lambda>w. w = start_world) (world_step E cfg)"

section \<open>Interleaved steps implement the ledger\<close>

lemma insert_event_Inr:
  assumes "insert_event E d tx ty ac pl prev_hash = Inr d'"
  obtains e where "d' = d\<lparr>evidence_events := evidence_events d @ [e], readings := Suc (readings d)\<rparr>"
    "ev_transaction_id e = tx" "ev_event_type e = ty" "ev_payload e = pl" "ev_payload_hash e = hash_json E pl"
    "ev_chain_hash e = chain_hash E prev_hash (ev_payload_hash e)" "ev_created_at e = clock E (readings d)"
    "ev_evidence_id e = uuid_str (uuid_hex E (readings d))"
  using assms by (auto simp: insert_event_def Let_def split: option.splits dest!: evidence_tab.ins_some intro!: that)

lemma write_implements:
  assumes "write_step E t d = Some (t', d')"
  shows "implements_step E cfg d d'"
proof (cases t)
  case (Mandate_Checked e)
  show ?thesis
  proof (cases "and_then (mandate_row E d e) (\<lambda>row. insert_authorization row d)")
    case (Inl x)
    then show ?thesis using assms Mandate_Checked by (simp add: confirm_insert_def implements_step_def)
  next
    case (Inr d1)
    then obtain row where "mandate_row E d e = Inr row" "insert_authorization row d = Inr d1"
      by (auto simp: sequence_simps)
    with Inr show ?thesis using assms Mandate_Checked mandate_added by (auto simp: confirm_insert_def)
  qed
next
  case (Mandate_Tail e prev_hash)
  then show ?thesis
    using assms by (auto simp: confirm_append_def implements_step_def ledger_def split: sum.splits elim!: insert_event_Inr)
qed (use assms in simp_all)

lemma webhook_locked_implements: "implements_step E cfg d (webhook_locked E delivery x p d)"
proof -
  obtain event pid oid amount where delivery: "delivery = (event, pid, oid, amount)" by (cases delivery)
  have unchanged: "implements_step E cfg d d" by (simp add: implements_step_def)
  have recorded: "implements_step E cfg d (snd (transact d (record_delivery E i fresh event pid oid amount d)))"
    if "get_execution (px_execution_id x) d = Some fresh" for i fresh
  proof (cases "record_delivery E i fresh event pid oid amount d")
    case (Inr v)
    then show ?thesis
      using delivery_implements [of E i fresh event pid oid amount d "fst v" "snd v" cfg] execution_tab.get_member [OF that]
      by (cases v) (simp add: transact_def)
  qed (simp add: transact_def unchanged)
  show ?thesis
    using unchanged recorded
    by (auto simp: webhook_locked_def delivery split: sum.split option.split)
qed

lemma under_lock_implements: "implements_step E cfg d (under_lock E cfg t d)"
  using handle_implements webhook_locked_implements by (cases t) (simp_all add: implements_step_def)

lemma world_implements:
  "world_step E cfg w w' \<Longrightarrow> implements_step E cfg (w_db w) (w_db w')"
  by (erule world_stepE)
    (use under_lock_implements write_implements in \<open>simp_all add: implements_step_def\<close>)

interpretation concurrent: refinement "\<lambda>w. w = start_world" "world_step E cfg" "\<lambda>s. s = empty_db" "ledger_step E cfg"
  "\<lambda>w. ledger (w_db w)" for E cfg
proof
  show "ledger (w_db c) = empty_db" if "c = start_world" for c
    using that by (simp add: start_world_def ledger_def empty_db_def)
  show "ledger (w_db c') = ledger (w_db c) \<or> ledger_step E cfg (ledger (w_db c)) (ledger (w_db c'))"
    if "world_step E cfg c c'" for c c'
    using world_implements [OF that] by (simp add: implements_step_def)
qed

lemma reachable_world_inv: "reachable_world E cfg w \<Longrightarrow> ledger_inv (w_db w)"
  using concurrent.transfer [of ledger_inv E cfg w] ledger_inv_empty ledger_inv_step by fastforce

lemma reachable_world_priced: "reachable_world E cfg w \<Longrightarrow> provider_honest E \<Longrightarrow> priced (w_db w)"
  using concurrent.transfer [of priced E cfg w] priced_step
  by (fastforce simp: priced_def)

end
