(* ===== verification/Interleaving_Properties.thy ===== *)
theory Interleaving_Properties
  imports Interleaving
begin

text \<open>
  What holds however the steps of concurrent handlers interleave: the bounds on spending, the
  finality of revocation, the exclusion of writers by the lock, with every commit under it a whole
  run of a handler, and the hash chains, up to the one append that is made without the lock.
\<close>

section \<open>What a webhook read before the lock stays true\<close>





lemma continues_refl [simp]: "continues x x"
  by (simp add: continues_def)




section \<open>The invariant of the world\<close>





section \<open>Properties\<close>





text \<open>
  C7. The spending limit holds under concurrency: however the steps of the handlers in flight
  interleave, the payments under a mandate are at most as many as its limit of transactions, each
  at most its budget and in its currency, and together at most the used count times the budget.
\<close>

theorem concurrent_spend_limit:
  assumes "reachable_world E cfg w" and "provider_honest E" and "row \<in> set (authorizations (w_db w))"
  shows "let payments = payments_of (w_db w) (au_authorization_id row); e = au_envelope row in
     sum_list (map px_amount payments) \<le> au_used_count row * max_total (financial_scope e) \<and>
     int (length payments) \<le> au_used_count row \<and> au_used_count row \<le> max 0 (max_transactions (execution_scope e)) \<and>
     (\<forall>x\<in>set payments. 0 \<le> px_amount x \<and> px_amount x \<le> max_total (financial_scope e) \<and>
        px_currency x = currency (financial_scope e))"
  using spend_limits [OF reachable_world_inv [OF assms(1)] reachable_world_priced [OF assms(1,2)] assms(3)]
  by (simp add: Let_def)

text \<open>
  C9. Revocation is final under concurrency: once the revocation of a mandate is committed, no step
  of any handler, those that were already running included, allows a request on the mandate or
  creates a payment under it.
\<close>

theorem concurrent_revocation_final:
  assumes "reachable_world E cfg w" and "get_revocation a (w_db w) = Some rv" and "(world_step E cfg)\<^sup>*\<^sup>* w w'"
  shows "get_revocation a (w_db w') = Some rv \<and> allowed_decisions (w_db w') a = allowed_decisions (w_db w) a \<and>
     map px_decision_id (payments_of (w_db w') a) = map px_decision_id (payments_of (w_db w) a)"
proof -
  let ?P = "\<lambda>s. ledger_inv s \<and> get_revocation a s = Some rv \<and> frozen a (w_db w) s"
  have "?P (ledger (w_db w'))"
  proof (rule concurrent.transfer_run [OF _ _ assms(3)])
    fix s s'
    assume P: "?P s" and step: "ledger_step E cfg s s'"
    with frozen_step [OF step] ledger_inv_step [OF _ step] revocation_kept_step [OF step] show "?P s'"
      by (auto simp: frozen_def)
  qed (use reachable_world_inv [OF assms(1)] assms(2) in \<open>simp add: frozen_def allowed_decisions_def payments_of_def decisions_of_def\<close>)
  then show ?thesis
    by (simp add: frozen_def allowed_decisions_def payments_of_def decisions_of_def)
qed

section \<open>The hash chains\<close>

text \<open>Inserting after a tail that is no longer the tail breaks the chain, collisions aside.\<close>

lemma insert_event_ready:
  assumes "log_ready E d" and "insert_event E d tx ty ac pl prev_hash = Inr d'"
  shows "log_ready E d'"
  using assms(2)
proof (rule insert_event_Inr)
  fix e
  assume d': "d' = d\<lparr>evidence_events := evidence_events d @ [e], readings := Suc (readings d)\<rparr>"
    and e: "ev_created_at e = clock E (readings d)"
  have "clock E (readings d) < clock E (Suc (readings d))"
    using assms(1) by (simp add: log_ready_def strict_mono_Suc_iff)
  with assms(1) e show ?thesis by (fastforce simp: d' log_ready_def ordered_events_def sorted_wrt_append)
qed

lemma insert_event_chain:
  assumes "log_ready E d" and "verify_chain E (get_chain d tx)" and "insert_event E d tx ty ac pl prev_hash = Inr d'"
  shows "verify_chain E (get_chain d' tx) \<longleftrightarrow>
    chain_hash E prev_hash (hash_json E pl) = chain_hash E (tail_hash d tx) (hash_json E pl)"
  using assms(3)
proof (rule insert_event_Inr)
  fix e
  assume d': "d' = d\<lparr>evidence_events := evidence_events d @ [e], readings := Suc (readings d)\<rparr>"
    and e: "ev_transaction_id e = tx" "ev_payload e = pl" "ev_payload_hash e = hash_json E pl"
      "ev_chain_hash e = chain_hash E prev_hash (ev_payload_hash e)"
  have ready: "log_ready E d'" by (rule insert_event_ready [OF assms(1,3)])
  have chain: "get_chain d' tx = get_chain d tx @ [e]"
    using get_chain_ready [OF ready] get_chain_ready [OF assms(1)] e(1) by (simp add: d' of_transaction_snoc)
  have "tail_hash d tx = last_hash genesis_hash (get_chain d tx)"
    using assms(1) get_chain_ready [OF assms(1), of tx]
    by (simp add: tail_hash_def last_hash_def ordered_latest ordered_of_transaction log_ready_def)
  then show ?thesis using assms(2) e by (auto simp: chain verify_chain_snoc)
qed



end
