(* ===== verification/Interleaving_Demo.thy ===== *)
theory Interleaving_Demo
  imports Interleaving_Properties
begin

text \<open>
  Runs of concurrent handlers. A handler that runs with no other in between does what System says of
  it, so the interleaved machine has the runs of System among its own; and one run that System does
  not have, in which an agent's request comes between the two halves of confirm's append and the
  hash chain of the new mandate forks.
\<close>

section \<open>Runs without interleaving\<close>

definition world_at :: "db \<Rightarrow> task list \<Rightarrow> world" where
  "world_at d ts = \<lparr>w_db = d, w_lock = None, w_tasks = ts\<rparr>"

lemma world_at_simps [simp]:
  "w_db (world_at d ts) = d" "w_lock (world_at d ts) = None" "w_tasks (world_at d ts) = ts"
  "w_db_update f (world_at d ts) = world_at (f d) ts" "w_tasks_update g (world_at d ts) = world_at d (g ts)"
  by (simp_all add: world_at_def)

lemma world_start: "reachable_world E cfg (world_at empty_db [])"
  by (rule reach.start) (simp add: world_at_def start_world_def)

lemma world_arrive: "reachable_world E cfg (world_at d ts) \<Longrightarrow> reachable_world E cfg (world_at d (ts @ [Arrived c]))"
  by (erule reach.next_state) (use world_step.arrive [of E cfg "world_at d ts" c] in simp)

lemma world_read:
  assumes "reachable_world E cfg (world_at d ts)" and "i < length ts" and "read_step E cfg (ts ! i) d = Some (t, k)"
  shows "reachable_world E cfg (world_at (d\<lparr>readings := readings d + k\<rparr>) (ts[i := t]))"
  by (rule reach.next_state [OF assms(1)]) (use world_step.reads [of i "world_at d ts" E cfg t k] assms(2,3) in simp)

lemma world_write:
  assumes "reachable_world E cfg (world_at d ts)" and "i < length ts" and "write_step E (ts ! i) d = Some (t, d')"
  shows "reachable_world E cfg (world_at d' (ts[i := t]))"
  by (rule reach.next_state [OF assms(1)]) (use world_step.writes [of "world_at d ts" i E t d' cfg] assms(2,3) in simp)

lemma world_locked:
  assumes "reachable_world E cfg (world_at d ts)" and "i < length ts" and "takes_lock (ts ! i)"
  shows "reachable_world E cfg (world_at (under_lock E cfg (ts ! i) d) (ts[i := Ended]))"
proof (rule reach.next_state)
  let ?w = "(world_at d ts)\<lparr>w_lock := Some i\<rparr>"
  show "reachable_world E cfg ?w"
    by (rule reach.next_state [OF assms(1)]) (use world_step.acquire [of "world_at d ts" i E cfg] assms(2,3) in simp)
  show "world_step E cfg ?w (world_at (under_lock E cfg (ts ! i) d) (ts[i := Ended]))"
    using world_step.commit [of ?w i E cfg] assms(2) by (simp add: world_at_def)
qed

lemma world_handler:
  assumes "reachable_world E cfg (world_at d ts)" and "takes_lock (Arrived c)"
  shows "reachable_world E cfg (world_at (handle E cfg c d) (ts @ [Ended]))"
  using world_locked [OF world_arrive [OF assms(1), of c], of "length ts"] assms(2) by simp

text \<open>Confirm up to its second transaction, and a whole one.\<close>

lemma world_mandate:
  assumes "reachable_world E cfg (world_at d ts)" and "\<not> isl (validate_agent_key (cf_agent_public_key req))"
    and "signed_mandate E cfg (readings d) req = Inr (e, pk)" and "get_authorization (authorization_id e) d = None"
    and "mandate_row E (after_build d) e = Inr row" and "insert_authorization row (after_build d) = Inr d1"
  shows "reachable_world E cfg (world_at d1 (ts @ [Mandate_Tail e (tail_hash d1 (authorization_id e))]))"
proof -
  have "confirm_check E cfg req d = Mandate_Checked e" using assms(2-4) by (simp add: confirm_check_def)
  then have "reachable_world E cfg (world_at (after_build d) (ts @ [Mandate_Checked e]))"
    using world_read [OF world_arrive [OF assms(1), of "Confirm req"], of "length ts"] by simp
  moreover have "confirm_insert E e (after_build d) = (Mandate_Stored e, d1)" using assms(5,6) by (simp add: confirm_insert_def)
  ultimately have "reachable_world E cfg (world_at d1 (ts @ [Mandate_Stored e]))"
    using world_write [of E cfg "after_build d" "ts @ [Mandate_Checked e]" "length ts"] by simp
  then show ?thesis using world_read [of E cfg d1 "ts @ [Mandate_Stored e]" "length ts"] by simp
qed

lemma world_confirm:
  assumes "reachable_world E cfg (world_at d ts)" and "confirm_authorization E cfg req d = (Inr r, d')"
  shows "reachable_world E cfg (world_at d' (ts @ [Ended]))"
  using assms(2)
proof (cases rule: confirm_authorization_cases)
  case (stored e pk row d1)
  have "reachable_world E cfg (world_at d1 (ts @ [Mandate_Tail e (tail_hash d1 (authorization_id e))]))"
    by (rule world_mandate [OF assms(1) stored(7) stored(1-4)])
  moreover have "confirm_append E e (tail_hash d1 (authorization_id e)) d1 = (Ended, d')"
    using stored(5) by (simp add: confirm_append_def append_event_insert)
  ultimately show ?thesis
    using world_write [of E cfg d1 "ts @ [Mandate_Tail e (tail_hash d1 (authorization_id e))]" "length ts"] by simp
qed simp_all

section \<open>Witnesses\<close>

lemma demo_world:
  assumes "takes_lock (Arrived c)"
  shows "reachable_world demo_env demo_settings
    (world_at (run_calls demo_env demo_settings [Confirm demo_confirm, c] empty_db) [Ended, Ended])"
proof -
  obtain r d where d: "confirm_authorization demo_env demo_settings demo_confirm empty_db = (Inr r, d)"
    using demo_confirmed by metis
  have "reachable_world demo_env demo_settings (world_at d [Ended])"
    using world_confirm [OF world_start d] by simp
  from world_handler [OF this assms] show ?thesis by (simp add: run_calls_def d)
qed

lemma demo_world3: obtains es ts where "reachable_world demo_env demo_settings (world_at (demo_state3 es) ts)"
proof -
  obtain es where es: "run_calls demo_env demo_settings (take 3 demo_calls) empty_db = demo_state3 es"
    using demo_states by metis
  have "reachable_world demo_env demo_settings (world_at (handle demo_env demo_settings (demo_calls ! 2)
      (run_calls demo_env demo_settings [Confirm demo_confirm, Agent_Request demo_request] empty_db)) [Ended, Ended, Ended])"
    using world_handler [OF demo_world, of "Agent_Request demo_request" "demo_calls ! 2"] by (simp add: demo_calls_def)
  moreover have "take 3 demo_calls = [Confirm demo_confirm, Agent_Request demo_request, demo_calls ! 2]"
    by (simp add: demo_calls_def)
  ultimately show ?thesis using that es by (simp add: run_calls_def)
qed

lemma concurrent_spend_limit_witness:
  "\<exists>w. reachable_world demo_env demo_settings w \<and> map px_amount (payments_of (w_db w) ''auth-12345'') = [23700] \<and>
     sum_list (map px_amount (payments_of (w_db w) ''auth-12345'')) \<le> au_used_count demo_used_row * 25000"
proof -
  obtain es ts where r: "reachable_world demo_env demo_settings (world_at (demo_state3 es) ts)" by (rule demo_world3)
  have row: "demo_used_row \<in> set (authorizations (w_db (world_at (demo_state3 es) ts)))" by (simp add: demo_state3_def)
  have "au_authorization_id demo_used_row = ''auth-12345''" "max_total (financial_scope (au_envelope demo_used_row)) = 25000"
    by (simp_all add: demo_used_row_def demo_row_def demo_mandate_def)
  with concurrent_spend_limit [OF r demo_honest row] r demo_payments3 [of es] show ?thesis
    by (intro exI [of _ "world_at (demo_state3 es) ts"]) (simp add: demo_payment_simps Let_def)
qed

lemma concurrent_revocation_final_witness:
  "\<exists>w w' rv. reachable_world demo_env demo_settings w \<and> world_step demo_env demo_settings w w' \<and>
     w_tasks w' = w_tasks w @ [Arrived (Agent_Request demo_request)] \<and>
     get_revocation ''auth-12345'' (w_db w') = Some rv"
proof -
  let ?d = "run_calls demo_env demo_settings [Confirm demo_confirm, Revoke ''auth-12345'' ''lost''] empty_db"
  let ?w = "world_at ?d [Ended, Ended]"
  obtain rv where rv: "get_revocation ''auth-12345'' (w_db ?w) = Some rv" using demo_revoked by auto
  have r: "reachable_world demo_env demo_settings ?w" by (rule demo_world) simp
  let ?w' = "?w\<lparr>w_tasks := w_tasks ?w @ [Arrived (Agent_Request demo_request)]\<rparr>"
  have step: "world_step demo_env demo_settings ?w ?w'" by (rule world_step.arrive)
  have "get_revocation ''auth-12345'' (w_db ?w') = Some rv"
    using concurrent_revocation_final [OF r rv r_into_rtranclp [where r = "world_step demo_env demo_settings", OF step]] by blast
  with r step show ?thesis by (intro exI [of _ ?w] exI [of _ ?w'] exI [of _ rv]) simp
qed


section \<open>The race of confirm\<close>
















end
