(* ===== verification/Browser.thy ===== *)
theory Browser
  imports Payload Rate_Limit Demo
begin

text \<open>
  The other end of the agent request protocol: the browser client of apps/dashboard signs a cart
  with a key of its own (apps/dashboard/src/request-signing.js), and the server hashes what pydantic
  makes of the body. The two serialize the cart independently; here they are shown to agree. An
  object of JavaScript is the list of its own properties in the order of their insertion;
  \<^verbatim>\<open>undefined\<close> is \<^verbatim>\<open>None\<close>, a number is a safe integer.
\<close>

section \<open>Objects of JavaScript\<close>

text \<open>Properties whose name is an array index are enumerated first, by their number.\<close>

definition array_index :: "string \<Rightarrow> nat option" where
  "array_index s =
     (let n = digits_value 0 s
      in if s \<noteq> [] \<and> list_all is_digit s \<and> show_nat n = s \<and> n < 2 ^ 32 - 1 then Some n else None)"

definition own_order :: "payload \<Rightarrow> payload" where
  "own_order kvs =
     sort_key (\<lambda>(k, v). the (array_index k)) (filter (\<lambda>(k, v). array_index k \<noteq> None) kvs) @
     filter (\<lambda>(k, v). array_index k = None) kvs"

fun map_objects :: "(payload \<Rightarrow> payload) \<Rightarrow> json \<Rightarrow> json" where
  "map_objects f (JList xs) = JList (map (map_objects f) xs)"
| "map_objects f (JObj kvs) = JObj (f (map (\<lambda>(k, v). (k, map_objects f v)) kvs))"
| "map_objects f v = v"

text \<open>\<^verbatim>\<open>JSON.stringify\<close> has the separators and the escapes of the canonical JSON of the server.\<close>

definition json_stringify :: "json \<Rightarrow> string" where
  "json_stringify v = render (map_objects own_order v)"

text \<open>\<^verbatim>\<open>{...v}\<close> and \<^verbatim>\<open>v ?? w\<close>.\<close>

definition spread :: "json \<Rightarrow> payload" where
  "spread v =
     (case v of
        JObj kvs \<Rightarrow> own_order kvs
      | JList xs \<Rightarrow> zip (map show_nat [0..<length xs]) xs
      | JStr s \<Rightarrow> zip (map show_nat [0..<length s]) (map (\<lambda>c. JStr [c]) s)
      | _ \<Rightarrow> [])"

definition nullish :: "json option \<Rightarrow> json \<Rightarrow> json" where
  "nullish v w = (case v of None \<Rightarrow> w | Some x \<Rightarrow> if x = JNull then w else x)"

text \<open>\<^verbatim>\<open>JSON.stringify\<close> leaves out a property whose value is \<^verbatim>\<open>undefined\<close>.\<close>

definition defined_only :: "(string \<times> json option) list \<Rightarrow> payload" where
  "defined_only kvs = map (\<lambda>(k, v). (k, the v)) (filter (\<lambda>(k, v). v \<noteq> None) kvs)"

section \<open>request-signing.js\<close>

definition create_agent_key :: "env \<Rightarrow> nat \<Rightarrow> bytes \<times> string" where
  "create_agent_key E n = (let private_key = ed25519_generate E n in (private_key, b64encode (ed25519_public E private_key)))"

definition sorted_json :: "json \<Rightarrow> json" where
  "sorted_json = map_objects (sort_key fst)"

text \<open>An item of the cart; reading a property of \<^verbatim>\<open>null\<close> throws (\<^verbatim>\<open>None\<close>).\<close>

definition signed_item :: "json \<Rightarrow> json option" where
  "signed_item v =
     (case v of
        JNull \<Rightarrow> None
      | JObj kvs \<Rightarrow> Some (JObj (od_set ''category'' (nullish (map_of kvs ''category'') JNull) (spread v)))
      | _ \<Rightarrow> Some (JObj (od_set ''category'' JNull (spread v))))"

definition signed_cart :: "payload \<Rightarrow> payload option" where
  "signed_cart cs =
     (case map_of cs ''items'' of
        Some (JList xs) \<Rightarrow>
          map_option (\<lambda>items. od_set ''items'' (JList items)
              (od_set ''currency'' (nullish (map_of cs ''currency'') (JStr ''INR''))
              (od_set ''tax'' (nullish (map_of cs ''tax'') (JInt 0))
              (od_set ''shipping'' (nullish (map_of cs ''shipping'') (JInt 0)) (spread (JObj cs))))))
            (those (map signed_item xs))
      | _ \<Rightarrow> None)"

definition sign_agent_request :: "env \<Rightarrow> payload \<Rightarrow> bytes \<Rightarrow> payload option" where
  "sign_agent_request E payload private_key =
     (case map_of payload ''cart'' of
        Some (JObj cs) \<Rightarrow>
          map_option (\<lambda>cart.
            let signable = defined_only
                  [(''domain'', Some (JStr ''agent-request.v1'')), (''authorization_id'', map_of payload ''authorization_id''),
                   (''agent_id'', map_of payload ''agent_id''), (''nonce'', map_of payload ''nonce''), (''cart'', Some (JObj cart))];
                hex = sha256_hex E (utf8 (json_stringify (sorted_json (JObj signable))));
                signature = ed25519_sign E private_key (utf8 hex)
            in od_set ''agent_signature'' (JStr (b64encode signature)) (od_set ''cart'' (JObj cart) (spread (JObj payload))))
          (signed_cart cs)
      | _ \<Rightarrow> None)"

section \<open>The cart form of App.jsx\<close>

text \<open>
  A numeric field is a number until it is edited and a text from then on. \<^verbatim>\<open>Number\<close> of a text of
  digits is exact as long as it is a safe integer; fractions, other texts and larger numbers are
  outside this model (\<^verbatim>\<open>None\<close>).
\<close>

datatype field = Preset int | Typed string

record form_item =
  fi_sku :: string
  fi_unit_price :: field
  fi_quantity :: field

record cart_form =
  fm_merchant_id :: string
  fm_items :: "form_item list"
  fm_shipping :: field
  fm_tax :: field
  fm_currency :: string

definition safe_int :: "int \<Rightarrow> int option" where
  "safe_int i = (if \<bar>i\<bar> \<le> 2 ^ 53 - 1 then Some i else None)"

fun field_number :: "field \<Rightarrow> int option" where
  "field_number (Preset i) = safe_int i"
| "field_number (Typed s) =
     (if s = [] then Some 0
      else if list_all is_digit s then safe_int (int (digits_value 0 s))
      else if hd s = CHR ''-'' \<and> tl s \<noteq> [] \<and> list_all is_digit (tl s) then safe_int (- int (digits_value 0 (tl s)))
      else None)"

text \<open>\<^verbatim>\<open>v || 0\<close>.\<close>

definition or_zero :: "field \<Rightarrow> field" where
  "or_zero v = (if v = Preset 0 \<or> v = Typed [] then Preset 0 else v)"

fun items_total :: "int \<Rightarrow> form_item list \<Rightarrow> int option" where
  "items_total acc [] = Some acc"
| "items_total acc (i # is) =
     Option.bind (field_number (or_zero (fi_unit_price i))) (\<lambda>u.
     Option.bind (field_number (or_zero (fi_quantity i))) (\<lambda>q.
     Option.bind (safe_int (u * q)) (\<lambda>a. Option.bind (safe_int (acc + a)) (\<lambda>s. items_total s is))))"

definition form_total :: "cart_form \<Rightarrow> int option" where
  "form_total f =
     Option.bind (items_total 0 (fm_items f)) (\<lambda>s.
     Option.bind (field_number (or_zero (fm_shipping f))) (\<lambda>a. Option.bind (safe_int (s + a)) (\<lambda>s'.
     Option.bind (field_number (or_zero (fm_tax f))) (\<lambda>t. safe_int (s' + t)))))"

definition form_item_json :: "form_item \<Rightarrow> json option" where
  "form_item_json i =
     Option.bind (field_number (fi_unit_price i)) (\<lambda>u. Option.bind (field_number (fi_quantity i)) (\<lambda>q.
       Some (JObj [(''sku'', JStr (fi_sku i)), (''unit_price'', JInt u), (''quantity'', JInt q)])))"

text \<open>The payload of \<^verbatim>\<open>submitCart\<close>.\<close>

definition submit_payload :: "string \<Rightarrow> string \<Rightarrow> string \<Rightarrow> cart_form \<Rightarrow> payload option" where
  "submit_payload auth_id n ag f =
     Option.bind (form_total f) (\<lambda>total. Option.bind (those (map form_item_json (fm_items f))) (\<lambda>items.
     Option.bind (field_number (fm_shipping f)) (\<lambda>s. Option.bind (field_number (fm_tax f)) (\<lambda>t.
       Some [(''authorization_id'', JStr auth_id), (''nonce'', JStr n), (''agent_id'', JStr ag),
             (''cart'', JObj [(''merchant_id'', JStr (fm_merchant_id f)), (''items'', JList items),
                (''shipping'', JInt s), (''tax'', JInt t), (''currency'', JStr (fm_currency f)), (''total'', JInt total)])]))))"

section \<open>What the client sends and what the server reads\<close>

text \<open>
  A payload that stands for a request: the fields with values of their types, in any order, those
  with a default possibly absent or \<^verbatim>\<open>null\<close>; in cart and items no other fields.
\<close>

definition item_fields :: "string list" where
  "item_fields = [''sku'', ''unit_price'', ''quantity'', ''category'']"

definition cart_fields :: "string list" where
  "cart_fields = [''merchant_id'', ''items'', ''shipping'', ''tax'', ''total'', ''currency'']"

definition typed_item :: "payload \<Rightarrow> cart_item \<Rightarrow> bool" where
  "typed_item kvs i \<longleftrightarrow>
     distinct (map fst kvs) \<and> fst ` set kvs \<subseteq> set item_fields \<and>
     map_of kvs ''sku'' = Some (JStr (sku i)) \<and> map_of kvs ''unit_price'' = Some (JInt (unit_price i)) \<and>
     map_of kvs ''quantity'' = Some (JInt (quantity i)) \<and>
     nullish (map_of kvs ''category'') JNull = json_opt JStr (category i)"

definition typed_items :: "json list \<Rightarrow> cart_item list \<Rightarrow> bool" where
  "typed_items xs is = list_all2 (\<lambda>x i. case x of JObj kvs \<Rightarrow> typed_item kvs i | _ \<Rightarrow> False) xs is"

definition typed_cart :: "payload \<Rightarrow> cart \<Rightarrow> bool" where
  "typed_cart kvs c \<longleftrightarrow>
     distinct (map fst kvs) \<and> fst ` set kvs \<subseteq> set cart_fields \<and>
     map_of kvs ''merchant_id'' = Some (JStr (merchant_id c)) \<and> map_of kvs ''total'' = Some (JInt (total c)) \<and>
     (case map_of kvs ''items'' of Some (JList xs) \<Rightarrow> typed_items xs (items c) | _ \<Rightarrow> False) \<and>
     nullish (map_of kvs ''shipping'') (JInt 0) = JInt (shipping c) \<and>
     nullish (map_of kvs ''tax'') (JInt 0) = JInt (tax c) \<and>
     nullish (map_of kvs ''currency'') (JStr ''INR'') = JStr (cart_currency c)"

definition typed_request :: "payload \<Rightarrow> agent_request \<Rightarrow> bool" where
  "typed_request kvs req \<longleftrightarrow>
     distinct (map fst kvs) \<and> map_of kvs ''authorization_id'' = Some (JStr (req_authorization_id req)) \<and>
     map_of kvs ''nonce'' = Some (JStr (req_nonce req)) \<and> map_of kvs ''agent_id'' = Some (JStr (req_agent_id req)) \<and>
     (case map_of kvs ''cart'' of Some (JObj cs) \<Rightarrow> typed_cart cs (req_cart req) | _ \<Rightarrow> False)"

subsection \<open>Order of properties\<close>

fun all_keys :: "(string \<Rightarrow> bool) \<Rightarrow> json \<Rightarrow> bool" where
  "all_keys P (JList xs) = list_all (all_keys P) xs"
| "all_keys P (JObj kvs) = list_all (\<lambda>(k, v). P k \<and> all_keys P v) kvs"
| "all_keys P v = True"

abbreviation plain :: "json \<Rightarrow> bool" where
  "plain \<equiv> all_keys (\<lambda>k. array_index k = None)"

lemma own_order_plain: "\<forall>k\<in>fst ` set kvs. array_index k = None \<Longrightarrow> own_order kvs = kvs"
proof -
  assume "\<forall>k\<in>fst ` set kvs. array_index k = None"
  then have "filter (\<lambda>(k, v). array_index k \<noteq> None) kvs = []" "filter (\<lambda>(k, v). array_index k = None) kvs = kvs"
    by (force simp: filter_empty_conv, force intro: filter_True)
  then show ?thesis unfolding own_order_def by simp
qed

lemma set_own_order: "set (own_order kvs) = set kvs"
  by (auto simp: own_order_def)

lemma distinct_own_order: "distinct (map fst kvs) \<Longrightarrow> distinct (map fst (own_order kvs))"
  by (auto simp: own_order_def distinct_map inj_on_def)

lemma map_of_own_order:
  assumes "distinct (map fst kvs)"
  shows "map_of (own_order kvs) = map_of kvs"
proof
  show "map_of (own_order kvs) k = map_of kvs k" for k
    using map_of_eq_Some_iff [OF assms, of k] map_of_eq_Some_iff [OF distinct_own_order [OF assms], of k]
    by (metis not_None_eq set_own_order)
qed

lemma sorted_json_sort_keys: "sorted_json v = sort_keys v"
  unfolding sorted_json_def
  by (induction "sort_key fst :: payload \<Rightarrow> payload" v rule: map_objects.induct)
    (auto intro!: arg_cong [where f = "sort_key fst"])

lemma stringify_plain: "plain v \<Longrightarrow> map_objects own_order v = v"
proof (induction own_order v rule: map_objects.induct)
  case (1 xs)
  then show ?case by (simp add: list_all_iff map_idI)
next
  case (2 kvs)
  then have "map (\<lambda>(k, v). (k, map_objects own_order v)) kvs = kvs"
    by (intro map_idI) (auto simp: list_all_iff)
  then show ?case using 2(2) by (simp only: map_objects.simps own_order_plain) (force simp: list_all_iff intro: own_order_plain)
qed simp_all

lemma plain_sort_keys: "plain v \<Longrightarrow> plain (sort_keys v)"
  unfolding sorted_json_sort_keys [symmetric] sorted_json_def
  by (induction "sort_key fst :: payload \<Rightarrow> payload" v rule: map_objects.induct)
    (auto simp: list_all_iff)

text \<open>So for objects without index keys the client's text is the server's.\<close>

lemma stringify_sorted: "plain v \<Longrightarrow> json_stringify (sorted_json v) = dumps v"
  by (simp add: json_stringify_def sorted_json_sort_keys dumps_def stringify_plain plain_sort_keys del: sort_keys.simps)

lemma sort_keys_agree:
  assumes "distinct (map fst kvs)" and "distinct (map fst lvs)"
    and "\<And>k. map_option sort_keys (map_of kvs k) = map_option sort_keys (map_of lvs k)"
  shows "sort_keys (JObj kvs) = sort_keys (JObj lvs)"
proof -
  let ?n = "map (\<lambda>(k, v). (k, sort_keys v))"
  have f: "map fst (?n zs) = map fst zs" for zs :: payload
    by (induction zs) auto
  have d: "distinct (map fst (?n kvs))" "distinct (map fst (?n lvs))" using assms(1,2) f by (simp_all only:)
  have "map_of (?n kvs) = map_of (?n lvs)" using assms(3) by (auto simp: map_of_map)
  then have "set (?n kvs) = set (?n lvs)"
    using map_of_inject_set [OF d] by simp
  then have "set (sort_key fst (?n kvs)) = set (sort_key fst (?n lvs))" by simp
  moreover have "inj_on fst (set (sort_key fst (?n kvs)) \<union> set (sort_key fst (?n lvs)))"
    using d(1) calculation by (simp only: set_sort distinct_map Un_absorb)
  ultimately have "sort_key fst (?n kvs) = sort_key fst (?n lvs)"
    using d by (intro map_sorted_distinct_set_unique [where f = fst]) (simp_all add: distinct_map del: map_map)
  then show ?thesis by simp
qed

subsection \<open>Items and cart\<close>

lemma od_set_keys [simp]: "fst ` set (od_set k v kvs) = insert k (fst ` set kvs)"
  unfolding dom_map_of_conv_image_fst [symmetric] by (simp add: map_of_od_set)

lemma map_fst_od_set: "map fst (od_set k v kvs) = (if k \<in> fst ` set kvs then map fst kvs else map fst kvs @ [k])"
  by (induction kvs) force+

lemma od_set_distinct [simp]: "distinct (map fst (od_set k v kvs)) = distinct (map fst kvs)"
  by (simp add: map_fst_od_set)

lemma fields_plain: "k \<in> set item_fields \<Longrightarrow> array_index k = None" "k \<in> set cart_fields \<Longrightarrow> array_index k = None"
  by (auto simp: item_fields_def cart_fields_def array_index_def is_digit_def)

lemma map_of_typed: "distinct (map fst kvs) \<Longrightarrow> (k, v) \<in> set kvs \<Longrightarrow> map_of kvs k = Some v \<and> k \<in> fst ` set kvs"
  by force

text \<open>An object with no other keys than a reference object and the same values is a permutation of it.\<close>

lemma map_of_reference:
  assumes "fst ` set kvs \<subseteq> fst ` set ref" and "list_all (\<lambda>(k, v). map_of kvs k = map_of ref k) ref"
  shows "map_of kvs = map_of ref"
proof
  fix k
  show "map_of kvs k = map_of ref k"
  proof (cases "k \<in> fst ` set ref")
    case False
    then have "k \<notin> fst ` set kvs" by (rule contrapos_nn) (rule subsetD [OF assms(1)])
    with False show ?thesis by (simp add: map_of_eq_None_iff [THEN iffD2])
  qed (use assms(2) in \<open>auto simp: list_all_iff\<close>)
qed

lemma plain_reference:
  assumes "distinct (map fst kvs)" and "map_of kvs = map_of ref" and "plain (JObj ref)"
  shows "plain (JObj kvs)"
proof -
  have "array_index k = None \<and> plain v" if "(k, v) \<in> set kvs" for k v
    using map_of_typed [OF assms(1) that] assms(2,3) map_of_SomeD [of ref k v] by (auto simp: list_all_iff)
  then show ?thesis by (auto simp: list_all_iff)
qed

lemma checked_lawful:
  assumes "validation_lawful E"
  shows "as_str E (JStr s) = Inr s" "as_int E (JInt i) = Inr i" "as_str_option E (json_opt JStr c) = Inr c"
  using assms
  by (simp_all add: validation_lawful_def as_str_def as_int_def checked_def as_str_option_def json_opt_def split: option.split)

lemma sort_keys_nullish:
  "sort_keys (json_opt JStr c) = json_opt JStr c" "plain (json_opt JStr c)"
  by (simp_all add: json_opt_def split: option.split)

lemma typed_item_signed:
  assumes "typed_item kvs i" and "validation_lawful E"
  obtains ms where "signed_item (JObj kvs) = Some (JObj ms)" "sort_keys (JObj ms) = sort_keys (item_json i)"
    "make_item E (JObj ms) = Inr i" "plain (JObj ms)"
proof -
  let ?ms = "od_set ''category'' (json_opt JStr (category i)) kvs"
  let ?ref = "[(''sku'', JStr (sku i)), (''unit_price'', JInt (unit_price i)), (''quantity'', JInt (quantity i)),
    (''category'', json_opt JStr (category i))]"
  have t: "distinct (map fst kvs)" "fst ` set kvs \<subseteq> set item_fields"
    "map_of kvs ''sku'' = Some (JStr (sku i))" "map_of kvs ''unit_price'' = Some (JInt (unit_price i))"
    "map_of kvs ''quantity'' = Some (JInt (quantity i))" "nullish (map_of kvs ''category'') JNull = json_opt JStr (category i)"
    using assms(1) unfolding typed_item_def by blast+
  have "own_order kvs = kvs" by (intro own_order_plain ballI fields_plain(1) subsetD [OF t(2)])
  then have signed: "signed_item (JObj kvs) = Some (JObj ?ms)" using t(6) by (simp add: signed_item_def spread_def)
  have ref: "map_of ?ms = map_of ?ref"
    by (rule map_of_reference) (use t(2-5) in \<open>simp_all add: item_fields_def map_of_od_set\<close>)
  have "sort_keys (JObj ?ms) = sort_keys (item_json i)"
    unfolding item_json_def by (rule sort_keys_agree) (use t(1) ref in \<open>simp_all del: map_of.simps\<close>)
  moreover have "make_item E (JObj ?ms) = Inr i"
    using checked_lawful [OF assms(2)] by (simp add: make_item_def required_def get_or_def ref)
  moreover have "plain (JObj ?ms)"
    by (rule plain_reference [OF _ ref]) (use t(1) fields_plain(1) in \<open>simp_all add: item_fields_def sort_keys_nullish\<close>)
  ultimately show ?thesis using signed by (intro that)
qed

lemma typed_items_signed:
  assumes "typed_items xs is" and "validation_lawful E"
  shows "\<exists>ys. those (map signed_item xs) = Some ys \<and> map sort_keys ys = map (sort_keys \<circ> item_json) is \<and>
    traverse (make_item E) ys = Inr is \<and> list_all plain ys"
  using assms(1) unfolding typed_items_def
proof (induction rule: list_all2_induct)
  case (Cons x xs i its)
  obtain kvs where x: "x = JObj kvs" "typed_item kvs i" using Cons.hyps(1) by (cases x) auto
  obtain ms where "signed_item x = Some (JObj ms)" "sort_keys (JObj ms) = sort_keys (item_json i)"
    "make_item E (JObj ms) = Inr i" "plain (JObj ms)"
    using typed_item_signed [OF x(2) assms(2)] x(1) by metis
  moreover obtain ys where "those (map signed_item xs) = Some ys" "map sort_keys ys = map (sort_keys \<circ> item_json) its"
    "traverse (make_item E) ys = Inr its" "list_all plain ys"
    using Cons.IH by blast
  ultimately show ?case by (intro exI [of _ "JObj ms # ys"]) (simp del: sort_keys.simps all_keys.simps)
qed simp

text \<open>What is signed is, up to the order of the keys, the dump of the cart that the server reads from it.\<close>

lemma typed_cart_signed:
  assumes "typed_cart cs c" and "validation_lawful E"
  obtains ms where "signed_cart cs = Some ms" "sort_keys (JObj ms) = sort_keys (cart_json c)"
    "make_cart E (JObj ms) = Inr c" "plain (JObj ms)"
proof -
  have t: "distinct (map fst cs)" "fst ` set cs \<subseteq> set cart_fields"
    "map_of cs ''merchant_id'' = Some (JStr (merchant_id c))" "map_of cs ''total'' = Some (JInt (total c))"
    "nullish (map_of cs ''shipping'') (JInt 0) = JInt (shipping c)" "nullish (map_of cs ''tax'') (JInt 0) = JInt (tax c)"
    "nullish (map_of cs ''currency'') (JStr ''INR'') = JStr (cart_currency c)"
    "case map_of cs ''items'' of Some (JList xs) \<Rightarrow> typed_items xs (items c) | _ \<Rightarrow> False"
    using assms(1) unfolding typed_cart_def by blast+
  obtain xs where xs: "map_of cs ''items'' = Some (JList xs)" "typed_items xs (items c)"
    using t(8) by (auto split: option.splits json.splits)
  obtain ys where ys: "those (map signed_item xs) = Some ys" "map sort_keys ys = map (sort_keys \<circ> item_json) (items c)"
    "traverse (make_item E) ys = Inr (items c)" "list_all plain ys"
    using typed_items_signed [OF xs(2) assms(2)] by blast
  let ?ms = "od_set ''items'' (JList ys) (od_set ''currency'' (JStr (cart_currency c))
    (od_set ''tax'' (JInt (tax c)) (od_set ''shipping'' (JInt (shipping c)) cs)))"
  let ?ref = "[(''merchant_id'', JStr (merchant_id c)), (''items'', JList ys), (''shipping'', JInt (shipping c)),
    (''tax'', JInt (tax c)), (''total'', JInt (total c)), (''currency'', JStr (cart_currency c))]"
  have "own_order cs = cs" by (intro own_order_plain ballI fields_plain(2) subsetD [OF t(2)])
  then have signed: "signed_cart cs = Some ?ms" using t(5-7) xs(1) ys(1) by (simp add: signed_cart_def spread_def)
  have ref: "map_of ?ms = map_of ?ref"
    by (rule map_of_reference) (use t(2-4) in \<open>simp_all add: cart_fields_def map_of_od_set\<close>)
  have "sort_keys (JObj ?ms) = sort_keys (cart_json c)"
    unfolding cart_json_def by (rule sort_keys_agree) (use t(1) ref ys(2) in \<open>simp_all add: comp_def\<close>)
  moreover have "make_cart E (JObj ?ms) = Inr c"
    using checked_lawful [OF assms(2)] ys(3) by (simp add: make_cart_def make_items_def required_def get_or_def ref)
  moreover have "plain (JObj ?ms)"
    by (rule plain_reference [OF _ ref]) (use t(1) ys(4) fields_plain(2) in \<open>simp_all add: cart_fields_def\<close>)
  ultimately show ?thesis using signed by (intro that)
qed

subsection \<open>The form\<close>

text \<open>
  What the form submits stands for a request, and its total is the one the policy engine computes.
\<close>

lemma or_zero_number [simp]: "field_number (or_zero v) = field_number v"
  by (auto simp: or_zero_def safe_int_def)

lemma safe_int_Some: "safe_int i = Some j \<longleftrightarrow> j = i \<and> \<bar>i\<bar> \<le> 2 ^ 53 - 1"
  by (auto simp: safe_int_def)

lemma form_item_json_Some:
  "form_item_json i = Some j \<longleftrightarrow> (\<exists>u q. field_number (fi_unit_price i) = Some u \<and> field_number (fi_quantity i) = Some q \<and>
     j = JObj [(''sku'', JStr (fi_sku i)), (''unit_price'', JInt u), (''quantity'', JInt q)])"
  by (auto simp: form_item_json_def Option.bind_eq_Some_conv)

lemma items_typed:
  assumes "items_total acc is = Some s" and "those (map form_item_json is) = Some js"
  shows "\<exists>its. typed_items js its \<and> s = acc + sum_list (map (\<lambda>i. unit_price i * quantity i) its)"
  using assms
proof (induction acc "is" arbitrary: js rule: items_total.induct)
  case (1 acc)
  then show ?case by (auto simp: typed_items_def)
next
  case (2 acc i rest)
  from "2.prems" obtain u q js' where uq: "field_number (fi_unit_price i) = Some u" "field_number (fi_quantity i) = Some q"
    "items_total (acc + u * q) rest = Some s" "those (map form_item_json rest) = Some js'"
    "js = JObj [(''sku'', JStr (fi_sku i)), (''unit_price'', JInt u), (''quantity'', JInt q)] # js'"
    "safe_int (u * q) = Some (u * q)" "safe_int (acc + u * q) = Some (acc + u * q)"
    by (auto simp: Option.bind_eq_Some_conv form_item_json_Some safe_int_Some split: option.splits)
  then obtain its where "typed_items js' its" "s = acc + u * q + sum_list (map (\<lambda>i. unit_price i * quantity i) its)"
    using "2.IH" [of u q "u * q" "acc + u * q" js'] by auto
  then show ?case
    using uq(5) by (intro exI [of _ "\<lparr>sku = fi_sku i, unit_price = u, quantity = q, category = None\<rparr> # its"])
      (simp add: typed_items_def typed_item_def item_fields_def nullish_def json_opt_def)
qed

lemma submitted_typed:
  assumes "submit_payload auth_id n ag f = Some payload"
  shows "\<exists>req. typed_request payload req \<and> req_authorization_id req = auth_id \<and> req_nonce req = n \<and> req_agent_id req = ag \<and>
    total (req_cart req) = computed_total (req_cart req)"
proof -
  obtain tot js sh tx s where v: "items_total 0 (fm_items f) = Some s" "tot = s + sh + tx"
    "those (map form_item_json (fm_items f)) = Some js"
    "payload = [(''authorization_id'', JStr auth_id), (''nonce'', JStr n), (''agent_id'', JStr ag),
       (''cart'', JObj [(''merchant_id'', JStr (fm_merchant_id f)), (''items'', JList js),
          (''shipping'', JInt sh), (''tax'', JInt tx), (''currency'', JStr (fm_currency f)), (''total'', JInt tot)])]"
    using assms by (auto simp: submit_payload_def form_total_def Option.bind_eq_Some_conv safe_int_Some)
  obtain its where its: "typed_items js its" "s = sum_list (map (\<lambda>i. unit_price i * quantity i) its)"
    using items_typed [OF v(1,3)] by auto
  let ?c = "\<lparr>merchant_id = fm_merchant_id f, items = its, shipping = sh, tax = tx, total = tot, cart_currency = fm_currency f\<rparr>"
  have "typed_request payload \<lparr>req_authorization_id = auth_id, req_nonce = n, req_agent_id = ag, req_cart = ?c, agent_signature = None\<rparr>"
    using its(1) by (simp add: v(4) typed_request_def typed_cart_def cart_fields_def nullish_def)
  then show ?thesis
    using v(2) its(2) by (intro exI conjI) (auto simp: computed_total_def)
qed

section \<open>Both ends agree\<close>

lemma ascii_utf8: "ascii s = Some m \<Longrightarrow> utf8 s = m"
  by (induction s arbitrary: m) (auto simp: ascii_def utf8_def utf8_char_def split: if_splits)

text \<open>
  C21. The browser and the server agree on the request protocol: for every payload that stands for a
  request, however its properties are ordered and whatever defaults are left out, signing it in the
  browser succeeds, and what the server parses from the body that is sent is the request that its
  own \<^verbatim>\<open>sign_request\<close> returns for it under the same key.
\<close>

theorem browser_signs_like_server:
  assumes "typed_request payload req" and "length private_key = 32"
    and "digests_hex E" and "validation_lawful E"
  shows "\<exists>sent signed. sign_agent_request E payload private_key = Some sent \<and>
    sign_request E req (b64encode private_key) = Inr signed \<and> make_agent_request E sent = Inr signed"
proof -
  have t: "distinct (map fst payload)" "map_of payload ''authorization_id'' = Some (JStr (req_authorization_id req))"
    "map_of payload ''nonce'' = Some (JStr (req_nonce req))" "map_of payload ''agent_id'' = Some (JStr (req_agent_id req))"
    "case map_of payload ''cart'' of Some (JObj cs) \<Rightarrow> typed_cart cs (req_cart req) | _ \<Rightarrow> False"
    using assms(1) unfolding typed_request_def by blast+
  obtain cs where cs: "map_of payload ''cart'' = Some (JObj cs)" "typed_cart cs (req_cart req)"
    using t(5) by (auto split: option.splits json.splits)
  obtain ms where ms: "signed_cart cs = Some ms" "sort_keys (JObj ms) = sort_keys (cart_json (req_cart req))"
    "make_cart E (JObj ms) = Inr (req_cart req)" "plain (JObj ms)"
    by (rule typed_cart_signed [OF cs(2) assms(4)])
  let ?signable = "JObj [(''domain'', JStr ''agent-request.v1''), (''authorization_id'', JStr (req_authorization_id req)),
    (''agent_id'', JStr (req_agent_id req)), (''nonce'', JStr (req_nonce req)), (''cart'', JObj ms)]"
  let ?hash = "request_hash E (req_authorization_id req) (req_agent_id req) (req_nonce req) (req_cart req)"
  have "plain ?signable" using ms(4) by (simp add: array_index_def is_digit_def)
  moreover have "sort_keys ?signable = sort_keys (request_payload (req_authorization_id req) (req_agent_id req) (req_nonce req) (req_cart req))"
    unfolding request_payload_def by (subst sort_keys_record) (use ms(2) in \<open>simp_all\<close>)
  ultimately have hash: "sha256_hex E (utf8 (json_stringify (sorted_json ?signable))) = ?hash"
    by (simp only: stringify_sorted request_hash_def hash_json_def json_blob_def dumps_def)
  have ascii: "ascii ?hash = Some ?hash"
    unfolding request_hash_def by (rule hex_digest_ascii [OF hash_json_hex [OF assms(3)]])
  let ?s = "b64encode (ed25519_sign E private_key ?hash)"
  let ?sent = "od_set ''agent_signature'' (JStr ?s) (od_set ''cart'' (JObj ms) (own_order payload))"
  have "sign_agent_request E payload private_key = Some ?sent"
    using t(2-4) cs(1) ms(1) hash ascii_utf8 [OF ascii]
    by (simp add: sign_agent_request_def defined_only_def Let_def spread_def)
  moreover have "sign_request E req (b64encode private_key) = Inr (req\<lparr>agent_signature := Some ?s\<rparr>)"
    using assms(2) ascii by (simp add: sign_request_def sign_def private_bytes_def b64_round_trip)
  moreover have "make_agent_request E ?sent = Inr (req\<lparr>agent_signature := Some ?s\<rparr>)"
    using t(2-4) ms(3) checked_lawful [OF assms(4)] checked_lawful(3) [OF assms(4), of "Some ?s"]
    by (simp add: make_agent_request_def required_def get_or_def map_of_od_set map_of_own_order [OF t(1)] json_opt_def)
  ultimately show ?thesis by blast
qed

lemma browser_signs_like_server_witness:
  "\<exists>payload sent signed. submit_payload ''auth-12345'' ''abc123'' ''shopping-agent-demo''
       \<lparr>fm_merchant_id = ''Merchant A'', fm_items = [\<lparr>fi_sku = ''CHAIR1'', fi_unit_price = Preset 7500, fi_quantity = Typed ''3''\<rparr>],
        fm_shipping = Preset 1200, fm_tax = Preset 0, fm_currency = ''INR''\<rparr> = Some payload \<and>
     sign_agent_request demo_env payload (replicate 32 CHR ''k'') = Some sent \<and>
     make_agent_request demo_env sent = Inr signed \<and> total (req_cart signed) = 23700"
proof -
  let ?form = "\<lparr>fm_merchant_id = ''Merchant A'', fm_items = [\<lparr>fi_sku = ''CHAIR1'', fi_unit_price = Preset 7500, fi_quantity = Typed ''3''\<rparr>],
        fm_shipping = Preset 1200, fm_tax = Preset 0, fm_currency = ''INR''\<rparr>"
  let ?payload = "[(''authorization_id'', JStr ''auth-12345''), (''nonce'', JStr ''abc123''), (''agent_id'', JStr ''shopping-agent-demo''),
    (''cart'', JObj [(''merchant_id'', JStr ''Merchant A''),
       (''items'', JList [JObj [(''sku'', JStr ''CHAIR1''), (''unit_price'', JInt 7500), (''quantity'', JInt 3)]]),
       (''shipping'', JInt 1200), (''tax'', JInt 0), (''currency'', JStr ''INR''), (''total'', JInt 23700)])]"
  let ?req = "\<lparr>req_authorization_id = ''auth-12345'', req_nonce = ''abc123'', req_agent_id = ''shopping-agent-demo'',
    req_cart = \<lparr>merchant_id = ''Merchant A'', items = [\<lparr>sku = ''CHAIR1'', unit_price = 7500, quantity = 3, category = None\<rparr>],
      shipping = 1200, tax = 0, total = 23700, cart_currency = ''INR''\<rparr>, agent_signature = None\<rparr>"
  have payload: "submit_payload ''auth-12345'' ''abc123'' ''shopping-agent-demo'' ?form = Some ?payload"
    by (simp add: submit_payload_def form_total_def form_item_json_def safe_int_def or_zero_def is_digit_def)
  have typed: "typed_request ?payload ?req"
    by (simp add: typed_request_def typed_cart_def typed_items_def typed_item_def cart_fields_def item_fields_def
        nullish_def json_opt_def)
  have "hex_digest demo_digest" by code_simp
  then have laws: "digests_hex demo_env" "validation_lawful demo_env"
    by (simp_all add: digests_hex_def validation_lawful_def demo_env_def)
  obtain sent signed where r: "sign_agent_request demo_env ?payload (replicate 32 CHR ''k'') = Some sent"
    "sign_request demo_env ?req (b64encode (replicate 32 CHR ''k'')) = Inr signed" "make_agent_request demo_env sent = Inr signed"
    using browser_signs_like_server [OF typed _ laws, of "replicate 32 CHR ''k''"] by auto
  have "total (req_cart signed) = 23700" using r(2) by (auto simp: sign_request_def split: sum.splits)
  with payload r(1,3) show ?thesis by blast
qed

end
